(* ===== verification/Hack_Prelude.thy ===== *)
theory Hack_Prelude
  imports Main "HOL-Library.Sublist"
begin

text \<open>
  Shared vocabulary of the development: the exceptions the assembler can raise, the
  result type of an operation that may raise, the two loop combinators every
  \<^verbatim>\<open>for\<close> loop of \<^verbatim>\<open>src/hack-assemble.py\<close> is written with (\<open>fold\<close> of the
  library for a loop that cannot raise, \<open>efold\<close> for one that can), and the generic
  facts about them that the component theories use.  Nothing here is specific to one
  method of the assembler.
\<close>

section \<open>Collections of facts\<close>

named_theorems py_defs "unfolding equations of the modelled Python builtins"
named_theorems asm_defs "unfolding equations of the assembler's methods"
named_theorems table_defs "unfolding equations of the static tables"

section \<open>Exceptions and results\<close>

text \<open>
  The three exceptions that the builtins used by the assembler raise: \<^verbatim>\<open>int(s)\<close> on a
  string that is no literal (\<open>ValueError\<close>, with the string), a dictionary lookup of a
  missing key (\<open>KeyError\<close>, with the key, which may be Python's \<^verbatim>\<open>None\<close>), and
  \<^verbatim>\<open>del xs[i]\<close> out of range (\<open>IndexError\<close>).
\<close>

datatype py_error = ValueError string | KeyError "string option" | IndexError

type_synonym 'a result = "py_error + 'a"

definition ebind :: "'e + 'a \<Rightarrow> ('a \<Rightarrow> 'e + 'b) \<Rightarrow> 'e + 'b" where
  "ebind m f = (case m of Inl e \<Rightarrow> Inl e | Inr x \<Rightarrow> f x)"

definition returns :: "'e + 'a \<Rightarrow> bool" where
  "returns m = (case m of Inl e \<Rightarrow> False | Inr x \<Rightarrow> True)"

lemma ebind_Inl [simp]: "ebind (Inl e) f = Inl e"
  by (simp add: ebind_def)

lemma ebind_Inr [simp]: "ebind (Inr x) f = f x"
  by (simp add: ebind_def)

lemma ebind_Inr_right [simp]: "ebind m Inr = m"
  by (cases m) simp_all

lemma ebind_assoc: "ebind (ebind m f) g = ebind m (\<lambda>x. ebind (f x) g)"
  by (cases m) simp_all

lemma ebind_eq_Inr_iff: "ebind m f = Inr y \<longleftrightarrow> (\<exists>x. m = Inr x \<and> f x = Inr y)"
  by (cases m) simp_all

lemma ebind_eq_Inl_iff:
  "ebind m f = Inl e \<longleftrightarrow> m = Inl e \<or> (\<exists>x. m = Inr x \<and> f x = Inl e)"
  by (cases m) simp_all

lemma returns_simps [simp]: "returns (Inr x)" "\<not> returns (Inl e)"
  by (simp_all add: returns_def)

lemma returns_iff: "returns m \<longleftrightarrow> (\<exists>x. m = Inr x)"
  by (cases m) simp_all

lemma returns_ebind: "returns (ebind m f) \<longleftrightarrow> (\<exists>x. m = Inr x \<and> returns (f x))"
  by (cases m) simp_all

section \<open>Loops\<close>

text \<open>
  A \<^verbatim>\<open>for x in xs:\<close> loop whose body updates local state \<open>s\<close> and may raise is
  \<open>efold body xs s\<close>: the bodies run from left to right and the first exception ends
  the loop.  A loop that appends the results of its body to a list is \<open>emap\<close>.
\<close>

primrec efold :: "('a \<Rightarrow> 's \<Rightarrow> 'e + 's) \<Rightarrow> 'a list \<Rightarrow> 's \<Rightarrow> 'e + 's" where
  "efold f [] s = Inr s"
| "efold f (x # xs) s = ebind (f x s) (efold f xs)"

primrec emap :: "('a \<Rightarrow> 'e + 'b) \<Rightarrow> 'a list \<Rightarrow> 'e + 'b list" where
  "emap f [] = Inr []"
| "emap f (x # xs) = ebind (f x) (\<lambda>y. ebind (emap f xs) (\<lambda>ys. Inr (y # ys)))"

lemma efold_append: "efold f (xs @ ys) s = ebind (efold f xs s) (efold f ys)"
  by (induction xs arbitrary: s) (simp_all add: ebind_def split: sum.splits)

lemma efold_pure: "(\<And>x s. f x s = Inr (g x s)) \<Longrightarrow> efold f xs s = Inr (fold g xs s)"
  by (induction xs arbitrary: s) simp_all

text \<open>A loop that appends what its body computes is a map, whatever it started from.\<close>

lemma fold_snoc_conv:
  assumes "\<And>x acc. f x acc = acc @ g x"
  shows "fold f xs acc = acc @ concat (map g xs)"
  by (induction xs arbitrary: acc) (simp_all add: assms)

lemma efold_snoc_conv:
  assumes "\<And>x acc. f x acc = ebind (g x) (\<lambda>y. Inr (acc @ [y]))"
  shows "efold f xs acc = ebind (emap g xs) (\<lambda>ys. Inr (acc @ ys))"
proof (induction xs arbitrary: acc)
  case Nil
  show ?case by simp
next
  case (Cons x xs)
  have step: "efold f (x # xs) acc = ebind (g x) (\<lambda>y. efold f xs (acc @ [y]))"
    by (cases "g x") (simp_all add: assms [of x acc])
  show ?case
    unfolding step Cons.IH by (cases "g x"; cases "emap g xs") simp_all
qed

lemma emap_eq_Inr_iff: "emap f xs = Inr ys \<longleftrightarrow> list_all2 (\<lambda>x y. f x = Inr y) xs ys"
proof (induction xs arbitrary: ys)
  case Nil
  show ?case by auto
next
  case (Cons x xs)
  show ?case
    by (cases ys) (auto simp: ebind_eq_Inr_iff Cons.IH)
qed

lemma emap_length: "emap f xs = Inr ys \<Longrightarrow> length ys = length xs"
  by (simp add: emap_eq_Inr_iff list_all2_lengthD)

lemma emap_nth: "emap f xs = Inr ys \<Longrightarrow> i < length xs \<Longrightarrow> f (xs ! i) = Inr (ys ! i)"
  by (auto simp: emap_eq_Inr_iff dest: list_all2_nthD)

lemma emap_pure: "(\<And>x. x \<in> set xs \<Longrightarrow> f x = Inr (g x)) \<Longrightarrow> emap f xs = Inr (map g xs)"
  by (induction xs) simp_all

lemma emap_append:
  "emap f (xs @ ys) = ebind (emap f xs) (\<lambda>us. ebind (emap f ys) (\<lambda>vs. Inr (us @ vs)))"
proof (induction xs)
  case Nil
  show ?case by simp
next
  case (Cons x xs)
  show ?case
    by (cases "f x"; cases "emap f xs"; cases "emap f ys") (simp_all add: Cons.IH)
qed

lemma returns_emap_Cons: "returns (emap f (x # xs)) \<longleftrightarrow> returns (f x) \<and> returns (emap f xs)"
  by (cases "f x"; cases "emap f xs") simp_all

lemma returns_emap_iff: "returns (emap f xs) \<longleftrightarrow> (\<forall>x \<in> set xs. returns (f x))"
proof (induction xs)
  case Nil
  show ?case by simp
next
  case (Cons x xs)
  show ?case
    unfolding returns_emap_Cons Cons.IH by simp
qed

text \<open>The loop raises what its first failing element raises.\<close>

lemma emap_first_error:
  assumes "emap f xs = Inr us" and "f y = Inl e"
  shows "emap f (xs @ y # zs) = Inl e"
  using assms by (simp add: emap_append)

lemma emap_Inl_split:
  assumes "emap f xs = Inl e"
  shows "\<exists>us y zs. xs = us @ y # zs \<and> returns (emap f us) \<and> f y = Inl e"
  using assms
proof (induction xs)
  case Nil
  then show ?case by simp
next
  case (Cons x xs)
  show ?case
  proof (cases "f x")
    case (Inl e')
    with Cons.prems have "x # xs = [] @ x # xs \<and> returns (emap f []) \<and> f x = Inl e"
      by simp
    then show ?thesis by blast
  next
    case (Inr v)
    with Cons.prems have "emap f xs = Inl e"
      by (cases "emap f xs") simp_all
    then obtain us y zs where *: "xs = us @ y # zs" "returns (emap f us)" "f y = Inl e"
      using Cons.IH by blast
    from *(2) Inr have "returns (emap f (x # us))"
      by (simp add: returns_emap_Cons del: emap.simps)
    with * have "x # xs = (x # us) @ y # zs \<and> returns (emap f (x # us)) \<and> f y = Inl e"
      by simp
    then show ?thesis by blast
  qed
qed

lemma emap_eq_Inl_iff:
  "emap f xs = Inl e \<longleftrightarrow>
    (\<exists>us y zs. xs = us @ y # zs \<and> returns (emap f us) \<and> f y = Inl e)"
proof
  assume "emap f xs = Inl e"
  then show "\<exists>us y zs. xs = us @ y # zs \<and> returns (emap f us) \<and> f y = Inl e"
    by (rule emap_Inl_split)
next
  assume "\<exists>us y zs. xs = us @ y # zs \<and> returns (emap f us) \<and> f y = Inl e"
  then obtain us y zs vs where "xs = us @ y # zs" "emap f us = Inr vs" "f y = Inl e"
    by (auto simp: returns_iff)
  then show "emap f xs = Inl e"
    by (simp add: emap_first_error)
qed

section \<open>Lists\<close>

lemma filter_snoc_if: "filter P (xs @ [x]) = (if P x then filter P xs @ [x] else filter P xs)"
  by simp

lemma length_filter_split: "length (filter P xs) + length (filter (\<lambda>x. \<not> P x) xs) = length xs"
  by (induction xs) simp_all

lemma takeWhile_neq_notin: "x \<notin> set (takeWhile (\<lambda>y. y \<noteq> x) xs)"
  by (auto dest: set_takeWhileD)

lemma length_takeWhile_less: "x \<in> set xs \<Longrightarrow> length (takeWhile (\<lambda>y. y \<noteq> x) xs) < length xs"
  by (induction xs) auto

lemma dropWhile_id_hd: "xs \<noteq> [] \<Longrightarrow> \<not> P (hd xs) \<Longrightarrow> dropWhile P xs = xs"
  by (cases xs) simp_all

lemma concat_map_singleton: "concat (map (\<lambda>x. [f x]) xs) = map f xs"
  by (induction xs) simp_all

lemma concat_map_if_singleton:
  "concat (map (\<lambda>x. if P x then [f x] else []) xs) = map f (filter P xs)"
  by (induction xs) simp_all

end
