(* ===== verification/Py_Builtins.thy ===== *)
theory Py_Builtins
  imports Hack_Prelude
begin

text \<open>
  The Python builtins that \<^verbatim>\<open>src/hack-assemble.py\<close> calls, as executable functions
  on \<open>string\<close>: \<^verbatim>\<open>"".join(s.split())\<close>, \<^verbatim>\<open>s.find(t)\<close>, \<^verbatim>\<open>s.startswith(t)\<close>,
  \<^verbatim>\<open>s.isdigit()\<close>, slices \<^verbatim>\<open>s[a:b]\<close>, \<^verbatim>\<open>int(s)\<close>, \<^verbatim>\<open>format(i, "#0wb")\<close>,
  \<^verbatim>\<open>del xs[i]\<close>, \<^verbatim>\<open>sorted(xs, reverse=True)\<close>, \<^verbatim>\<open>d[k]\<close> and \<^verbatim>\<open>sep.join(xs)\<close>.

  A \<open>char\<close> stands for one code point below 256 of a Python 3 \<^verbatim>\<open>str\<close>; the character
  classes below are those of Python 3 on that range (so whitespace includes the
  separators \<open>0x1C\<close> to \<open>0x1F\<close>, \<open>0x85\<close> and \<open>0xA0\<close>, and \<^verbatim>\<open>isdigit\<close> accepts the
  superscript digits \<open>0xB2\<close>, \<open>0xB3\<close> and \<open>0xB9\<close>, which \<^verbatim>\<open>int\<close> rejects).
  Each builtin comes with the lemmas that replace it by list functions of the library.
\<close>

section \<open>Character classes\<close>

definition is_space :: "char \<Rightarrow> bool" where
  "is_space c \<longleftrightarrow> c \<in> set [CHR 0x09, CHR 0x0A, CHR 0x0B, CHR 0x0C, CHR 0x0D,
     CHR 0x1C, CHR 0x1D, CHR 0x1E, CHR 0x1F, CHR 0x20, CHR 0x85, CHR 0xA0]"

definition is_ascii_digit :: "char \<Rightarrow> bool" where
  "is_ascii_digit c \<longleftrightarrow> c \<in> set ''0123456789''"

definition is_digit_char :: "char \<Rightarrow> bool" where
  "is_digit_char c \<longleftrightarrow> is_ascii_digit c \<or> c \<in> set [CHR 0xB2, CHR 0xB3, CHR 0xB9]"

definition int_space :: "char \<Rightarrow> bool" where
  "int_space c \<longleftrightarrow> c \<in> set [CHR 0x09, CHR 0x0A, CHR 0x0B, CHR 0x0C, CHR 0x0D,
     CHR 0x20, CHR 0x85, CHR 0xA0]"

section \<open>Methods of \<^verbatim>\<open>str\<close>\<close>

definition remove_ws :: "string \<Rightarrow> string" where
  "remove_ws line = filter (\<lambda>c. \<not> is_space c) line"

definition py_startswith :: "string \<Rightarrow> string \<Rightarrow> bool" where
  "py_startswith s p = prefix p s"

definition py_isdigit :: "string \<Rightarrow> bool" where
  "py_isdigit s \<longleftrightarrow> s \<noteq> [] \<and> list_all is_digit_char s"

text \<open>\<^verbatim>\<open>s.find(p)\<close>: the least index at which \<open>p\<close> occurs in \<open>s\<close>, or \<open>-1\<close>.\<close>

fun find_from :: "string \<Rightarrow> string \<Rightarrow> int \<Rightarrow> int" where
  "find_from [] p i = (if p = [] then i else - 1)"
| "find_from (c # s) p i = (if prefix p (c # s) then i else find_from s p (i + 1))"

definition py_find :: "string \<Rightarrow> string \<Rightarrow> int" where
  "py_find s p = find_from s p 0"

text \<open>
  \<^verbatim>\<open>s[a:b]\<close> with either bound optional: a negative bound counts from the end, and
  both are clamped to the string.
\<close>

definition slice_bound :: "int \<Rightarrow> int \<Rightarrow> int" where
  "slice_bound n i = (if i < 0 then max 0 (n + i) else min i n)"

definition py_slice :: "'a list \<Rightarrow> int option \<Rightarrow> int option \<Rightarrow> 'a list" where
  "py_slice s a b =
     (let n = int (length s);
          lo = (case a of None \<Rightarrow> 0 | Some i \<Rightarrow> slice_bound n i);
          hi = (case b of None \<Rightarrow> n | Some j \<Rightarrow> slice_bound n j)
      in take (nat (hi - lo)) (drop (nat lo) s))"

fun py_join :: "string \<Rightarrow> string list \<Rightarrow> string" where
  "py_join sep [] = []"
| "py_join sep [x] = x"
| "py_join sep (x # y # r) = x @ sep @ py_join sep (y # r)"

section \<open>\<^verbatim>\<open>int(s)\<close>\<close>

text \<open>
  Base 10: whitespace around the literal is dropped, one sign is allowed, and the
  digits may be grouped by single underscores.  Anything else raises \<open>ValueError\<close>,
  and so does a literal of more than 4300 digits, leading zeros counted and sign,
  whitespace and underscores not: the default limit of CPython from version 3.11 on
  (\<^verbatim>\<open>sys.int_info.default_max_str_digits\<close>), which the script does not change.
\<close>

definition int_max_str_digits :: int where
  "int_max_str_digits = 4300"

fun valid_digits :: "string \<Rightarrow> bool" where
  "valid_digits [] = False"
| "valid_digits [c] = is_ascii_digit c"
| "valid_digits (c # d # r) =
     (is_ascii_digit c \<and> (if d = CHR ''_'' then valid_digits r else valid_digits (d # r)))"

definition digit_val :: "char \<Rightarrow> nat" where
  "digit_val c = of_char c - 48"

definition dec_value :: "string \<Rightarrow> nat" where
  "dec_value s = foldl (\<lambda>a c. 10 * a + digit_val c) 0 s"

definition int_strip :: "string \<Rightarrow> string" where
  "int_strip s = rev (dropWhile int_space (rev (dropWhile int_space s)))"

definition py_int :: "string \<Rightarrow> int result" where
  "py_int s =
     (let t = int_strip s;
          neg = prefix ''-'' t;
          body = (if neg \<or> prefix ''+'' t then tl t else t);
          digits = filter (\<lambda>c. c \<noteq> CHR ''_'') body
      in if valid_digits body \<and> int (length digits) \<le> int_max_str_digits
         then Inr ((if neg then - 1 else 1) * int (dec_value digits))
         else Inl (ValueError s))"

section \<open>\<^verbatim>\<open>format(i, "#0wb")\<close>\<close>

text \<open>
  The binary digits of \<open>\<bar>i\<bar>\<close> after the sign and the prefix \<^verbatim>\<open>0b\<close>, padded with
  zeros between prefix and digits up to the width \<open>w\<close>; never truncated.
\<close>

definition bit_char :: "nat \<Rightarrow> char" where
  "bit_char b = (if b = 0 then CHR ''0'' else CHR ''1'')"

fun bin_digits :: "nat \<Rightarrow> string" where
  "bin_digits n = (if n < 2 then [bit_char n] else bin_digits (n div 2) @ [bit_char (n mod 2)])"

declare bin_digits.simps [simp del]

definition py_format_b :: "int \<Rightarrow> nat \<Rightarrow> string" where
  "py_format_b i w =
     (let ds = bin_digits (nat \<bar>i\<bar>);
          pre = (if i < 0 then ''-0b'' else ''0b'')
      in pre @ replicate (w - length pre - length ds) (CHR ''0'') @ ds)"

section \<open>Lists and dictionaries\<close>

definition py_del :: "'a list \<Rightarrow> nat \<Rightarrow> 'a list result" where
  "py_del xs i = (if i < length xs then Inr (take i xs @ drop (Suc i) xs) else Inl IndexError)"

definition py_sorted_reverse :: "nat list \<Rightarrow> nat list" where
  "py_sorted_reverse xs = rev (sort xs)"

definition py_getitem :: "(string option \<rightharpoonup> 'v) \<Rightarrow> string option \<Rightarrow> 'v result" where
  "py_getitem d k = (case d k of None \<Rightarrow> Inl (KeyError k) | Some v \<Rightarrow> Inr v)"

text \<open>
  The values of the dictionary \<^verbatim>\<open>variables\<close> are of two Python types: the predefined
  symbols are bound to strings, the allocated variables to integers.  \<^verbatim>\<open>int(v)\<close>
  accepts both.
\<close>

datatype pyval = PStr string | PInt int

fun py_int_of :: "pyval \<Rightarrow> int result" where
  "py_int_of (PStr s) = py_int s"
| "py_int_of (PInt i) = Inr i"

text \<open>
  Reference definitions used to state what the builtins compute: the first occurrence
  of a substring as an optional index, the number a string of binary digits denotes,
  and the decimal numeral of a natural number, which \<^verbatim>\<open>int\<close> reads back.
\<close>

primrec first_occ :: "string \<Rightarrow> string \<Rightarrow> nat option" where
  "first_occ [] p = (if p = [] then Some 0 else None)"
| "first_occ (c # s) p = (if prefix p (c # s) then Some 0 else map_option Suc (first_occ s p))"

definition bin_value :: "string \<Rightarrow> nat" where
  "bin_value s = foldl (\<lambda>a c. 2 * a + (if c = CHR ''1'' then 1 else 0)) 0 s"

definition is_bit :: "char \<Rightarrow> bool" where
  "is_bit c \<longleftrightarrow> c = CHR ''0'' \<or> c = CHR ''1''"

definition dec_char :: "nat \<Rightarrow> char" where
  "dec_char d = ''0123456789'' ! d"

fun dec_digits :: "nat \<Rightarrow> string" where
  "dec_digits n = (if n < 10 then [dec_char n] else dec_digits (n div 10) @ [dec_char (n mod 10)])"

declare dec_digits.simps [simp del]

text \<open>\<^verbatim>\<open>text.split("\n")\<close>, the inverse of joining lines that hold no line break.\<close>

fun split_lines :: "string \<Rightarrow> string list" where
  "split_lines [] = [[]]"
| "split_lines (c # s) =
     (if c = CHR ''\<newline>'' then [] # split_lines s
      else (c # hd (split_lines s)) # tl (split_lines s))"

text \<open>
  The two calls of the script that touch the outside: \<^verbatim>\<open>sys.stdin.readlines()\<close> as a
  function of the text that standard input holds (every line keeps its line break, a
  last line without one is a line too, and only the line feed ends a line), and
  \<^verbatim>\<open>print\<close> as the text it writes.
\<close>

fun py_readlines :: "string \<Rightarrow> string list" where
  "py_readlines [] = []"
| "py_readlines (c # s) =
     (if c = CHR ''\<newline>'' then [c] # py_readlines s
      else (case py_readlines s of [] \<Rightarrow> [[c]] | l # ls \<Rightarrow> (c # l) # ls))"

definition py_print :: "string \<Rightarrow> string" where
  "py_print s = s @ ''\<newline>''"

lemmas [py_defs] = remove_ws_def py_startswith_def py_isdigit_def py_find_def py_slice_def
  slice_bound_def py_int_def py_format_b_def py_del_def py_sorted_reverse_def py_getitem_def
  is_space_def is_ascii_digit_def is_digit_char_def int_space_def int_strip_def
  digit_val_def dec_value_def bit_char_def int_max_str_digits_def

section \<open>Facts about characters and whitespace\<close>

lemma is_ascii_digit_digit_char [simp]: "is_ascii_digit c \<Longrightarrow> is_digit_char c"
  by (simp add: is_digit_char_def)

lemma digit_char_not_space [simp]: "is_digit_char c \<Longrightarrow> \<not> int_space c"
  by (auto simp: is_digit_char_def is_ascii_digit_def int_space_def)

lemma digit_char_not_sign [simp]:
  "is_digit_char c \<Longrightarrow> c \<noteq> CHR ''-'' \<and> c \<noteq> CHR ''+'' \<and> c \<noteq> CHR ''_''"
  by (auto simp: is_digit_char_def is_ascii_digit_def)

lemma int_space_is_space: "int_space c \<Longrightarrow> is_space c"
  by (auto simp: int_space_def is_space_def)

lemma remove_ws_no_space: "c \<in> set (remove_ws s) \<Longrightarrow> \<not> is_space c"
  by (simp add: remove_ws_def)

lemma remove_ws_idem [simp]: "remove_ws (remove_ws s) = remove_ws s"
  by (simp add: remove_ws_def)

lemma remove_ws_append [simp]: "remove_ws (s @ t) = remove_ws s @ remove_ws t"
  by (simp add: remove_ws_def)

lemma remove_ws_id: "(\<And>c. c \<in> set s \<Longrightarrow> \<not> is_space c) \<Longrightarrow> remove_ws s = s"
  by (simp add: remove_ws_def filter_id_conv)

lemma remove_ws_subseq: "subseq (remove_ws s) s"
  by (simp add: remove_ws_def)

lemma py_startswith_Cons:
  "py_startswith s [c] \<longleftrightarrow> (case s of [] \<Rightarrow> False | x # _ \<Rightarrow> c = x)"
  by (cases s) (simp_all add: py_startswith_def)

section \<open>Facts about \<^verbatim>\<open>find\<close>\<close>

lemma find_from_first_occ:
  "find_from s p i = (case first_occ s p of None \<Rightarrow> - 1 | Some k \<Rightarrow> i + int k)"
  by (induction s arbitrary: i) (auto split: option.splits)

lemma py_find_first_occ:
  "py_find s p = (case first_occ s p of None \<Rightarrow> - 1 | Some k \<Rightarrow> int k)"
  by (simp add: py_find_def find_from_first_occ split: option.splits)

lemma first_occ_Some:
  "first_occ s p = Some k \<Longrightarrow>
     k \<le> length s \<and> prefix p (drop k s) \<and> (\<forall>j<k. \<not> prefix p (drop j s))"
proof (induction s arbitrary: k)
  case Nil
  then show ?case by (simp split: if_splits)
next
  case (Cons c s)
  show ?case
  proof (cases "prefix p (c # s)")
    case True
    with Cons.prems show ?thesis by simp
  next
    case False
    with Cons.prems obtain k' where k': "first_occ s p = Some k'" "k = Suc k'"
      by auto
    from Cons.IH [OF k'(1)] False k'(2) show ?thesis
      by (auto simp: less_Suc_eq_0_disj)
  qed
qed

lemma first_occ_None:
  "first_occ s p = None \<Longrightarrow> k \<le> length s \<Longrightarrow> \<not> prefix p (drop k s)"
proof (induction s arbitrary: k)
  case Nil
  then show ?case by (simp split: if_splits)
next
  case (Cons c s)
  then show ?case
    by (cases k) (auto split: if_splits)
qed

lemma first_occ_char:
  "first_occ s [c] = (if c \<in> set s then Some (length (takeWhile (\<lambda>x. x \<noteq> c) s)) else None)"
  by (induction s) auto

lemma py_find_char:
  "py_find s [c] = (if c \<in> set s then int (length (takeWhile (\<lambda>x. x \<noteq> c) s)) else - 1)"
  by (simp add: py_find_first_occ first_occ_char)

lemma py_find_range: "py_find s p = - 1 \<or> (0 \<le> py_find s p \<and> py_find s p \<le> int (length s))"
  by (auto simp: py_find_first_occ split: option.splits dest: first_occ_Some)

lemma py_find_absent: "c \<notin> set s \<Longrightarrow> py_find s [c] = - 1"
  by (simp add: py_find_char)

lemma py_find_append_char:
  "c \<notin> set u \<Longrightarrow> py_find (u @ c # v) [c] = int (length u)"
proof -
  assume "c \<notin> set u"
  then have "takeWhile (\<lambda>x. x \<noteq> c) (u @ c # v) = u"
    by (induction u) auto
  then show ?thesis
    by (simp add: py_find_char)
qed

text \<open>Cutting a string at the first occurrence of \<open>p\<close> leaves no occurrence of \<open>p\<close>.\<close>

lemma first_occ_take_None:
  assumes "first_occ s p = Some k" and "p \<noteq> []"
  shows "first_occ (take k s) p = None"
proof (cases "first_occ (take k s) p")
  case None
  then show ?thesis .
next
  case (Some j)
  then have j: "j \<le> length (take k s)" "prefix p (drop j (take k s))"
    using first_occ_Some by blast+
  from j(2) assms(2) have "drop j (take k s) \<noteq> []"
    by auto
  then have "j < k"
    by (cases "j < k") simp_all
  moreover have "prefix (drop j (take k s)) (drop j s)"
    by (metis drop_take take_is_prefix)
  with j(2) have "prefix p (drop j s)"
    by (rule prefix_order.trans)
  ultimately show ?thesis
    using first_occ_Some [OF assms(1)] by blast
qed

section \<open>Facts about slices\<close>

lemma py_slice_take [simp]: "py_slice s (Some 0) (Some (int k)) = take k s"
  by (simp add: py_slice_def slice_bound_def min_def)

lemma py_slice_drop [simp]: "py_slice s (Some (int k)) None = drop k s"
  by (simp add: py_slice_def slice_bound_def min_def)

lemma py_slice_between [simp]:
  "py_slice s (Some (int a)) (Some (int b)) = take (b - a) (drop a s)"
  by (auto simp: py_slice_def slice_bound_def min_def Let_def nat_diff_distrib')

lemma py_slice_drop_Suc [simp]: "py_slice s (Some (int k + 1)) None = drop (Suc k) s"
  using py_slice_drop [of s "Suc k"] by (simp add: add.commute)

lemma py_slice_between_Suc [simp]:
  "py_slice s (Some (int a + 1)) (Some (int b)) = take (b - Suc a) (drop (Suc a) s)"
  using py_slice_between [of s "Suc a" b] by (simp add: add.commute)

lemma py_slice_tail [simp]: "py_slice s (Some 1) None = tl s"
  using py_slice_drop [of s 1] by (simp add: drop_Suc)

lemma py_slice_inner [simp]: "py_slice s (Some 1) (Some (- 1)) = butlast (tl s)"
proof -
  have "nat (int n - 1) = n - 1" for n
    by arith
  then show ?thesis
    by (cases s) (auto simp: py_slice_def slice_bound_def butlast_conv_take max_def)
qed

lemma py_slice_from_2 [simp]: "py_slice s (Some 2) None = drop 2 s"
  using py_slice_drop [of s 2] by simp

section \<open>Facts about \<^verbatim>\<open>int\<close>\<close>

lemma valid_digits_iff:
  "CHR ''_'' \<notin> set s \<Longrightarrow> valid_digits s \<longleftrightarrow> s \<noteq> [] \<and> list_all is_ascii_digit s"
  by (induction s rule: valid_digits.induct) auto

lemma int_strip_id:
  assumes "s \<noteq> []" and "\<not> int_space (hd s)" and "\<not> int_space (last s)"
  shows "int_strip s = s"
proof -
  have "dropWhile int_space s = s"
    using assms(1,2) by (rule dropWhile_id_hd)
  moreover have "dropWhile int_space (rev s) = rev s"
    using assms(1,3) by (intro dropWhile_id_hd) (simp_all add: hd_rev)
  ultimately show ?thesis
    by (simp add: int_strip_def)
qed

lemma py_isdigit_chars: "py_isdigit s \<Longrightarrow> c \<in> set s \<Longrightarrow> is_digit_char c"
  by (simp add: py_isdigit_def list_all_iff)

text \<open>
  On a string that \<^verbatim>\<open>isdigit\<close> accepts, \<^verbatim>\<open>int\<close> returns its decimal value when all
  its characters are ASCII digits and raises otherwise.
\<close>

lemma py_int_isdigit:
  assumes "py_isdigit s"
  shows "py_int s =
    (if list_all is_ascii_digit s \<and> int (length s) \<le> int_max_str_digits
     then Inr (int (dec_value s)) else Inl (ValueError s))"
proof -
  from assms have ne: "s \<noteq> []" and dig: "\<And>c. c \<in> set s \<Longrightarrow> is_digit_char c"
    by (auto simp: py_isdigit_chars py_isdigit_def)
  from ne dig have "int_strip s = s"
    by (intro int_strip_id) simp_all
  moreover from ne dig have "is_digit_char (hd s)"
    by simp
  then have "hd s \<noteq> CHR ''-''" "hd s \<noteq> CHR ''+''"
    using digit_char_not_sign by blast+
  with ne have "\<not> prefix ''-'' s" "\<not> prefix ''+'' s"
    by (cases s; simp)+
  moreover from dig have us: "CHR ''_'' \<notin> set s"
    using digit_char_not_sign by blast
  then have "filter (\<lambda>c. c \<noteq> CHR ''_'') s = s"
    by (auto simp: filter_id_conv)
  ultimately show ?thesis
    using ne by (simp add: py_int_def valid_digits_iff [OF us])
qed

lemma py_int_digits:
  "s \<noteq> [] \<Longrightarrow> list_all is_ascii_digit s \<Longrightarrow> int (length s) \<le> int_max_str_digits \<Longrightarrow>
     py_int s = Inr (int (dec_value s))"
  by (simp add: py_int_isdigit py_isdigit_def list_all_iff)

lemma py_int_isdigit_nonneg: "py_isdigit s \<Longrightarrow> py_int s = Inr i \<Longrightarrow> 0 \<le> i"
  by (auto simp: py_int_isdigit split: if_splits)

text \<open>The decimal numeral of a number is accepted by \<^verbatim>\<open>isdigit\<close> and read back by \<^verbatim>\<open>int\<close>.\<close>

lemma less_ten_cases: "d < 10 \<Longrightarrow> d \<in> {0, 1, 2, 3, 4, 5, 6, 7, 8, 9 :: nat}"
  by auto

lemma is_ascii_digit_dec_char [simp]: "d < 10 \<Longrightarrow> is_ascii_digit (dec_char d)"
  by (drule less_ten_cases) (auto simp: is_ascii_digit_def dec_char_def)

lemma digit_val_dec_char [simp]: "d < 10 \<Longrightarrow> digit_val (dec_char d) = d"
  by (drule less_ten_cases) (auto simp: digit_val_def dec_char_def)

lemma dec_digits_nonempty [simp]: "dec_digits n \<noteq> []"
  by (subst dec_digits.simps) simp

lemma dec_digits_ascii: "list_all is_ascii_digit (dec_digits n)"
  by (induction n rule: dec_digits.induct) (subst dec_digits.simps, simp)

lemma dec_value_snoc: "dec_value (s @ [c]) = 10 * dec_value s + digit_val c"
  by (simp add: dec_value_def)

lemma dec_value_dec_digits: "dec_value (dec_digits n) = n"
proof (induction n rule: dec_digits.induct)
  case (1 n)
  show ?case
  proof (cases "n < 10")
    case True
    then show ?thesis
      by (subst dec_digits.simps) (simp add: dec_value_def)
  next
    case False
    with "1.IH" have "dec_value (dec_digits (n div 10)) = n div 10"
      by simp
    with False show ?thesis
      by (subst dec_digits.simps) (simp add: dec_value_snoc)
  qed
qed

lemma py_isdigit_dec_digits [simp]: "py_isdigit (dec_digits n)"
  using dec_digits_ascii [of n] by (simp add: py_isdigit_def list_all_iff)

lemma length_dec_digits_le: "n < 10 ^ k \<Longrightarrow> 0 < k \<Longrightarrow> length (dec_digits n) \<le> k"
proof (induction n arbitrary: k rule: dec_digits.induct)
  case (1 n)
  show ?case
  proof (cases "n < 10")
    case True
    with "1.prems" show ?thesis
      by (subst dec_digits.simps) simp
  next
    case False
    with "1.prems" obtain k' where k': "k = Suc k'" "0 < k'"
      by (cases k; cases "k - 1") auto
    with "1.prems" have "n div 10 < 10 ^ k'"
      by auto
    with "1.IH" False k' have "length (dec_digits (n div 10)) \<le> k'"
      by simp
    with False k' show ?thesis
      by (subst dec_digits.simps) simp
  qed
qed

text \<open>The numerals of the addresses of the machine are far below the limit of \<^verbatim>\<open>int\<close>.\<close>

lemma py_int_dec_digits: "n < 10 ^ 5 \<Longrightarrow> py_int (dec_digits n) = Inr (int n)"
  using length_dec_digits_le [of n 5]
  by (simp add: py_int_digits dec_digits_ascii dec_value_dec_digits int_max_str_digits_def)

section \<open>Facts about binary digits\<close>

lemma is_bit_bit_char [simp]: "is_bit (bit_char b)"
  by (simp add: is_bit_def bit_char_def)

lemma bin_digits_bits: "list_all is_bit (bin_digits n)"
  by (induction n rule: bin_digits.induct) (subst bin_digits.simps, simp)

lemma bin_digits_nonempty [simp]: "bin_digits n \<noteq> []"
  by (subst bin_digits.simps) simp

lemma bin_value_snoc:
  "bin_value (s @ [c]) = 2 * bin_value s + (if c = CHR ''1'' then 1 else 0)"
  by (simp add: bin_value_def)

lemma bin_value_append: "bin_value (s @ t) = bin_value s * 2 ^ length t + bin_value t"
proof (induction t rule: rev_induct)
  case Nil
  show ?case by (simp add: bin_value_def)
next
  case (snoc c t)
  have "bin_value (s @ t @ [c]) = 2 * bin_value (s @ t) + (if c = CHR ''1'' then 1 else 0)"
    using bin_value_snoc [of "s @ t" c] by simp
  then show ?case
    by (simp add: snoc.IH bin_value_snoc algebra_simps)
qed

lemma bin_value_zeros [simp]: "bin_value (replicate k (CHR ''0'')) = 0"
proof (induction k)
  case 0
  show ?case by (simp add: bin_value_def)
next
  case (Suc k)
  have "replicate (Suc k) (CHR ''0'') = replicate k (CHR ''0'') @ [CHR ''0'']"
    by (simp add: replicate_append_same)
  then show ?case
    by (simp only: bin_value_snoc Suc.IH) simp
qed

lemma bin_value_bit_char: "b < 2 \<Longrightarrow> bin_value [bit_char b] = b"
  by (auto simp: bin_value_def bit_char_def)

lemma bin_value_bin_digits: "bin_value (bin_digits n) = n"
proof (induction n rule: bin_digits.induct)
  case (1 n)
  show ?case
  proof (cases "n < 2")
    case True
    then show ?thesis
      by (subst bin_digits.simps) (simp add: bin_value_bit_char)
  next
    case False
    with "1.IH" have "bin_value (bin_digits (n div 2)) = n div 2"
      by simp
    with False show ?thesis
      by (subst bin_digits.simps) (simp add: bin_value_append bin_value_bit_char)
  qed
qed

lemma length_bin_digits_le: "n < 2 ^ k \<Longrightarrow> 0 < k \<Longrightarrow> length (bin_digits n) \<le> k"
proof (induction n arbitrary: k rule: bin_digits.induct)
  case (1 n)
  show ?case
  proof (cases "n < 2")
    case True
    with "1.prems" show ?thesis
      by (subst bin_digits.simps) simp
  next
    case False
    with "1.prems" obtain k' where k': "k = Suc k'" "0 < k'"
      by (cases k; cases "k - 1") auto
    with "1.prems" have "n div 2 < 2 ^ k'"
      by auto
    with "1.IH" False k' have "length (bin_digits (n div 2)) \<le> k'"
      by simp
    with False k' show ?thesis
      by (subst bin_digits.simps) simp
  qed
qed

lemma length_bin_digits_gt: "2 ^ k \<le> n \<Longrightarrow> k < length (bin_digits n)"
proof (induction n arbitrary: k rule: bin_digits.induct)
  case (1 n)
  show ?case
  proof (cases k)
    case 0
    then show ?thesis
      by (cases "bin_digits n") simp_all
  next
    case (Suc k')
    with "1.prems" have n: "\<not> n < 2" "2 ^ k' \<le> n div 2"
      by (auto simp: not_less intro: order_trans [of 2 "2 * 2 ^ k'"])
    with "1.IH" have "k' < length (bin_digits (n div 2))"
      by simp
    with n Suc show ?thesis
      by (subst bin_digits.simps) simp
  qed
qed

lemma py_format_b_nonneg:
  "0 \<le> i \<Longrightarrow> py_format_b i w =
     ''0b'' @ replicate (w - 2 - length (bin_digits (nat i))) (CHR ''0'') @ bin_digits (nat i)"
  by (simp add: py_format_b_def Let_def)

section \<open>Facts about lists and dictionaries\<close>

lemma py_del_last [simp]: "py_del (xs @ [x]) (length xs) = Inr xs"
  by (simp add: py_del_def)

lemma py_del_append:
  "i < length xs \<Longrightarrow> py_del (xs @ ys) i = ebind (py_del xs i) (\<lambda>zs. Inr (zs @ ys))"
  by (simp add: py_del_def)

lemma py_del_returns: "returns (py_del xs i) \<longleftrightarrow> i < length xs"
  by (simp add: py_del_def)

lemma py_sorted_reverse_sorted: "sorted xs \<Longrightarrow> py_sorted_reverse xs = rev xs"
  by (simp add: py_sorted_reverse_def sorted_sort_id)

lemma py_getitem_Some [simp]: "d k = Some v \<Longrightarrow> py_getitem d k = Inr v"
  by (simp add: py_getitem_def)

lemma py_getitem_None [simp]: "d k = None \<Longrightarrow> py_getitem d k = Inl (KeyError k)"
  by (simp add: py_getitem_def)

lemma py_getitem_returns: "returns (py_getitem d k) \<longleftrightarrow> k \<in> dom d"
  by (auto simp: py_getitem_def split: option.splits)

lemma py_join_lines_length:
  "length (py_join sep xs) = sum_list (map length xs) + length sep * (length xs - 1)"
  by (induction sep xs rule: py_join.induct) simp_all

section \<open>Facts about lines of text\<close>

lemma split_lines_nonempty [simp]: "split_lines s \<noteq> []"
  by (induction s) simp_all

lemma split_lines_line:
  "CHR ''\<newline>'' \<notin> set l \<Longrightarrow> split_lines (l @ s) = (l @ hd (split_lines s)) # tl (split_lines s)"
  by (induction l) auto

lemma split_lines_single: "CHR ''\<newline>'' \<notin> set l \<Longrightarrow> split_lines l = [l]"
  using split_lines_line [of l "[]"] by simp

lemma split_lines_join:
  assumes "xs \<noteq> []" and "\<forall>l \<in> set xs. CHR ''\<newline>'' \<notin> set l"
  shows "split_lines (py_join ''\<newline>'' xs) = xs"
  using assms
proof (induction xs rule: induct_list012)
  case 1
  then show ?case by simp
next
  case (2 x)
  then show ?case by (simp add: split_lines_single)
next
  case (3 x y r)
  then have "split_lines (py_join ''\<newline>'' (y # r)) = y # r"
    by simp
  moreover from 3 have "CHR ''\<newline>'' \<notin> set x"
    by simp
  then have "split_lines (x @ CHR ''\<newline>'' # py_join ''\<newline>'' (y # r)) =
      (x @ hd (split_lines (CHR ''\<newline>'' # py_join ''\<newline>'' (y # r)))) #
        tl (split_lines (CHR ''\<newline>'' # py_join ''\<newline>'' (y # r)))"
    by (rule split_lines_line)
  ultimately show ?case
    by simp
qed

lemma split_lines_line_break: "split_lines (s @ ''\<newline>'') = split_lines s @ [[]]"
  by (induction s) (simp_all add: hd_append)

lemma not_is_bit_newline [simp]: "\<not> is_bit (CHR ''\<newline>'')"
  by (simp add: is_bit_def)

lemma is_bit_not_newline: "list_all is_bit s \<Longrightarrow> CHR ''\<newline>'' \<notin> set s"
  using not_is_bit_newline unfolding list_all_iff by blast

lemma concat_py_readlines [simp]: "concat (py_readlines t) = t"
  by (induction t) (auto split: list.splits)

lemma py_readlines_nonempty: "l \<in> set (py_readlines t) \<Longrightarrow> l \<noteq> []"
  by (induction t arbitrary: l) (auto split: if_splits list.splits)

lemma py_readlines_eq_Nil [simp]: "py_readlines t = [] \<longleftrightarrow> t = []"
  by (cases t) (auto split: list.splits)

lemma py_readlines_line:
  "CHR ''\<newline>'' \<notin> set l \<Longrightarrow>
     py_readlines (l @ CHR ''\<newline>'' # s) = (l @ ''\<newline>'') # py_readlines s"
  by (induction l) auto

lemma py_readlines_last:
  "CHR ''\<newline>'' \<notin> set l \<Longrightarrow> l \<noteq> [] \<Longrightarrow> py_readlines l = [l]"
proof (induction l)
  case Nil
  then show ?case by simp
next
  case (Cons c l)
  then show ?case
    by (cases "l = []") auto
qed

lemma py_readlines_inner_line:
  "py_readlines t = l # ls \<Longrightarrow> ls \<noteq> [] \<Longrightarrow> CHR ''\<newline>'' \<in> set l"
  by (induction t arbitrary: l ls) (auto split: if_splits list.splits)

lemma py_readlines_join:
  assumes "xs \<noteq> []" and "\<forall>l \<in> set xs. CHR ''\<newline>'' \<notin> set l"
  shows "py_readlines (py_print (py_join ''\<newline>'' xs)) = map (\<lambda>l. l @ ''\<newline>'') xs"
  using assms
proof (induction xs rule: induct_list012)
  case 1
  then show ?case by simp
next
  case (2 x)
  then show ?case
    using py_readlines_line [of x "[]"] by (simp add: py_print_def)
next
  case (3 x y r)
  then have "py_readlines (py_print (py_join ''\<newline>'' (y # r))) = map (\<lambda>l. l @ ''\<newline>'') (y # r)"
    by simp
  moreover from 3 have "CHR ''\<newline>'' \<notin> set x"
    by simp
  then have "py_readlines (x @ CHR ''\<newline>'' # py_print (py_join ''\<newline>'' (y # r))) =
      (x @ ''\<newline>'') # py_readlines (py_print (py_join ''\<newline>'' (y # r)))"
    by (rule py_readlines_line)
  ultimately show ?case
    by (simp add: py_print_def)
qed

text \<open>Filtering characters other than the line break commutes with reading lines.\<close>

lemma py_readlines_filter:
  assumes "P (CHR ''\<newline>'')"
  shows "py_readlines (filter P t) = filter (\<lambda>l. l \<noteq> []) (map (filter P) (py_readlines t))"
proof (induction t)
  case Nil
  show ?case by simp
next
  case (Cons c t)
  show ?case
  proof (cases "c = CHR ''\<newline>''")
    case True
    with assms Cons.IH show ?thesis
      by simp
  next
    case False
    show ?thesis
    proof (cases "py_readlines t")
      case Nil
      with False show ?thesis
        by simp
    next
      case (Cons l ls)
      have "filter P l \<noteq> []" if "ls \<noteq> []"
        using py_readlines_inner_line [OF Cons that] assms by (auto simp: filter_empty_conv)
      with False Cons Cons.IH show ?thesis
        by (cases "P c"; cases "ls = []") (auto split: list.splits)
    qed
  qed
qed

lemma remove_ws_filter:
  "(\<And>c. \<not> is_space c \<Longrightarrow> P c) \<Longrightarrow> remove_ws (filter P l) = remove_ws l"
  by (induction l) (auto simp: remove_ws_def)

end
