(* ===== verification/Hack_Tables.thy ===== *)
theory Hack_Tables
  imports Py_Builtins
begin

text \<open>
  The four class-level dictionaries of \<^verbatim>\<open>Assembler\<close> (lines 8 to 37 of
  \<^verbatim>\<open>src/hack-assemble.py\<close>), each as the association list of its literal, in the
  order of the source; a lookup is \<open>map_of\<close> of the list.  The key \<^verbatim>\<open>None\<close> of the
  source is \<open>None\<close>, a string key \<open>s\<close> is \<open>Some s\<close>.  The lemmas say that no literal
  repeats a key, that every code has the width the instruction format needs, and what
  the predefined symbols denote.
\<close>

section \<open>The tables\<close>

definition comp_table :: "(string option \<times> string) list" where
  "comp_table =
    [(Some ''0'', ''0101010''), (Some ''1'', ''0111111''), (Some ''-1'', ''0111010''),
     (Some ''D'', ''0001100''), (Some ''A'', ''0110000''), (Some ''M'', ''1110000''),
     (Some ''!D'', ''0001101''), (Some ''!A'', ''0110001''), (Some ''!M'', ''1110001''),
     (Some ''-D'', ''0001111''), (Some ''-A'', ''0110011''), (Some ''-M'', ''1110011''),
     (Some ''D+1'', ''0011111''), (Some ''A+1'', ''0110111''), (Some ''M+1'', ''1110111''),
     (Some ''D-1'', ''0001110''), (Some ''A-1'', ''0110010''), (Some ''M-1'', ''1110010''),
     (Some ''D+A'', ''0000010''), (Some ''D+M'', ''1000010''), (Some ''D-A'', ''0010011''),
     (Some ''D-M'', ''1010011''), (Some ''A-D'', ''0000111''), (Some ''M-D'', ''1000111''),
     (Some ''D&A'', ''0000000''), (Some ''D&M'', ''1000000''), (Some ''D|A'', ''0010101''),
     (Some ''D|M'', ''1010101''), (None, ''0000000'')]"

definition jump_table :: "(string option \<times> string) list" where
  "jump_table =
    [(None, ''000''), (Some ''JGT'', ''001''), (Some ''JEQ'', ''010''), (Some ''JGE'', ''011''),
     (Some ''JLT'', ''100''), (Some ''JNE'', ''101''), (Some ''JLE'', ''110''), (Some ''JMP'', ''111'')]"

definition dest_table :: "(string option \<times> string) list" where
  "dest_table =
    [(None, ''000''), (Some ''M'', ''001''), (Some ''D'', ''010''), (Some ''MD'', ''011''),
     (Some ''A'', ''100''), (Some ''AM'', ''101''), (Some ''AD'', ''110''), (Some ''ADM'', ''111'')]"

definition predefined_symbols :: "(string \<times> pyval) list" where
  "predefined_symbols =
    [(''R0'', PStr ''0''), (''R1'', PStr ''1''), (''R2'', PStr ''2''),
     (''R3'', PStr ''3''), (''R4'', PStr ''4''), (''R5'', PStr ''5''),
     (''R6'', PStr ''6''), (''R7'', PStr ''7''), (''R8'', PStr ''8''),
     (''R9'', PStr ''9''), (''R10'', PStr ''10''), (''R11'', PStr ''11''),
     (''R12'', PStr ''12''), (''R13'', PStr ''13''), (''R14'', PStr ''14''),
     (''R15'', PStr ''15''), (''SCREEN'', PStr ''16384''), (''KBD'', PStr ''24576''),
     (''SP'', PStr ''0''), (''LCL'', PStr ''1''), (''ARG'', PStr ''2''),
     (''THIS'', PStr ''3''), (''THAT'', PStr ''4'')]"

lemmas [table_defs] = comp_table_def jump_table_def dest_table_def predefined_symbols_def

text \<open>What a well-formed code is: \<open>n\<close> characters, each \<^verbatim>\<open>0\<close> or \<^verbatim>\<open>1\<close>.\<close>

definition bits_of_width :: "nat \<Rightarrow> string \<Rightarrow> bool" where
  "bits_of_width n s \<longleftrightarrow> length s = n \<and> list_all is_bit s"

section \<open>Facts about the tables\<close>

lemma distinct_comp_keys: "distinct (map fst comp_table)"
  by (simp add: comp_table_def)

lemma distinct_jump_keys: "distinct (map fst jump_table)"
  by (simp add: jump_table_def)

lemma distinct_dest_keys: "distinct (map fst dest_table)"
  by (simp add: dest_table_def)

lemma distinct_predefined_keys: "distinct (map fst predefined_symbols)"
  by (simp add: predefined_symbols_def)

lemma comp_table_all: "list_all (\<lambda>(k, v). bits_of_width 7 v) comp_table"
  by (simp add: comp_table_def bits_of_width_def is_bit_def)

lemma jump_table_all: "list_all (\<lambda>(k, v). bits_of_width 3 v) jump_table"
  by (simp add: jump_table_def bits_of_width_def is_bit_def)

lemma dest_table_all: "list_all (\<lambda>(k, v). bits_of_width 3 v) dest_table"
  by (simp add: dest_table_def bits_of_width_def is_bit_def)

lemma map_of_list_all: "list_all (\<lambda>(k, v). P v) xs \<Longrightarrow> map_of xs k = Some v \<Longrightarrow> P v"
  by (auto simp: list_all_iff dest: map_of_SomeD)

lemma comp_table_width: "map_of comp_table k = Some v \<Longrightarrow> bits_of_width 7 v"
  using comp_table_all by (rule map_of_list_all)

lemma jump_table_width: "map_of jump_table k = Some v \<Longrightarrow> bits_of_width 3 v"
  using jump_table_all by (rule map_of_list_all)

lemma dest_table_width: "map_of dest_table k = Some v \<Longrightarrow> bits_of_width 3 v"
  using dest_table_all by (rule map_of_list_all)

lemma dest_table_None [simp]: "map_of dest_table None = Some ''000''"
  by (simp add: dest_table_def)

lemma jump_table_None [simp]: "map_of jump_table None = Some ''000''"
  by (simp add: jump_table_def)

lemma comp_table_None [simp]: "map_of comp_table None = Some ''0000000''"
  by (simp add: comp_table_def)

lemma bits_of_width_append:
  "bits_of_width m s \<Longrightarrow> bits_of_width n t \<Longrightarrow> bits_of_width (m + n) (s @ t)"
  by (simp add: bits_of_width_def)

text \<open>
  Every predefined symbol is bound to a string that \<^verbatim>\<open>int\<close> reads as an address of
  the machine, below \<open>2\<^sup>1\<^sup>5\<close>.
\<close>

lemma predefined_symbols_all:
  "list_all (\<lambda>(k, v). \<exists>n. py_int_of v = Inr n \<and> 0 \<le> n \<and> n < 32768) predefined_symbols"
  by (simp add: predefined_symbols_def py_defs)

lemma predefined_symbols_value:
  "map_of predefined_symbols k = Some v \<Longrightarrow> \<exists>n. py_int_of v = Inr n \<and> 0 \<le> n \<and> n < 32768"
  using predefined_symbols_all by (rule map_of_list_all)

end
