(* ===== verification/Asm_State.thy ===== *)
theory Asm_State
  imports Hack_Tables
begin

text \<open>
  The state of one \<^verbatim>\<open>Assembler\<close> object and the intermediate instructions it holds.
  The five attributes that \<^verbatim>\<open>__init__\<close> creates (lines 44 to 49 of
  \<^verbatim>\<open>src/hack-assemble.py\<close>) are the fields of the record \<open>assembler\<close>; every method is
  a function from this record to the record it leaves behind, or to the exception it
  raises.  The dictionaries that \<^verbatim>\<open>build_intermediary\<close> appends (lines 136, 144, 154,
  164 and 174) are the two constructors of \<open>instruction\<close>.
\<close>

datatype instruction =
    A_instruction int
  | C_instruction "string option" string "string option"

record assembler =
  assembly_code :: "string list"
  intermediary_code :: "instruction list"
  machine_code :: "string list"
  labels :: "string \<rightharpoonup> int"
  variables :: "string \<rightharpoonup> pyval"

definition new_assembler :: "string list \<Rightarrow> assembler" where
  "new_assembler code =
     \<lparr>assembly_code = code, intermediary_code = [], machine_code = [],
      labels = Map.empty, variables = map_of predefined_symbols\<rparr>"

definition is_A :: "instruction \<Rightarrow> bool" where
  "is_A ins = (case ins of A_instruction a \<Rightarrow> True | C_instruction d c j \<Rightarrow> False)"

lemma new_assembler_simps [simp]:
  "assembly_code (new_assembler code) = code"
  "intermediary_code (new_assembler code) = []"
  "machine_code (new_assembler code) = []"
  "labels (new_assembler code) = Map.empty"
  "variables (new_assembler code) = map_of predefined_symbols"
  by (simp_all add: new_assembler_def)

lemma is_A_simps [simp]: "is_A (A_instruction a)" "\<not> is_A (C_instruction d c j)"
  by (simp_all add: is_A_def)

end
