(* ===== verification/Normalizer.thy ===== *)
theory Normalizer
  imports Asm_State
begin

text \<open>
  The method \<^verbatim>\<open>remove_unnecessary\<close> (lines 61 to 73 of \<^verbatim>\<open>src/hack-assemble.py\<close>):
  \<open>strip_line\<close> is what the loop body computes for one line, \<open>remove_step\<close> the body
  with its conditional \<^verbatim>\<open>append\<close>, and \<open>remove_unnecessary\<close> the loop over
  \<^verbatim>\<open>self.assembly_code\<close> and the final assignment.  The lemmas show that the loop is
  a map followed by a filter, that what it leaves are non-empty lines without
  whitespace and without a comment marker, and that it leaves such lines alone.
\<close>

section \<open>The method\<close>

definition strip_line :: "string \<Rightarrow> string" where
  "strip_line line =
     (let stripped = remove_ws line;
          comment_start = py_find stripped ''//''
      in if comment_start \<noteq> - 1 then py_slice stripped (Some 0) (Some comment_start)
         else stripped)"

definition remove_step :: "string \<Rightarrow> string list \<Rightarrow> string list" where
  "remove_step line assembly =
     (let stripped = strip_line line
      in if stripped \<noteq> [] then assembly @ [stripped] else assembly)"

definition remove_unnecessary :: "assembler \<Rightarrow> assembler" where
  "remove_unnecessary self = self\<lparr>assembly_code := fold remove_step (assembly_code self) []\<rparr>"

text \<open>The contract: the stripped lines that are not empty, in their order.\<close>

definition normalize :: "string list \<Rightarrow> string list" where
  "normalize lines = filter (\<lambda>l. l \<noteq> []) (map strip_line lines)"

definition normal_line :: "string \<Rightarrow> bool" where
  "normal_line l \<longleftrightarrow> l \<noteq> [] \<and> list_all (\<lambda>c. \<not> is_space c) l \<and> py_find l ''//'' = - 1"

lemmas [asm_defs] = strip_line_def remove_step_def remove_unnecessary_def normalize_def
  normal_line_def

section \<open>One line\<close>

lemma strip_line_first_occ:
  "strip_line line =
     (case first_occ (remove_ws line) ''//'' of
        None \<Rightarrow> remove_ws line | Some k \<Rightarrow> take k (remove_ws line))"
  by (simp add: strip_line_def py_find_first_occ split: option.splits)

lemma strip_line_no_space: "c \<in> set (strip_line line) \<Longrightarrow> \<not> is_space c"
  by (auto simp: strip_line_first_occ remove_ws_no_space split: option.splits
      dest!: in_set_takeD)

lemma strip_line_no_comment: "py_find (strip_line line) ''//'' = - 1"
  by (auto simp: strip_line_first_occ py_find_first_occ first_occ_take_None
      split: option.splits)

lemma strip_line_prefix: "prefix (strip_line line) (remove_ws line)"
  by (simp add: strip_line_first_occ take_is_prefix split: option.splits)

lemma strip_line_normal: "strip_line line \<noteq> [] \<Longrightarrow> normal_line (strip_line line)"
  by (simp add: normal_line_def strip_line_no_comment list_all_iff strip_line_no_space)

lemma strip_line_id: "normal_line l \<Longrightarrow> strip_line l = l"
  by (simp add: normal_line_def strip_line_def remove_ws_id list_all_iff)

section \<open>The loop\<close>

lemma fold_remove_step: "fold remove_step lines acc = acc @ normalize lines"
proof -
  have "fold remove_step lines acc =
      acc @ concat (map (\<lambda>l. if strip_line l \<noteq> [] then [strip_line l] else []) lines)"
    by (rule fold_snoc_conv) (simp add: remove_step_def)
  also have "concat (map (\<lambda>l. if strip_line l \<noteq> [] then [strip_line l] else []) lines) =
      normalize lines"
    by (induction lines) (simp_all add: normalize_def)
  finally show ?thesis .
qed

lemma assembly_code_remove_unnecessary [simp]:
  "assembly_code (remove_unnecessary self) = normalize (assembly_code self)"
  by (simp add: remove_unnecessary_def fold_remove_step)

lemma remove_unnecessary_frame [simp]:
  "labels (remove_unnecessary self) = labels self"
  "variables (remove_unnecessary self) = variables self"
  "intermediary_code (remove_unnecessary self) = intermediary_code self"
  "machine_code (remove_unnecessary self) = machine_code self"
  by (simp_all add: remove_unnecessary_def)

lemma normalize_append [simp]: "normalize (xs @ ys) = normalize xs @ normalize ys"
  by (simp add: normalize_def)

lemma normalize_Nil [simp]: "normalize [] = []"
  by (simp add: normalize_def)

lemma normalize_Cons:
  "normalize (l # ls) = (if strip_line l = [] then normalize ls else strip_line l # normalize ls)"
  by (simp add: normalize_def)

lemma normalize_normal: "l \<in> set (normalize lines) \<Longrightarrow> normal_line l"
  by (auto simp: normalize_def strip_line_normal)

lemma normalize_id: "list_all normal_line lines \<Longrightarrow> normalize lines = lines"
  by (induction lines) (simp_all add: normalize_Cons strip_line_id, simp add: normal_line_def)

lemma length_normalize: "length (normalize lines) \<le> length lines"
  by (simp add: normalize_def order_trans [OF length_filter_le])

text \<open>Dropping whitespace or empty lines before the normalizer changes nothing.\<close>

lemma strip_line_filter:
  "(\<And>c. \<not> is_space c \<Longrightarrow> P c) \<Longrightarrow> strip_line (filter P l) = strip_line l"
  by (simp add: strip_line_def remove_ws_filter)

lemma normalize_filter_nonempty: "normalize (filter (\<lambda>l. l \<noteq> []) ls) = normalize ls"
  by (induction ls) (simp_all add: normalize_Cons strip_line_def remove_ws_def py_find_def)

lemma normalize_map_filter:
  "(\<And>c. \<not> is_space c \<Longrightarrow> P c) \<Longrightarrow> normalize (map (filter P) ls) = normalize ls"
  by (induction ls) (simp_all add: normalize_Cons strip_line_filter)

section \<open>Properties\<close>

lemma remove_unnecessary_eq:
  "remove_unnecessary self = self\<lparr>assembly_code := normalize (assembly_code self)\<rparr>"
  by (simp add: remove_unnecessary_def fold_remove_step)

text \<open>
  Claim C16.  Every line that \<^verbatim>\<open>remove_unnecessary\<close> leaves in \<^verbatim>\<open>assembly_code\<close> is
  non-empty, contains no whitespace character and contains no comment marker.
\<close>

theorem normalized_lines_normal: "list_all normal_line (assembly_code (remove_unnecessary self))"
  by (simp add: list_all_iff normalize_normal)

text \<open>
  Claim C26.  Running \<^verbatim>\<open>remove_unnecessary\<close> a second time changes nothing: lines
  that are already stripped are kept as they are, in their order.
\<close>

theorem remove_unnecessary_idempotent:
  "remove_unnecessary (remove_unnecessary self) = remove_unnecessary self"
proof -
  have "list_all normal_line (normalize (assembly_code self))"
    by (simp add: list_all_iff normalize_normal)
  then have "normalize (normalize (assembly_code self)) = normalize (assembly_code self)"
    by (rule normalize_id)
  then show ?thesis
    by (simp add: remove_unnecessary_eq)
qed

text \<open>
  Claim C27.  A comment is cut off and the code before it is kept: for stripped code
  that does not end in a slash, the line made of the code, the marker \<^verbatim>\<open>//\<close> and any
  comment text is stripped to the code.
\<close>

theorem strip_line_keeps_code:
  assumes "normal_line code" and "last code \<noteq> CHR ''/''"
  shows "strip_line (code @ ''//'' @ comment) = code"
proof -
  from assms(1) have ws: "remove_ws code = code" and ne: "code \<noteq> []"
    and no: "first_occ code ''//'' = None"
    by (auto simp: normal_line_def remove_ws_id list_all_iff py_find_first_occ
        split: option.splits)
  have "first_occ (code @ ''//'' @ t) ''//'' = Some (length code)" for t
    using ne no assms(2)
  proof (induction code)
    case Nil
    then show ?case by simp
  next
    case (Cons c code)
    show ?case
    proof (cases code)
      case Nil
      with Cons.prems show ?thesis by simp
    next
      case (Cons d code')
      with Cons.prems Cons.IH show ?thesis
        by (auto split: if_splits)
    qed
  qed
  moreover have "remove_ws (code @ ''//'' @ comment) = code @ ''//'' @ remove_ws comment"
    using ws by (simp add: remove_ws_def is_space_def)
  ultimately show ?thesis
    by (simp add: strip_line_first_occ)
qed

theorem strip_line_keeps_code_witness:
  "normal_line ''D=M'' \<and> last ''D=M'' \<noteq> CHR ''/'' \<and>
     strip_line (''D=M'' @ ''//'' @ '' store it'') = ''D=M''"
  using strip_line_keeps_code [of "''D=M''" "'' store it''"]
  by (simp add: normal_line_def py_find_def is_space_def)

end
