(* ===== verification/Symbol_Resolver.thy ===== *)
theory Symbol_Resolver
  imports Normalizer
begin

text \<open>
  The methods \<^verbatim>\<open>find_labels\<close> (lines 83 to 99 of \<^verbatim>\<open>src/hack-assemble.py\<close>) and
  \<^verbatim>\<open>find_variables\<close> (lines 105 to 119).  Each loop body is one function on the local
  variables of the loop: \<open>label_step\<close> on the instruction counter, the label table and
  the list of indexes to delete; \<open>variable_step\<close> on the variable table and the next
  free address.  The deletion loop of \<^verbatim>\<open>find_labels\<close> is kept as the source has it,
  one \<^verbatim>\<open>del\<close> per index from the largest down, so that an \<open>IndexError\<close> is a possible
  result of the model; the lemmas show that it never occurs and that the loop is a
  filter.  Reference functions (\<open>label_scan\<close>, \<open>fresh_symbols\<close>) state what the two
  tables hold afterwards.
\<close>

section \<open>Labels\<close>

type_synonym label_state = "int \<times> (string \<rightharpoonup> int) \<times> nat list"

fun label_step :: "nat \<times> string \<Rightarrow> label_state \<Rightarrow> label_state" where
  "label_step (index, line) (cur_instruction, labs, label_indexes) =
     (if py_startswith line ''(''
      then (cur_instruction,
            labs(py_slice line (Some 1) (Some (- 1)) \<mapsto> cur_instruction),
            label_indexes @ [index])
      else (cur_instruction + 1, labs, label_indexes))"

definition delete_step :: "nat \<Rightarrow> string list \<Rightarrow> string list result" where
  "delete_step i code = py_del code i"

definition find_labels :: "assembler \<Rightarrow> assembler result" where
  "find_labels self =
     (case fold label_step (enumerate 0 (assembly_code self)) (0, labels self, []) of
        (cur_instruction, labs, label_indexes) \<Rightarrow>
          ebind (efold delete_step (py_sorted_reverse label_indexes) (assembly_code self))
            (\<lambda>code. Inr (self\<lparr>labels := labs, assembly_code := code\<rparr>)))"

section \<open>Variables\<close>

type_synonym variable_state = "(string \<rightharpoonup> pyval) \<times> int"

fun variable_step :: "(string \<rightharpoonup> int) \<Rightarrow> string \<Rightarrow> variable_state \<Rightarrow> variable_state" where
  "variable_step labs line (vars, next_address) =
     (if \<not> py_startswith line ''@'' then (vars, next_address)
      else let symbol = py_slice line (Some 1) None
           in if py_isdigit symbol then (vars, next_address)
              else if vars symbol = None \<and> labs symbol = None
                   then (vars(symbol \<mapsto> PInt next_address), next_address + 1)
                   else (vars, next_address))"

definition find_variables :: "assembler \<Rightarrow> assembler" where
  "find_variables self =
     self\<lparr>variables :=
       fst (fold (variable_step (labels self)) (assembly_code self) (variables self, 16))\<rparr>"

section \<open>Reference functions\<close>

definition is_label :: "string \<Rightarrow> bool" where
  "is_label line \<longleftrightarrow> py_startswith line ''(''"

definition label_name :: "string \<Rightarrow> string" where
  "label_name line = butlast (tl line)"

definition instructions :: "string list \<Rightarrow> string list" where
  "instructions lines = filter (\<lambda>l. \<not> is_label l) lines"

text \<open>The label table after a scan that starts with counter \<open>cur\<close> and table \<open>labs\<close>.\<close>

primrec label_scan :: "string list \<Rightarrow> int \<Rightarrow> (string \<rightharpoonup> int) \<Rightarrow> (string \<rightharpoonup> int)" where
  "label_scan [] cur labs = labs"
| "label_scan (l # ls) cur labs =
     (if is_label l then label_scan ls cur (labs(label_name l \<mapsto> cur))
      else label_scan ls (cur + 1) labs)"

definition label_positions :: "nat \<Rightarrow> string list \<Rightarrow> nat list" where
  "label_positions n lines = map fst (filter (\<lambda>(i, l). is_label l) (enumerate n lines))"

text \<open>
  The symbol that a line asks a variable for, if any: the operand of an address
  instruction that is no number and is bound in neither table.
\<close>

definition wants_variable :: "(string \<rightharpoonup> pyval) \<Rightarrow> (string \<rightharpoonup> int) \<Rightarrow> string \<Rightarrow> bool" where
  "wants_variable vars labs line \<longleftrightarrow>
     py_startswith line ''@'' \<and> \<not> py_isdigit (tl line) \<and> vars (tl line) = None \<and>
     labs (tl line) = None"

primrec first_seen :: "'a list \<Rightarrow> 'a list" where
  "first_seen [] = []"
| "first_seen (x # xs) = x # filter (\<lambda>y. y \<noteq> x) (first_seen xs)"

definition fresh_symbols :: "(string \<rightharpoonup> pyval) \<Rightarrow> (string \<rightharpoonup> int) \<Rightarrow> string list \<Rightarrow> string list" where
  "fresh_symbols vars labs lines = first_seen (map tl (filter (wants_variable vars labs) lines))"

text \<open>Consecutive addresses from \<open>n\<close> for a list of symbols.\<close>

primrec allocation :: "int \<Rightarrow> string list \<Rightarrow> (string \<rightharpoonup> pyval)" where
  "allocation n [] = Map.empty"
| "allocation n (x # xs) = (allocation (n + 1) xs)(x \<mapsto> PInt n)"

definition resolvable :: "(string \<rightharpoonup> pyval) \<Rightarrow> (string \<rightharpoonup> int) \<Rightarrow> string \<Rightarrow> bool" where
  "resolvable vars labs line \<longleftrightarrow>
     py_startswith line ''@'' \<longrightarrow>
       py_isdigit (tl line) \<or> vars (tl line) \<noteq> None \<or> labs (tl line) \<noteq> None"

lemmas [asm_defs] = delete_step_def find_labels_def find_variables_def is_label_def
  label_name_def instructions_def label_positions_def wants_variable_def fresh_symbols_def
  resolvable_def

section \<open>Facts about the label pass\<close>

lemma label_positions_Nil [simp]: "label_positions n [] = []"
  by (simp add: label_positions_def)

lemma label_positions_Cons:
  "label_positions n (l # ls) =
     (if is_label l then n # label_positions (Suc n) ls else label_positions (Suc n) ls)"
  by (simp add: label_positions_def)

lemma label_positions_snoc:
  "label_positions n (ls @ [l]) =
     (if is_label l then label_positions n ls @ [n + length ls] else label_positions n ls)"
  by (simp add: label_positions_def enumerate_append_eq)

lemma sorted_label_positions: "sorted (label_positions n lines)"
proof -
  have "sorted (map fst (enumerate n lines))"
    by (simp add: map_fst_enumerate)
  then show ?thesis
    unfolding label_positions_def by (rule sorted_filter)
qed

lemma instructions_simps [simp]:
  "instructions [] = []"
  "instructions (l # ls) = (if is_label l then instructions ls else l # instructions ls)"
  "instructions (xs @ ys) = instructions xs @ instructions ys"
  by (simp_all add: instructions_def)

text \<open>The first loop of \<^verbatim>\<open>find_labels\<close>, in terms of the reference functions.\<close>

lemma fold_label_step:
  "fold label_step (enumerate n lines) (cur, labs, idxs) =
     (cur + int (length (instructions lines)), label_scan lines cur labs,
      idxs @ label_positions n lines)"
proof (induction lines arbitrary: n cur labs idxs)
  case Nil
  show ?case by simp
next
  case (Cons l ls)
  show ?case
    by (simp add: Cons.IH label_positions_Cons is_label_def label_name_def fun_upd_def)
qed

text \<open>
  The second loop: deleting the label positions from the largest down removes exactly
  the label declarations, and no index is out of range.
\<close>

lemma efold_delete_step:
  "efold delete_step (rev (label_positions 0 xs)) (xs @ ys) = Inr (instructions xs @ ys)"
proof (induction xs arbitrary: ys rule: rev_induct)
  case Nil
  show ?case by simp
next
  case (snoc x xs)
  show ?case
  proof (cases "is_label x")
    case True
    have "delete_step (length xs) (xs @ x # ys) = Inr (xs @ ys)"
      by (simp add: delete_step_def py_del_def)
    with True show ?thesis
      by (simp add: label_positions_snoc snoc.IH)
  next
    case False
    with snoc.IH [of "x # ys"] show ?thesis
      by (simp add: label_positions_snoc)
  qed
qed

lemma find_labels_eq:
  "find_labels self =
     Inr (self\<lparr>labels := label_scan (assembly_code self) 0 (labels self),
               assembly_code := instructions (assembly_code self)\<rparr>)"
  using efold_delete_step [of "assembly_code self" "[]"]
  by (simp add: find_labels_def fold_label_step py_sorted_reverse_sorted sorted_label_positions)

lemma label_scan_append:
  "label_scan (xs @ ys) cur labs =
     label_scan ys (cur + int (length (instructions xs))) (label_scan xs cur labs)"
  by (induction xs arbitrary: cur labs) (simp_all add: add.assoc)

lemma label_scan_other:
  "(\<And>l. l \<in> set lines \<Longrightarrow> is_label l \<Longrightarrow> label_name l \<noteq> x) \<Longrightarrow>
     label_scan lines cur labs x = labs x"
  by (induction lines arbitrary: cur labs) auto

lemma label_scan_declared:
  assumes "is_label d" and "label_name d = x"
    and "\<And>l. l \<in> set post \<Longrightarrow> is_label l \<Longrightarrow> label_name l \<noteq> x"
  shows "label_scan (pre @ d # post) cur labs x = Some (cur + int (length (instructions pre)))"
  using assms by (simp add: label_scan_append label_scan_other)

lemma label_scan_range:
  "label_scan lines cur labs x = Some a \<Longrightarrow>
     labs x = Some a \<or> (cur \<le> a \<and> a \<le> cur + int (length (instructions lines)))"
proof (induction lines arbitrary: cur labs)
  case Nil
  then show ?case by simp
next
  case (Cons l ls)
  show ?case
  proof (cases "is_label l")
    case True
    with Cons.prems have "label_scan ls cur (labs(label_name l \<mapsto> cur)) x = Some a"
      by simp
    from Cons.IH [OF this] True show ?thesis
      by (auto split: if_splits)
  next
    case False
    with Cons.prems have "label_scan ls (cur + 1) labs x = Some a"
      by simp
    from Cons.IH [OF this] False show ?thesis
      by auto
  qed
qed

lemma label_scan_dom:
  "dom (label_scan lines cur labs) = dom labs \<union> label_name ` {l \<in> set lines. is_label l}"
  by (induction lines arbitrary: cur labs) auto

section \<open>Facts about the variable pass\<close>

lemma variable_step_eq:
  "variable_step labs line (vars, n) =
     (if wants_variable vars labs line then (vars(tl line \<mapsto> PInt n), n + 1) else (vars, n))"
  by (auto simp: wants_variable_def Let_def)

lemma first_seen_filter: "first_seen (filter P xs) = filter P (first_seen xs)"
  by (induction xs) (auto simp: filter_id_conv intro: filter_cong)

lemma set_first_seen [simp]: "set (first_seen xs) = set xs"
  by (induction xs) auto

lemma distinct_first_seen [simp]: "distinct (first_seen xs)"
  by (induction xs) simp_all

lemma first_seen_distinct: "distinct xs \<Longrightarrow> first_seen xs = xs"
  by (induction xs) (auto simp: filter_id_conv)

lemma wants_variable_upd:
  "wants_variable (vars(k \<mapsto> v)) labs = (\<lambda>l. wants_variable vars labs l \<and> tl l \<noteq> k)"
  by (rule ext) (auto simp: wants_variable_def)

lemma fresh_symbols_Nil [simp]: "fresh_symbols vars labs [] = []"
  by (simp add: fresh_symbols_def)

lemma fresh_symbols_upd:
  "fresh_symbols (vars(k \<mapsto> v)) labs ls = filter (\<lambda>y. y \<noteq> k) (fresh_symbols vars labs ls)"
proof -
  have "map tl (filter (wants_variable (vars(k \<mapsto> v)) labs) ls) =
      filter (\<lambda>y. y \<noteq> k) (map tl (filter (wants_variable vars labs) ls))"
    unfolding wants_variable_upd by (induction ls) simp_all
  then show ?thesis
    by (simp add: fresh_symbols_def first_seen_filter)
qed

lemma fresh_symbols_Cons:
  "fresh_symbols vars labs (l # ls) =
     (if wants_variable vars labs l
      then tl l # fresh_symbols (vars(tl l \<mapsto> v)) labs ls
      else fresh_symbols vars labs ls)"
  by (simp add: fresh_symbols_upd) (simp add: fresh_symbols_def)

lemma fresh_symbols_unbound:
  "k \<in> set (fresh_symbols vars labs lines) \<Longrightarrow> vars k = None \<and> labs k = None \<and> \<not> py_isdigit k"
  by (auto simp: fresh_symbols_def wants_variable_def)

lemma distinct_fresh_symbols [simp]: "distinct (fresh_symbols vars labs lines)"
  by (simp add: fresh_symbols_def)

lemma dom_allocation [simp]: "dom (allocation n xs) = set xs"
  by (induction xs arbitrary: n) auto

lemma allocation_nth:
  "distinct xs \<Longrightarrow> i < length xs \<Longrightarrow> allocation n xs (xs ! i) = Some (PInt (n + int i))"
proof (induction xs arbitrary: n i)
  case Nil
  then show ?case by simp
next
  case (Cons x xs)
  show ?case
  proof (cases i)
    case 0
    then show ?thesis by simp
  next
    case (Suc j)
    with Cons.prems have "allocation (n + 1) xs (xs ! j) = Some (PInt (n + 1 + int j))"
      by (intro Cons.IH) simp_all
    moreover from Cons.prems Suc have "xs ! j \<noteq> x"
      by auto
    ultimately show ?thesis
      using Suc by simp
  qed
qed

lemma allocation_range:
  "allocation n xs k = Some v \<Longrightarrow> \<exists>a. v = PInt a \<and> n \<le> a \<and> a < n + int (length xs)"
proof (induction xs arbitrary: n)
  case Nil
  then show ?case by simp
next
  case (Cons x xs)
  show ?case
  proof (cases "k = x")
    case True
    with Cons.prems show ?thesis by auto
  next
    case False
    with Cons.prems have "allocation (n + 1) xs k = Some v"
      by simp
    from Cons.IH [OF this] show ?thesis
      by auto
  qed
qed

text \<open>The loop of \<^verbatim>\<open>find_variables\<close>, in terms of the reference functions.\<close>

lemma allocation_Cons_upd:
  "k \<notin> set rest \<Longrightarrow>
     vars(k \<mapsto> PInt n) ++ allocation (n + 1) rest = vars ++ allocation n (k # rest)"
  by (simp add: map_add_upd_left)

lemma fold_variable_step:
  "fold (variable_step labs) lines (vars, n) =
     (vars ++ allocation n (fresh_symbols vars labs lines),
      n + int (length (fresh_symbols vars labs lines)))"
proof (induction lines arbitrary: vars n)
  case Nil
  show ?case by simp
next
  case (Cons l ls)
  show ?case
  proof (cases "wants_variable vars labs l")
    case True
    let ?k = "tl l"
    let ?rest = "fresh_symbols (vars(?k \<mapsto> PInt n)) labs ls"
    have fresh: "fresh_symbols vars labs (l # ls) = ?k # ?rest"
      using True by (simp add: fresh_symbols_Cons [where v = "PInt n"])
    have "?k \<notin> set ?rest"
      using distinct_fresh_symbols [of vars labs "l # ls"] unfolding fresh by simp
    note maps = allocation_Cons_upd [OF this, of vars n]
    have "fold (variable_step labs) (l # ls) (vars, n) =
        fold (variable_step labs) ls (vars(?k \<mapsto> PInt n), n + 1)"
      using True by (simp only: fold_simps variable_step_eq if_True o_apply)
    also have "\<dots> = (vars(?k \<mapsto> PInt n) ++ allocation (n + 1) ?rest,
        n + 1 + int (length ?rest))"
      by (rule Cons.IH)
    also have "\<dots> = (vars ++ allocation n (?k # ?rest), n + int (length (?k # ?rest)))"
      by (simp only: maps) simp
    finally show ?thesis
      by (simp only: fresh)
  next
    case False
    then have "fresh_symbols vars labs (l # ls) = fresh_symbols vars labs ls"
      by (simp add: fresh_symbols_Cons [where v = undefined])
    moreover have "fold (variable_step labs) (l # ls) (vars, n) =
        fold (variable_step labs) ls (vars, n)"
      using False by (simp only: fold_simps variable_step_eq if_False o_apply)
    ultimately show ?thesis
      by (simp only: Cons.IH)
  qed
qed

lemma variables_find_variables:
  "variables (find_variables self) =
     variables self ++
       allocation 16 (fresh_symbols (variables self) (labels self) (assembly_code self))"
  by (simp add: find_variables_def fold_variable_step)

lemma find_variables_frame [simp]:
  "labels (find_variables self) = labels self"
  "assembly_code (find_variables self) = assembly_code self"
  "intermediary_code (find_variables self) = intermediary_code self"
  "machine_code (find_variables self) = machine_code self"
  by (simp_all add: find_variables_def)

lemma find_variables_preserves:
  assumes "variables self k = Some v"
  shows "variables (find_variables self) k = Some v"
proof -
  have "k \<notin> set (fresh_symbols (variables self) (labels self) (assembly_code self))"
    using assms fresh_symbols_unbound by fastforce
  then have "allocation 16 (fresh_symbols (variables self) (labels self) (assembly_code self)) k = None"
    using dom_allocation by blast
  with assms show ?thesis
    by (simp add: variables_find_variables map_add_def)
qed

lemma find_variables_resolvable:
  assumes "l \<in> set (assembly_code self)"
  shows "resolvable (variables (find_variables self)) (labels self) l"
proof (cases "wants_variable (variables self) (labels self) l")
  case True
  with assms have "tl l \<in> set (fresh_symbols (variables self) (labels self) (assembly_code self))"
    by (auto simp: fresh_symbols_def)
  then have "tl l \<in> dom (variables (find_variables self))"
    by (simp add: variables_find_variables)
  then show ?thesis
    by (auto simp: resolvable_def)
next
  case False
  then have "resolvable (variables self) (labels self) l"
    by (auto simp: resolvable_def wants_variable_def)
  then show ?thesis
    using find_variables_preserves [of self "tl l"] by (auto simp: resolvable_def)
qed

section \<open>Properties\<close>

text \<open>
  Claim C7.  \<^verbatim>\<open>find_labels\<close> never raises: deleting the recorded indexes from the
  largest down removes exactly the lines that start with a parenthesis and keeps the
  others in their order, and the variable table is not touched.
\<close>

theorem find_labels_deletes_declarations:
  "\<exists>self'. find_labels self = Inr self' \<and>
     assembly_code self' = filter (\<lambda>l. \<not> py_startswith l ''('') (assembly_code self) \<and>
     variables self' = variables self"
  by (simp add: find_labels_eq instructions_def is_label_def)

text \<open>
  Claim C5.  A label is bound to the number of instructions before its declaration,
  wherever it is used: if the code is \<open>pre\<close>, then a declaration \<open>d\<close>, then \<open>post\<close>, and
  \<open>post\<close> does not declare the same name again, then \<^verbatim>\<open>find_labels\<close> binds the name
  of \<open>d\<close> to the number of lines of \<open>pre\<close> that are not declarations.
\<close>

theorem label_forward_reference:
  assumes "find_labels self = Inr self'"
    and "assembly_code self = pre @ d # post"
    and "is_label d"
    and "\<forall>l \<in> set post. is_label l \<longrightarrow> label_name l \<noteq> label_name d"
  shows "labels self' (label_name d) = Some (int (length (instructions pre)))"
  using assms by (auto simp: find_labels_eq label_scan_declared)

theorem label_forward_reference_witness:
  "\<exists>self'. find_labels (new_assembler [''@LOOP'', ''D=M'', ''(LOOP)'', ''0;JMP'']) = Inr self' \<and>
     labels self' ''LOOP'' = Some 2"
proof -
  let ?self = "new_assembler [''@LOOP'', ''D=M'', ''(LOOP)'', ''0;JMP'']"
  obtain self' where ret: "find_labels ?self = Inr self'"
    by (simp add: find_labels_eq)
  have "labels self' (label_name ''(LOOP)'') =
      Some (int (length (instructions [''@LOOP'', ''D=M''])))"
    by (rule label_forward_reference [OF ret, where post = "[''0;JMP'']"])
      (simp_all add: is_label_def py_startswith_def)
  with ret show ?thesis
    by (simp add: label_name_def is_label_def py_startswith_def)
qed

text \<open>
  Claim C28.  Label addresses are instruction addresses: starting from an empty label
  table, every address that \<^verbatim>\<open>find_labels\<close> binds lies between 0 and the number of
  instructions that remain.
\<close>

theorem label_bounds:
  assumes "find_labels self = Inr self'" and "labels self = Map.empty"
    and "labels self' x = Some a"
  shows "0 \<le> a \<and> a \<le> int (length (assembly_code self'))"
  using assms label_scan_range [of "assembly_code self" 0 Map.empty x a]
  by (auto simp: find_labels_eq)

theorem label_bounds_witness:
  "\<exists>self' a. find_labels (new_assembler [''@0'', ''(END)'']) = Inr self' \<and>
     labels self' ''END'' = Some a \<and> 0 \<le> a \<and> a \<le> int (length (assembly_code self'))"
proof -
  let ?self = "new_assembler [''@0'', ''(END)'']"
  obtain self' where ret: "find_labels ?self = Inr self'"
    by (simp add: find_labels_eq)
  then have lab: "labels self' ''END'' = Some 1"
    by (auto simp: find_labels_eq label_name_def is_label_def py_startswith_def)
  from label_bounds [OF ret _ lab] ret lab show ?thesis
    by auto
qed

text \<open>
  Claim C6.  Variables get consecutive addresses from 16 in the order of their first
  occurrence: the \<open>i\<close>-th symbol that is the operand of an address instruction, is no
  number and is bound in neither table is bound to \<open>16 + i\<close> by \<^verbatim>\<open>find_variables\<close>.
\<close>

theorem variables_allocated_in_order:
  assumes "i < length (fresh_symbols (variables self) (labels self) (assembly_code self))"
  shows "variables (find_variables self)
      (fresh_symbols (variables self) (labels self) (assembly_code self) ! i) =
    Some (PInt (16 + int i))"
proof -
  let ?fresh = "fresh_symbols (variables self) (labels self) (assembly_code self)"
  from assms have "allocation 16 ?fresh (?fresh ! i) = Some (PInt (16 + int i))"
    by (intro allocation_nth) simp_all
  then show ?thesis
    by (simp add: variables_find_variables map_add_def)
qed

theorem variables_allocated_in_order_witness:
  "variables (find_variables (new_assembler [''@i'', ''@R1'', ''@j'', ''@i'', ''@7''])) ''j'' =
     Some (PInt 17)"
proof -
  let ?self = "new_assembler [''@i'', ''@R1'', ''@j'', ''@i'', ''@7'']"
  have fresh: "fresh_symbols (variables ?self) (labels ?self) (assembly_code ?self) = [''i'', ''j'']"
    by (simp add: fresh_symbols_def wants_variable_def py_startswith_def py_isdigit_def
        is_digit_char_def is_ascii_digit_def predefined_symbols_def)
  from variables_allocated_in_order [of 1 ?self] show ?thesis
    unfolding fresh by simp
qed

text \<open>
  Claim C29.  Two different symbols that were unbound before \<^verbatim>\<open>find_variables\<close> are
  never bound to the same value by it, and what it binds is an integer from 16 up.
\<close>

theorem variables_injective:
  assumes "variables self k = None" and "variables self k' = None" and "k \<noteq> k'"
    and "variables (find_variables self) k = Some v"
    and "variables (find_variables self) k' = Some v'"
  shows "v \<noteq> v' \<and> (\<exists>a. v = PInt a \<and> 16 \<le> a)"
proof -
  let ?fresh = "fresh_symbols (variables self) (labels self) (assembly_code self)"
  from assms have a: "allocation 16 ?fresh k = Some v" "allocation 16 ?fresh k' = Some v'"
    by (auto simp: variables_find_variables map_add_def split: option.splits)
  then have "k \<in> set ?fresh" "k' \<in> set ?fresh"
    using dom_allocation by blast+
  then obtain i j where ij: "i < length ?fresh" "?fresh ! i = k" "j < length ?fresh" "?fresh ! j = k'"
    by (auto simp: in_set_conv_nth)
  with a have "v = PInt (16 + int i)" "v' = PInt (16 + int j)"
    using allocation_nth [of ?fresh i 16] allocation_nth [of ?fresh j 16] by auto
  moreover from ij assms(3) have "i \<noteq> j"
    by auto
  ultimately show ?thesis
    by auto
qed

theorem variables_injective_witness:
  "\<exists>v v'. variables (find_variables (new_assembler [''@a'', ''@b''])) ''a'' = Some v \<and>
     variables (find_variables (new_assembler [''@a'', ''@b''])) ''b'' = Some v' \<and>
     v \<noteq> v' \<and> (\<exists>n. v = PInt n \<and> 16 \<le> n)"
proof -
  let ?self = "new_assembler [''@a'', ''@b'']"
  have fresh: "fresh_symbols (variables ?self) (labels ?self) (assembly_code ?self) = [''a'', ''b'']"
    by (simp add: fresh_symbols_def wants_variable_def py_startswith_def py_isdigit_def
        is_digit_char_def is_ascii_digit_def predefined_symbols_def)
  have a: "variables (find_variables ?self) ''a'' = Some (PInt 16)"
    and b: "variables (find_variables ?self) ''b'' = Some (PInt 17)"
    unfolding variables_find_variables fresh by (simp_all add: map_add_def)
  have none: "variables ?self ''a'' = None" "variables ?self ''b'' = None"
    by (simp_all add: predefined_symbols_def)
  from variables_injective [OF none _ a b] a b show ?thesis
    by simp
qed

end
