(* ===== verification/Instruction_Parser.thy ===== *)
theory Instruction_Parser
  imports Symbol_Resolver
begin

text \<open>
  The method \<^verbatim>\<open>build_intermediary\<close> (lines 125 to 182 of \<^verbatim>\<open>src/hack-assemble.py\<close>).
  \<open>resolve_address\<close> is the lookup of an operand (lines 131 to 136), \<open>parse_c\<close> the
  four \<^verbatim>\<open>if\<close> statements on the two separators (lines 139 to 180), written as the
  list of what they append, so that a line that met none of the four conditions would
  append nothing, and \<open>intermediary_step\<close> the whole loop body.  The lemmas show that
  exactly one of the four conditions holds for every line, what each shape of line is
  parsed to, and when the method raises.
\<close>

section \<open>The method\<close>

definition resolve_address :: "(string \<rightharpoonup> pyval) \<Rightarrow> (string \<rightharpoonup> int) \<Rightarrow> string \<Rightarrow> int result" where
  "resolve_address vars labs line =
     (let address = py_slice line (Some 1) None
      in case vars address of
           Some v \<Rightarrow> py_int_of v
         | None \<Rightarrow> (case labs address of Some i \<Rightarrow> Inr i | None \<Rightarrow> py_int address))"

definition parse_c :: "string \<Rightarrow> instruction list" where
  "parse_c line =
     (let dest_idx = py_find line ''='';
          jump_idx = py_find line '';''
      in if dest_idx = - 1 \<and> jump_idx = - 1
         then [C_instruction None line None]
         else if dest_idx \<noteq> - 1 \<and> jump_idx = - 1
         then [C_instruction (Some (py_slice line (Some 0) (Some dest_idx)))
                 (py_slice line (Some (dest_idx + 1)) None) None]
         else if dest_idx = - 1 \<and> jump_idx \<noteq> - 1
         then [C_instruction None (py_slice line (Some 0) (Some jump_idx))
                 (Some (py_slice line (Some (jump_idx + 1)) None))]
         else if dest_idx \<noteq> - 1 \<and> jump_idx \<noteq> - 1
         then [C_instruction (Some (py_slice line (Some 0) (Some dest_idx)))
                 (py_slice line (Some (dest_idx + 1)) (Some jump_idx))
                 (Some (py_slice line (Some (jump_idx + 1)) None))]
         else [])"

definition intermediary_step ::
  "(string \<rightharpoonup> pyval) \<Rightarrow> (string \<rightharpoonup> int) \<Rightarrow> string \<Rightarrow> instruction list \<Rightarrow> instruction list result"
where
  "intermediary_step vars labs line intermediary =
     (if py_startswith line ''@''
      then ebind (resolve_address vars labs line)
             (\<lambda>address. Inr (intermediary @ [A_instruction address]))
      else Inr (intermediary @ parse_c line))"

definition build_intermediary :: "assembler \<Rightarrow> assembler result" where
  "build_intermediary self =
     ebind (efold (intermediary_step (variables self) (labels self)) (assembly_code self) [])
       (\<lambda>intermediary. Inr (self\<lparr>intermediary_code := intermediary\<rparr>))"

section \<open>Reference functions\<close>

text \<open>
  What one line is parsed to, and the text of a compute instruction, with which the
  parser is shown to invert printing.
\<close>

definition parse_line :: "(string \<rightharpoonup> pyval) \<Rightarrow> (string \<rightharpoonup> int) \<Rightarrow> string \<Rightarrow> instruction result" where
  "parse_line vars labs line =
     (if py_startswith line ''@''
      then ebind (resolve_address vars labs line) (\<lambda>a. Inr (A_instruction a))
      else Inr (hd (parse_c line)))"

definition show_c :: "string option \<Rightarrow> string \<Rightarrow> string option \<Rightarrow> string" where
  "show_c d c j =
     (case d of None \<Rightarrow> [] | Some x \<Rightarrow> x @ ''='') @ c @
     (case j of None \<Rightarrow> [] | Some y \<Rightarrow> '';'' @ y)"

definition no_separator :: "string \<Rightarrow> bool" where
  "no_separator s \<longleftrightarrow> CHR ''='' \<notin> set s \<and> CHR '';'' \<notin> set s"

lemmas [asm_defs] = resolve_address_def parse_c_def intermediary_step_def
  build_intermediary_def parse_line_def show_c_def no_separator_def

section \<open>Facts about compute instructions\<close>

text \<open>The four conditions are exhaustive: every line appends exactly one instruction.\<close>

lemma parse_c_singleton: "\<exists>d c j. parse_c line = [C_instruction d c j]"
  by (simp add: parse_c_def Let_def)

lemma length_parse_c [simp]: "length (parse_c line) = 1"
  using parse_c_singleton [of line] by auto

lemma parse_c_hd: "parse_c line = [hd (parse_c line)]"
  using parse_c_singleton [of line] by auto

lemma parse_c_plain:
  "no_separator line \<Longrightarrow> parse_c line = [C_instruction None line None]"
  by (simp add: parse_c_def no_separator_def py_find_absent)

lemma parse_c_dest:
  assumes "no_separator d" and "CHR '';'' \<notin> set c"
  shows "parse_c (d @ ''='' @ c) = [C_instruction (Some d) c None]"
proof -
  from assms have "py_find (d @ ''='' @ c) ''='' = int (length d)"
    and "py_find (d @ ''='' @ c) '';'' = - 1"
    by (simp_all add: no_separator_def py_find_append_char py_find_absent)
  then show ?thesis
    by (simp add: parse_c_def)
qed

lemma parse_c_jump:
  assumes "no_separator c" and "CHR ''='' \<notin> set j"
  shows "parse_c (c @ '';'' @ j) = [C_instruction None c (Some j)]"
proof -
  from assms have "py_find (c @ '';'' @ j) '';'' = int (length c)"
    and "py_find (c @ '';'' @ j) ''='' = - 1"
    by (simp_all add: no_separator_def py_find_append_char py_find_absent)
  then show ?thesis
    by (simp add: parse_c_def)
qed

lemma parse_c_full:
  assumes "no_separator d" and "CHR '';'' \<notin> set c"
  shows "parse_c (d @ ''='' @ c @ '';'' @ j) = [C_instruction (Some d) c (Some j)]"
proof -
  let ?line = "d @ ''='' @ c @ '';'' @ j"
  from assms have "py_find ?line ''='' = int (length d)"
    by (simp add: no_separator_def py_find_append_char)
  moreover define k where "k = length d + 1 + length c"
  have "py_find ?line '';'' = int k"
    using py_find_append_char [of "CHR '';''" "d @ ''='' @ c" j] assms
    by (simp add: no_separator_def k_def)
  ultimately have "parse_c ?line =
      [C_instruction (Some (take (length d) ?line))
         (take (k - Suc (length d)) (drop (Suc (length d)) ?line))
         (Some (drop (Suc k) ?line))]"
    by (simp add: parse_c_def Let_def)
  then show ?thesis
    by (simp add: k_def)
qed

section \<open>Facts about address instructions\<close>

lemma resolve_address_variable:
  "vars (tl line) = Some v \<Longrightarrow> resolve_address vars labs line = py_int_of v"
  by (simp add: resolve_address_def)

lemma resolve_address_label:
  "vars (tl line) = None \<Longrightarrow> labs (tl line) = Some i \<Longrightarrow> resolve_address vars labs line = Inr i"
  by (simp add: resolve_address_def)

lemma resolve_address_literal:
  "vars (tl line) = None \<Longrightarrow> labs (tl line) = None \<Longrightarrow>
     resolve_address vars labs line = py_int (tl line)"
  by (simp add: resolve_address_def)

lemma resolve_address_number:
  assumes "vars (tl line) = None" and "labs (tl line) = None"
    and "tl line \<noteq> []" and "list_all is_ascii_digit (tl line)"
    and "int (length (tl line)) \<le> int_max_str_digits"
  shows "resolve_address vars labs line = Inr (int (dec_value (tl line)))"
  using assms by (simp add: resolve_address_literal py_int_digits)

text \<open>The four ways in which a line is parsed to an instruction.\<close>

lemma parse_line_Inr_cases [consumes 1, case_names compute variable label literal]:
  assumes "parse_line vars labs l = Inr ins"
  obtains d c j where "\<not> py_startswith l ''@''" "ins = C_instruction d c j"
  | v a where "py_startswith l ''@''" "vars (tl l) = Some v" "py_int_of v = Inr a"
      "ins = A_instruction a"
  | a where "py_startswith l ''@''" "vars (tl l) = None" "labs (tl l) = Some a"
      "ins = A_instruction a"
  | a where "py_startswith l ''@''" "vars (tl l) = None" "labs (tl l) = None"
      "py_int (tl l) = Inr a" "ins = A_instruction a"
proof (cases "py_startswith l ''@''")
  case False
  with assms that(1) show ?thesis
    using parse_c_singleton [of l] by (auto simp: parse_line_def)
next
  case True
  with assms obtain a where "resolve_address vars labs l = Inr a" "ins = A_instruction a"
    by (auto simp: parse_line_def ebind_eq_Inr_iff)
  with True that(2,3,4) show ?thesis
    by (cases "vars (tl l)"; cases "labs (tl l)")
      (simp_all add: resolve_address_variable resolve_address_label resolve_address_literal)
qed

section \<open>The loop\<close>

lemma intermediary_step_parse_line:
  "intermediary_step vars labs line acc =
     ebind (parse_line vars labs line) (\<lambda>ins. Inr (acc @ [ins]))"
proof (cases "py_startswith line ''@''")
  case True
  then show ?thesis
    by (simp add: intermediary_step_def parse_line_def ebind_assoc)
next
  case False
  then show ?thesis
    using parse_c_hd [of line] by (simp add: intermediary_step_def parse_line_def)
qed

lemma build_intermediary_emap:
  "build_intermediary self =
     ebind (emap (parse_line (variables self) (labels self)) (assembly_code self))
       (\<lambda>code. Inr (self\<lparr>intermediary_code := code\<rparr>))"
proof -
  have "efold (intermediary_step (variables self) (labels self)) (assembly_code self) [] =
      ebind (emap (parse_line (variables self) (labels self)) (assembly_code self))
        (\<lambda>ys. Inr ([] @ ys))"
    by (rule efold_snoc_conv) (rule intermediary_step_parse_line)
  then show ?thesis
    by (simp add: build_intermediary_def)
qed

lemma build_intermediary_Inr:
  assumes "build_intermediary self = Inr self'"
  shows "self' = self\<lparr>intermediary_code := intermediary_code self'\<rparr>"
    and "emap (parse_line (variables self) (labels self)) (assembly_code self) =
      Inr (intermediary_code self')"
  using assms by (auto simp: build_intermediary_emap ebind_eq_Inr_iff)

lemma build_intermediary_length:
  "build_intermediary self = Inr self' \<Longrightarrow>
     length (intermediary_code self') = length (assembly_code self)"
  by (auto dest!: build_intermediary_Inr(2) emap_length)

lemma parse_line_is_A:
  "parse_line vars labs line = Inr ins \<Longrightarrow> is_A ins \<longleftrightarrow> py_startswith line ''@''"
  using parse_c_singleton [of line]
  by (auto simp: parse_line_def ebind_eq_Inr_iff split: if_splits)

section \<open>Properties\<close>

text \<open>
  Claim C8.  Parsing inverts printing: the text of a compute instruction, written as
  destination, \<^verbatim>\<open>=\<close>, computation, \<^verbatim>\<open>;\<close>, jump with the absent parts left out,
  is parsed back to the same three fields, provided that the destination contains no
  separator, the computation contains no semicolon, and, where there is no
  destination, neither computation nor jump contains an equals sign.
\<close>

theorem parse_c_show_c:
  assumes "case d of Some x \<Rightarrow> no_separator x
           | None \<Rightarrow> CHR ''='' \<notin> set c \<and> (case j of None \<Rightarrow> True | Some y \<Rightarrow> CHR ''='' \<notin> set y)"
    and "CHR '';'' \<notin> set c"
  shows "parse_c (show_c d c j) = [C_instruction d c j]"
proof (cases d; cases j)
  assume "d = None" "j = None"
  with assms show ?thesis
    by (simp add: show_c_def parse_c_plain no_separator_def)
next
  fix y assume "d = None" "j = Some y"
  with assms show ?thesis
    using parse_c_jump [of c y] by (simp add: show_c_def no_separator_def)
next
  fix x assume "d = Some x" "j = None"
  with assms show ?thesis
    using parse_c_dest [of x c] by (simp add: show_c_def)
next
  fix x y assume "d = Some x" "j = Some y"
  with assms show ?thesis
    using parse_c_full [of x c y] by (simp add: show_c_def)
qed

theorem parse_c_show_c_witness:
  "parse_c ''MD=D+1;JGT'' = [C_instruction (Some ''MD'') ''D+1'' (Some ''JGT'')] \<and>
   parse_c ''0;JMP'' = [C_instruction None ''0'' (Some ''JMP'')]"
  using parse_c_show_c [where d = "Some ''MD''" and c = "''D+1''" and j = "Some ''JGT''"]
    parse_c_show_c [where d = None and c = "''0''" and j = "Some ''JMP''"]
  by (simp add: show_c_def no_separator_def)

text \<open>
  Claim C20.  No line is dropped and none is split: when \<^verbatim>\<open>build_intermediary\<close>
  returns, the intermediate code has one instruction for every line of the assembly
  code, an address instruction exactly where the line starts with \<^verbatim>\<open>@\<close>, and the
  other attributes are as before.
\<close>

theorem build_intermediary_one_per_line:
  assumes "build_intermediary self = Inr self'"
  shows "length (intermediary_code self') = length (assembly_code self) \<and>
    (\<forall>i < length (assembly_code self).
       is_A (intermediary_code self' ! i) \<longleftrightarrow> py_startswith (assembly_code self ! i) ''@'') \<and>
    assembly_code self' = assembly_code self"
proof -
  from assms have eq: "self' = self\<lparr>intermediary_code := intermediary_code self'\<rparr>"
    and em: "emap (parse_line (variables self) (labels self)) (assembly_code self) =
      Inr (intermediary_code self')"
    by (rule build_intermediary_Inr)+
  from em have "length (intermediary_code self') = length (assembly_code self)"
    by (rule emap_length)
  moreover have "is_A (intermediary_code self' ! i) \<longleftrightarrow> py_startswith (assembly_code self ! i) ''@''"
    if "i < length (assembly_code self)" for i
    using emap_nth [OF em that] by (rule parse_line_is_A)
  moreover from eq have "assembly_code self' = assembly_code self"
    by (metis assembler.select_convs(1) assembler.surjective assembler.update_convs(2))
  ultimately show ?thesis
    by blast
qed

theorem build_intermediary_one_per_line_witness:
  "\<exists>self'. build_intermediary (new_assembler [''@5'', ''D=A'']) = Inr self' \<and>
     length (intermediary_code self') = 2 \<and> is_A (intermediary_code self' ! 0) \<and>
     \<not> is_A (intermediary_code self' ! 1)"
proof -
  let ?self = "new_assembler [''@5'', ''D=A'']"
  have "returns (build_intermediary ?self)"
    by code_simp
  then obtain self' where ret: "build_intermediary ?self = Inr self'"
    by (auto simp: returns_iff)
  from build_intermediary_one_per_line [OF ret]
  have "length (intermediary_code self') = 2"
    and "\<And>i. i < 2 \<Longrightarrow> is_A (intermediary_code self' ! i) \<longleftrightarrow>
      py_startswith ([''@5'', ''D=A''] ! i) ''@''"
    by simp_all
  from this(1) this(2) [of 0] this(2) [of 1] ret show ?thesis
    by (simp add: py_startswith_def)
qed

end
