(* ===== verification/Encoder.thy ===== *)
theory Encoder
  imports Instruction_Parser
begin

text \<open>
  The methods \<^verbatim>\<open>assemble\<close> (lines 188 to 205 of \<^verbatim>\<open>src/hack-assemble.py\<close>),
  \<^verbatim>\<open>get_binary_string\<close> (lines 211 to 214) and \<^verbatim>\<open>get_machine_code\<close> (lines 220 and
  221).  \<open>assemble_step\<close> is the loop body: the three dictionary lookups are made in
  the order of the source (destination, computation, jump), so the exception of the
  model is the exception of the first lookup that fails.  The lemmas give the width
  and the value of every emitted line and the conditions under which the method
  raises; \<open>bin_value\<close> of the prelude reads a line back.
\<close>

section \<open>The methods\<close>

definition get_binary_string :: "int \<Rightarrow> nat \<Rightarrow> string" where
  "get_binary_string i n = py_slice (py_format_b i (n + 2)) (Some 2) None"

fun assemble_step :: "instruction \<Rightarrow> string list \<Rightarrow> string list result" where
  "assemble_step (A_instruction address) assembled =
     Inr (assembled @ [''0'' @ get_binary_string address 15])"
| "assemble_step (C_instruction d c j) assembled =
     ebind (py_getitem (map_of dest_table) d) (\<lambda>dest.
     ebind (py_getitem (map_of comp_table) (Some c)) (\<lambda>comp.
     ebind (py_getitem (map_of jump_table) j) (\<lambda>jump.
       Inr (assembled @ [''111'' @ comp @ dest @ jump]))))"

definition assemble :: "assembler \<Rightarrow> assembler result" where
  "assemble self =
     ebind (efold assemble_step (intermediary_code self) [])
       (\<lambda>assembled. Inr (self\<lparr>machine_code := assembled\<rparr>))"

definition get_machine_code :: "assembler \<Rightarrow> string" where
  "get_machine_code self = py_join ''\<newline>'' (machine_code self)"

section \<open>Reference functions\<close>

text \<open>The line of one instruction, and the instructions that have one.\<close>

fun encode :: "instruction \<Rightarrow> string result" where
  "encode (A_instruction address) = Inr (''0'' @ get_binary_string address 15)"
| "encode (C_instruction d c j) =
     ebind (py_getitem (map_of dest_table) d) (\<lambda>dest.
     ebind (py_getitem (map_of comp_table) (Some c)) (\<lambda>comp.
     ebind (py_getitem (map_of jump_table) j) (\<lambda>jump.
       Inr (''111'' @ comp @ dest @ jump))))"

fun encodable :: "instruction \<Rightarrow> bool" where
  "encodable (A_instruction address) = True"
| "encodable (C_instruction d c j) =
     (map_of dest_table d \<noteq> None \<and> map_of comp_table (Some c) \<noteq> None \<and>
      map_of jump_table j \<noteq> None)"

fun in_range :: "instruction \<Rightarrow> bool" where
  "in_range (A_instruction address) = (0 \<le> address \<and> address < 32768)"
| "in_range (C_instruction d c j) = True"

lemmas [asm_defs] = get_binary_string_def assemble_def get_machine_code_def

section \<open>Facts about \<^verbatim>\<open>get_binary_string\<close>\<close>

lemma get_binary_string_nonneg:
  "0 \<le> i \<Longrightarrow> get_binary_string i n =
     replicate (n - length (bin_digits (nat i))) (CHR ''0'') @ bin_digits (nat i)"
  by (simp add: get_binary_string_def py_format_b_nonneg)

lemma get_binary_string_negative:
  "i < 0 \<Longrightarrow> get_binary_string i n =
     ''b'' @ replicate (n - 1 - length (bin_digits (nat (- i)))) (CHR ''0'') @
       bin_digits (nat (- i))"
  by (simp add: get_binary_string_def py_format_b_def Let_def)

lemma get_binary_string_bits: "0 \<le> i \<Longrightarrow> list_all is_bit (get_binary_string i n)"
proof -
  have "list_all is_bit (replicate k (CHR ''0''))" for k
    by (induction k) (simp_all add: is_bit_def)
  then show ?thesis
    if "0 \<le> i"
    using that by (simp add: get_binary_string_nonneg bin_digits_bits)
qed

lemma length_get_binary_string:
  "0 \<le> i \<Longrightarrow> length (get_binary_string i n) = max n (length (bin_digits (nat i)))"
  by (simp add: get_binary_string_nonneg)

lemma get_binary_string_width:
  assumes "0 \<le> i" and "i < 2 ^ n" and "0 < n"
  shows "bits_of_width n (get_binary_string i n)"
proof -
  from assms have "nat i < 2 ^ n"
    by (simp add: nat_less_iff)
  then have "length (bin_digits (nat i)) \<le> n"
    using assms(3) by (rule length_bin_digits_le)
  with assms(1) show ?thesis
    by (simp add: bits_of_width_def get_binary_string_bits length_get_binary_string)
qed

lemma get_binary_string_overflow:
  assumes "2 ^ n \<le> i"
  shows "n < length (get_binary_string i n)"
proof -
  from assms have "0 \<le> i"
    by (rule order_trans [rotated]) simp
  moreover from assms have "2 ^ n \<le> nat i"
    by (simp add: le_nat_iff)
  then have "n < length (bin_digits (nat i))"
    by (rule length_bin_digits_gt)
  ultimately show ?thesis
    by (simp add: length_get_binary_string)
qed

lemma bin_value_get_binary_string: "0 \<le> i \<Longrightarrow> int (bin_value (get_binary_string i n)) = i"
  by (simp add: get_binary_string_nonneg bin_value_append bin_value_bin_digits)

lemma get_binary_string_no_newline: "CHR ''\<newline>'' \<notin> set (get_binary_string i n)"
proof (cases "0 \<le> i")
  case True
  then show ?thesis
    by (intro is_bit_not_newline get_binary_string_bits)
next
  case False
  then show ?thesis
    using is_bit_not_newline [OF bin_digits_bits, of "nat (- i)"]
    by (simp add: get_binary_string_negative)
qed

section \<open>Facts about one instruction\<close>

lemma encode_A_width:
  "0 \<le> a \<Longrightarrow> a < 32768 \<Longrightarrow> bits_of_width 16 (''0'' @ get_binary_string a 15)"
  using get_binary_string_width [of a 15]
  by (simp add: bits_of_width_def is_bit_def)

lemma bin_value_Cons_zero [simp]: "bin_value (CHR ''0'' # s) = bin_value s"
  using bin_value_append [of "''0''" s] by (simp add: bin_value_def)

lemma encode_C_returns:
  assumes "encodable (C_instruction d c j)"
  obtains dest comp jump where
    "map_of dest_table d = Some dest" "map_of comp_table (Some c) = Some comp"
    "map_of jump_table j = Some jump"
    "encode (C_instruction d c j) = Inr (''111'' @ comp @ dest @ jump)"
  using assms by auto

lemma encode_returns_iff: "returns (encode ins) \<longleftrightarrow> encodable ins"
  by (cases ins) (auto simp: returns_ebind py_getitem_def split: option.splits)

lemma encode_width:
  assumes "encode ins = Inr line" and "in_range ins"
  shows "bits_of_width 16 line"
proof (cases ins)
  case (A_instruction a)
  with assms show ?thesis
    using encode_A_width [of a] by auto
next
  case (C_instruction d c j)
  with assms obtain dest comp jump where
    "map_of dest_table d = Some dest" "map_of comp_table (Some c) = Some comp"
    "map_of jump_table j = Some jump" "line = ''111'' @ comp @ dest @ jump"
    by (auto simp: ebind_eq_Inr_iff py_getitem_def split: option.splits)
  then have "bits_of_width 3 dest" "bits_of_width 7 comp" "bits_of_width 3 jump"
    and line: "line = ''111'' @ comp @ dest @ jump"
    by (auto dest: dest_table_width comp_table_width jump_table_width)
  then show ?thesis
    by (simp add: bits_of_width_def is_bit_def)
qed

text \<open>Which lookup fails first decides the exception.\<close>

lemma encode_C_error:
  "encode (C_instruction d c j) = Inl e \<longleftrightarrow>
     (map_of dest_table d = None \<and> e = KeyError d) \<or>
     (map_of dest_table d \<noteq> None \<and> map_of comp_table (Some c) = None \<and> e = KeyError (Some c)) \<or>
     (map_of dest_table d \<noteq> None \<and> map_of comp_table (Some c) \<noteq> None \<and>
        map_of jump_table j = None \<and> e = KeyError j)"
  by (auto simp: ebind_eq_Inl_iff py_getitem_def split: option.splits)

section \<open>The loop\<close>

lemma assemble_step_encode:
  "assemble_step ins acc = ebind (encode ins) (\<lambda>line. Inr (acc @ [line]))"
  by (cases ins) (simp_all add: ebind_assoc)

lemma assemble_emap:
  "assemble self =
     ebind (emap encode (intermediary_code self)) (\<lambda>code. Inr (self\<lparr>machine_code := code\<rparr>))"
proof -
  have "efold assemble_step (intermediary_code self) [] =
      ebind (emap encode (intermediary_code self)) (\<lambda>ys. Inr ([] @ ys))"
    by (rule efold_snoc_conv) (rule assemble_step_encode)
  then show ?thesis
    by (simp add: assemble_def)
qed

lemma assemble_returns_iff: "returns (assemble self) \<longleftrightarrow> list_all encodable (intermediary_code self)"
  by (simp add: assemble_emap returns_ebind returns_iff [symmetric] returns_emap_iff
      encode_returns_iff list_all_iff)

lemma assemble_Inr:
  assumes "assemble self = Inr self'"
  shows "self' = self\<lparr>machine_code := machine_code self'\<rparr>"
    and "emap encode (intermediary_code self) = Inr (machine_code self')"
  using assms by (auto simp: assemble_emap ebind_eq_Inr_iff)

lemma assemble_length:
  "assemble self = Inr self' \<Longrightarrow> length (machine_code self') = length (intermediary_code self)"
  by (auto dest!: assemble_Inr(2) emap_length)

lemma encode_no_newline:
  assumes "encode ins = Inr line"
  shows "CHR ''\<newline>'' \<notin> set line"
proof (cases ins)
  case (A_instruction a)
  with assms show ?thesis
    using get_binary_string_no_newline [of a 15] by auto
next
  case (C_instruction d c j)
  with assms obtain dest comp jump where tabs: "map_of dest_table d = Some dest"
    "map_of comp_table (Some c) = Some comp" "map_of jump_table j = Some jump"
    and line: "line = ''111'' @ comp @ dest @ jump"
    by (auto simp: ebind_eq_Inr_iff py_getitem_def split: option.splits)
  from tabs have "list_all is_bit dest" "list_all is_bit comp" "list_all is_bit jump"
    using dest_table_width comp_table_width jump_table_width by (auto simp: bits_of_width_def)
  then show ?thesis
    unfolding line by (auto dest: is_bit_not_newline)
qed

section \<open>Properties\<close>

text \<open>
  Claim C11.  An address between 0 and 32767 is emitted as a line of 16 binary digits
  that starts with \<^verbatim>\<open>0\<close> and whose remaining 15 digits read back as the address.
\<close>

theorem a_instruction_roundtrip:
  assumes "0 \<le> a" and "a < 32768"
  shows "\<exists>line. assemble_step (A_instruction a) acc = Inr (acc @ [line]) \<and>
    bits_of_width 16 line \<and> hd line = CHR ''0'' \<and> int (bin_value (tl line)) = a"
  using assms encode_A_width [of a]
  by (simp add: bin_value_get_binary_string)

theorem a_instruction_roundtrip_witness:
  "\<exists>line. assemble_step (A_instruction 21) [] = Inr [line] \<and> bits_of_width 16 line \<and>
     hd line = CHR ''0'' \<and> int (bin_value (tl line)) = 21"
  using a_instruction_roundtrip [of 21 "[]"] by simp

text \<open>
  Claim C18.  A compute instruction whose three fields are keys of their tables is
  emitted as \<^verbatim>\<open>111\<close>, the 7 digits of the computation, the 3 digits of the
  destination and the 3 digits of the jump, 16 binary digits in all.
\<close>

theorem c_instruction_format:
  assumes "encodable (C_instruction d c j)"
  shows "\<exists>dest comp jump.
    map_of dest_table d = Some dest \<and> map_of comp_table (Some c) = Some comp \<and>
    map_of jump_table j = Some jump \<and>
    assemble_step (C_instruction d c j) acc = Inr (acc @ [''111'' @ comp @ dest @ jump]) \<and>
    bits_of_width 16 (''111'' @ comp @ dest @ jump)"
proof -
  from assms obtain dest comp jump where tabs:
    "map_of dest_table d = Some dest" "map_of comp_table (Some c) = Some comp"
    "map_of jump_table j = Some jump"
    by auto
  then have "bits_of_width 3 dest" "bits_of_width 7 comp" "bits_of_width 3 jump"
    by (auto dest: dest_table_width comp_table_width jump_table_width)
  then have "bits_of_width 16 (''111'' @ comp @ dest @ jump)"
    by (simp add: bits_of_width_def is_bit_def)
  with tabs show ?thesis
    by simp
qed

theorem c_instruction_format_witness:
  "assemble_step (C_instruction (Some ''D'') ''A'' None) [] = Inr [''1110110000010000'']"
proof -
  have "encodable (C_instruction (Some ''D'') ''A'' None)"
    by (simp add: table_defs)
  from c_instruction_format [OF this, of "[]"] show ?thesis
    by (simp add: table_defs)
qed

text \<open>
  Claim C19.  \<^verbatim>\<open>assemble\<close> raises the \<open>KeyError\<close> of the first instruction that has an
  unknown field, and of its fields the destination is looked up first, then the
  computation, then the jump.
\<close>

theorem assemble_first_error:
  assumes "intermediary_code self = us @ C_instruction d c j # zs"
    and "list_all encodable us" and "\<not> encodable (C_instruction d c j)"
  shows "assemble self =
    Inl (KeyError (if map_of dest_table d = None then d
                   else if map_of comp_table (Some c) = None then Some c else j))"
proof -
  from assms(2) have "returns (emap encode us)"
    by (simp add: returns_emap_iff encode_returns_iff list_all_iff)
  then obtain ls where "emap encode us = Inr ls"
    by (auto simp: returns_iff)
  moreover from assms(3) have "encode (C_instruction d c j) =
      Inl (KeyError (if map_of dest_table d = None then d
                     else if map_of comp_table (Some c) = None then Some c else j))"
    by (auto simp: encode_C_error)
  ultimately show ?thesis
    by (simp add: assemble_emap assms(1) emap_first_error)
qed

theorem assemble_first_error_witness:
  "assemble (new_assembler []\<lparr>intermediary_code :=
      [A_instruction 1, C_instruction (Some ''X'') ''Q'' None, C_instruction None ''Z'' None]\<rparr>) =
    Inl (KeyError (Some ''X''))"
proof -
  let ?self = "new_assembler []\<lparr>intermediary_code :=
      [A_instruction 1, C_instruction (Some ''X'') ''Q'' None, C_instruction None ''Z'' None]\<rparr>"
  have "intermediary_code ?self =
      [A_instruction 1] @ C_instruction (Some ''X'') ''Q'' None # [C_instruction None ''Z'' None]"
    by simp
  from assemble_first_error [OF this] show ?thesis
    by (simp add: table_defs)
qed

text \<open>
  Claim C30.  An address from 32768 up is not rejected: \<^verbatim>\<open>assemble\<close> emits a line of
  more than 16 characters for it and goes on.
\<close>

theorem address_overflow_not_rejected:
  assumes "32768 \<le> a"
  shows "\<exists>line. assemble_step (A_instruction a) acc = Inr (acc @ [line]) \<and> 16 < length line"
  using assms get_binary_string_overflow [of 15 a] by simp

theorem address_overflow_not_rejected_witness:
  "\<exists>line. assemble_step (A_instruction 32768) [] = Inr [line] \<and> 16 < length line"
  using address_overflow_not_rejected [of 32768 "[]"] by simp

end
