(* ===== verification/Decoder.thy ===== *)
theory Decoder
  imports Encoder
begin

text \<open>
  The way back from a line of machine code to the instruction it was emitted for.
  The source has no decoder; \<open>decode\<close> is a reference function that reads a line of
  16 characters against the same three tables, and the lemmas show that it inverts
  \<^verbatim>\<open>assemble\<close> on every instruction that is emitted within the 16 characters, so that
  no two such instructions share their machine code.
\<close>

section \<open>Reading a line\<close>

definition inverse_table :: "('k \<times> 'v) list \<Rightarrow> 'v \<rightharpoonup> 'k" where
  "inverse_table t = map_of (map (\<lambda>(k, v). (v, k)) t)"

definition comp_mnemonics :: "(string option \<times> string) list" where
  "comp_mnemonics = filter (\<lambda>(k, v). k \<noteq> None) comp_table"

definition decode :: "string \<Rightarrow> instruction option" where
  "decode line =
     (if length line \<noteq> 16 then None
      else if hd line = CHR ''0'' then Some (A_instruction (int (bin_value (tl line))))
      else if take 3 line = ''111'' then
        (case inverse_table comp_mnemonics (take 7 (drop 3 line)) of
           Some (Some c) \<Rightarrow>
             (case inverse_table dest_table (take 3 (drop 10 line)) of
                Some d \<Rightarrow> map_option (C_instruction d c) (inverse_table jump_table (drop 13 line))
              | None \<Rightarrow> None)
         | _ \<Rightarrow> None)
      else None)"

section \<open>Tables without repeated codes\<close>

lemma inverse_table_Some:
  assumes "distinct (map snd t)" and "map_of t k = Some v"
  shows "inverse_table t v = Some k"
proof -
  from assms(2) have "(v, k) \<in> set (map (\<lambda>(k, v). (v, k)) t)"
    by (force dest: map_of_SomeD)
  moreover have eq: "map fst (map (\<lambda>(k, v). (v, k)) t) = map snd t"
    by (induction t) auto
  have "distinct (map fst (map (\<lambda>(k, v). (v, k)) t))"
    unfolding eq by (rule assms(1))
  ultimately show ?thesis
    unfolding inverse_table_def by (intro map_of_is_SomeI)
qed

lemma distinct_dest_codes: "distinct (map snd dest_table)"
  by (simp add: dest_table_def)

lemma distinct_jump_codes: "distinct (map snd jump_table)"
  by (simp add: jump_table_def)

lemma distinct_comp_codes: "distinct (map snd comp_mnemonics)"
  by (simp add: comp_mnemonics_def comp_table_def)

lemma comp_mnemonics_Some:
  "map_of comp_table (Some c) = Some v \<Longrightarrow> map_of comp_mnemonics (Some c) = Some v"
  unfolding comp_mnemonics_def by (rule map_of_filter_in) simp_all

lemmas inverse_dest = inverse_table_Some [OF distinct_dest_codes]
  and inverse_jump = inverse_table_Some [OF distinct_jump_codes]
  and inverse_comp = inverse_table_Some [OF distinct_comp_codes comp_mnemonics_Some]

section \<open>Decoding what was encoded\<close>

lemma decode_A:
  assumes "0 \<le> a" and "a < 32768"
  shows "decode (''0'' @ get_binary_string a 15) = Some (A_instruction a)"
proof -
  from assms have "bits_of_width 16 (''0'' @ get_binary_string a 15)"
    by (rule encode_A_width)
  then have "length (''0'' @ get_binary_string a 15) = 16"
    by (simp add: bits_of_width_def)
  with assms(1) show ?thesis
    by (simp add: decode_def bin_value_get_binary_string)
qed

lemma decode_C:
  assumes "map_of dest_table d = Some dbits" and "map_of comp_table (Some c) = Some cbits"
    and "map_of jump_table j = Some jbits"
  shows "decode (''111'' @ cbits @ dbits @ jbits) = Some (C_instruction d c j)"
proof -
  from assms have len: "length dbits = 3" "length cbits = 7" "length jbits = 3"
    using dest_table_width comp_table_width jump_table_width
    by (auto simp: bits_of_width_def)
  then have "take 7 (drop 3 (''111'' @ cbits @ dbits @ jbits)) = cbits"
    and "take 3 (drop 10 (''111'' @ cbits @ dbits @ jbits)) = dbits"
    and "drop 13 (''111'' @ cbits @ dbits @ jbits) = jbits"
    by simp_all
  with len show ?thesis
    by (simp add: decode_def inverse_dest [OF assms(1)] inverse_comp [OF assms(2)]
        inverse_jump [OF assms(3)])
qed

lemma decode_encode:
  assumes "encode ins = Inr line" and "in_range ins"
  shows "decode line = Some ins"
proof (cases ins)
  case (A_instruction a)
  with assms show ?thesis
    using decode_A [of a] by auto
next
  case (C_instruction d c j)
  with assms(1) obtain dbits cbits jbits where "map_of dest_table d = Some dbits"
    "map_of comp_table (Some c) = Some cbits" "map_of jump_table j = Some jbits"
    "line = ''111'' @ cbits @ dbits @ jbits"
    by (auto simp: ebind_eq_Inr_iff py_getitem_def split: option.splits)
  with C_instruction show ?thesis
    using decode_C [of d dbits c cbits j jbits] by simp
qed

lemma assemble_step_Inr:
  "assemble_step ins acc = Inr (acc @ [line]) \<longleftrightarrow> encode ins = Inr line"
  by (cases "encode ins") (simp_all add: assemble_step_encode)

section \<open>Properties\<close>

text \<open>
  Claim C9.  The machine code determines the intermediate code: if \<^verbatim>\<open>assemble\<close>
  returns and every address of the intermediate code lies between 0 and 32767, then
  reading back the lines of \<^verbatim>\<open>machine_code\<close> one by one gives the instructions of
  \<^verbatim>\<open>intermediary_code\<close>.
\<close>

theorem decode_machine_code:
  assumes "assemble self = Inr self'" and "list_all in_range (intermediary_code self)"
  shows "map decode (machine_code self') = map Some (intermediary_code self)"
proof (rule nth_equalityI)
  from assms(1) have em: "emap encode (intermediary_code self) = Inr (machine_code self')"
    by (rule assemble_Inr)
  then have len: "length (machine_code self') = length (intermediary_code self)"
    by (rule emap_length)
  then show "length (map decode (machine_code self')) = length (map Some (intermediary_code self))"
    by simp
  fix i assume "i < length (map decode (machine_code self'))"
  with len have i: "i < length (intermediary_code self)"
    by simp
  with em have "encode (intermediary_code self ! i) = Inr (machine_code self' ! i)"
    by (rule emap_nth)
  moreover from assms(2) i have "in_range (intermediary_code self ! i)"
    by (simp add: list_all_length)
  ultimately have "decode (machine_code self' ! i) = Some (intermediary_code self ! i)"
    by (rule decode_encode)
  with i len show "map decode (machine_code self') ! i = map Some (intermediary_code self) ! i"
    by simp
qed

theorem decode_machine_code_witness:
  "\<exists>self'. assemble (new_assembler []\<lparr>intermediary_code :=
       [A_instruction 21, C_instruction (Some ''D'') ''A'' None]\<rparr>) = Inr self' \<and>
     map decode (machine_code self') =
       [Some (A_instruction 21), Some (C_instruction (Some ''D'') ''A'' None)]"
proof -
  let ?self = "new_assembler []\<lparr>intermediary_code :=
      [A_instruction 21, C_instruction (Some ''D'') ''A'' None]\<rparr>"
  have "returns (assemble ?self)"
    by code_simp
  then obtain self' where ret: "assemble ?self = Inr self'"
    by (auto simp: returns_iff)
  have "list_all in_range (intermediary_code ?self)"
    by simp
  from decode_machine_code [OF ret this] ret show ?thesis
    by simp
qed

text \<open>
  Claim C25.  No two instructions share their machine code: if \<^verbatim>\<open>assemble\<close> emits the
  same line for two instructions whose addresses lie between 0 and 32767, they are the
  same instruction.
\<close>

theorem encode_injective:
  assumes "assemble_step ins acc = Inr (acc @ [line])"
    and "assemble_step ins' acc' = Inr (acc' @ [line])"
    and "in_range ins" and "in_range ins'"
  shows "ins = ins'"
proof -
  from assms have "encode ins = Inr line" and "encode ins' = Inr line"
    by (simp_all add: assemble_step_Inr)
  with assms(3,4) have "decode line = Some ins" and "decode line = Some ins'"
    by (auto intro: decode_encode)
  then show ?thesis
    by simp
qed

theorem encode_injective_witness:
  "assemble_step (C_instruction None ''D&A'' None) [] \<noteq>
     assemble_step (C_instruction None ''D&M'' None) []"
proof
  assume eq: "assemble_step (C_instruction None ''D&A'' None) [] =
    assemble_step (C_instruction None ''D&M'' None) []"
  have m: "assemble_step (C_instruction None ''D&M'' None) [] = Inr ([] @ [''1111000000000000''])"
    by code_simp
  with eq have "assemble_step (C_instruction None ''D&A'' None) [] = Inr ([] @ [''1111000000000000''])"
    by simp
  from encode_injective [OF this m] show False
    by simp
qed

end
