(* ===== verification/Pipeline.thy ===== *)
theory Pipeline
  imports Encoder
begin

text \<open>
  The constructor \<^verbatim>\<open>Assembler.__init__\<close> (lines 43 to 55 of \<^verbatim>\<open>src/hack-assemble.py\<close>),
  which runs the five methods in their order on a fresh object, and the two
  statements of the script (lines 223 and 224), without their input and output:
  \<open>main\<close> takes the list that \<^verbatim>\<open>readlines\<close> returned to the text that \<^verbatim>\<open>print\<close>
  is given, or to the exception that ends the run.  The reference functions name what
  the stages compute from the raw lines; the lemmas show that the object the
  constructor returns holds exactly these, and that a parsing error of any line comes
  before an encoding error of any other.
\<close>

section \<open>The constructor and the script\<close>

definition Assembler :: "string list \<Rightarrow> assembler result" where
  "Assembler code =
     (let self = new_assembler code
      in ebind (find_labels (remove_unnecessary self)) (\<lambda>self.
         ebind (build_intermediary (find_variables self)) assemble))"

definition main :: "string list \<Rightarrow> string result" where
  "main lines = ebind (Assembler lines) (\<lambda>asm. Inr (get_machine_code asm))"

section \<open>Reference functions\<close>

definition program :: "string list \<Rightarrow> string list" where
  "program code = instructions (normalize code)"

definition labels_of :: "string list \<Rightarrow> (string \<rightharpoonup> int)" where
  "labels_of code = label_scan (normalize code) 0 Map.empty"

definition variables_of :: "string list \<Rightarrow> (string \<rightharpoonup> pyval)" where
  "variables_of code =
     map_of predefined_symbols ++
       allocation 16 (fresh_symbols (map_of predefined_symbols) (labels_of code) (program code))"

text \<open>The object after the three symbol passes, which never raise.\<close>

definition resolved :: "string list \<Rightarrow> assembler" where
  "resolved code =
     \<lparr>assembly_code = program code, intermediary_code = [], machine_code = [],
      labels = labels_of code, variables = variables_of code\<rparr>"

definition parsed :: "string list \<Rightarrow> instruction list result" where
  "parsed code = emap (parse_line (variables_of code) (labels_of code)) (program code)"

definition fresh_of :: "string list \<Rightarrow> string list" where
  "fresh_of code = fresh_symbols (map_of predefined_symbols) (labels_of code) (program code)"

text \<open>
  The statements that do not end the run: a number that is not shadowed by a label is
  written in ASCII digits, no more of them than \<^verbatim>\<open>int\<close> accepts, and the three fields of
  a compute instruction are keys of their tables.  A program is \<open>word_sized\<close> when every address it mentions fits the 15
  bits of an address instruction.
\<close>

definition literal_ok :: "(string \<rightharpoonup> int) \<Rightarrow> string \<Rightarrow> bool" where
  "literal_ok labs l \<longleftrightarrow>
     (py_startswith l ''@'' \<and> py_isdigit (tl l) \<and> labs (tl l) = None \<longrightarrow>
        list_all is_ascii_digit (tl l) \<and> int (length (tl l)) \<le> int_max_str_digits)"

definition statement_ok :: "(string \<rightharpoonup> int) \<Rightarrow> string \<Rightarrow> bool" where
  "statement_ok labs l \<longleftrightarrow>
     literal_ok labs l \<and> (\<not> py_startswith l ''@'' \<longrightarrow> encodable (hd (parse_c l)))"

definition word_sized :: "string list \<Rightarrow> bool" where
  "word_sized code \<longleftrightarrow>
     length (program code) < 32768 \<and> length (fresh_of code) \<le> 32752 \<and>
     (\<forall>l \<in> set (program code).
        py_startswith l ''@'' \<and> py_isdigit (tl l) \<and> labels_of code (tl l) = None \<longrightarrow>
          dec_value (tl l) < 32768)"

lemmas [asm_defs] = Assembler_def main_def program_def labels_of_def variables_of_def parsed_def
  fresh_of_def literal_ok_def statement_ok_def word_sized_def resolved_def

section \<open>The stages in sequence\<close>

lemma resolved_state:
  "ebind (find_labels (remove_unnecessary (new_assembler code))) (\<lambda>self. Inr (find_variables self)) =
     Inr \<lparr>assembly_code = program code, intermediary_code = [], machine_code = [],
          labels = labels_of code, variables = variables_of code\<rparr>"
  by (simp add: find_labels_eq find_variables_def fold_variable_step program_def labels_of_def
      variables_of_def new_assembler_def)

lemma Assembler_eq:
  "Assembler code =
     ebind (parsed code) (\<lambda>ins. ebind (emap encode ins) (\<lambda>m.
       Inr \<lparr>assembly_code = program code, intermediary_code = ins, machine_code = m,
            labels = labels_of code, variables = variables_of code\<rparr>))"
proof -
  have "Assembler code =
      ebind (ebind (find_labels (remove_unnecessary (new_assembler code)))
        (\<lambda>self. Inr (find_variables self))) (\<lambda>self. ebind (build_intermediary self) assemble)"
    by (simp add: Assembler_def ebind_assoc)
  also have "\<dots> = ebind (build_intermediary \<lparr>assembly_code = program code,
      intermediary_code = [], machine_code = [], labels = labels_of code,
      variables = variables_of code\<rparr>) assemble"
    by (simp only: resolved_state ebind_Inr)
  finally show ?thesis
    by (simp add: build_intermediary_emap assemble_emap ebind_assoc parsed_def)
qed

lemma resolved_simps [simp]:
  "assembly_code (resolved code) = program code" "intermediary_code (resolved code) = []"
  "machine_code (resolved code) = []" "labels (resolved code) = labels_of code"
  "variables (resolved code) = variables_of code"
  by (simp_all add: resolved_def)

lemma Assembler_Inr:
  assumes "Assembler code = Inr asm"
  shows "assembly_code asm = program code" and "labels asm = labels_of code"
    and "variables asm = variables_of code"
    and "parsed code = Inr (intermediary_code asm)"
    and "emap encode (intermediary_code asm) = Inr (machine_code asm)"
  using assms by (auto simp: Assembler_eq ebind_eq_Inr_iff)

lemma Assembler_lengths:
  assumes "Assembler code = Inr asm"
  shows "length (intermediary_code asm) = length (program code)"
    and "length (machine_code asm) = length (program code)"
proof -
  show *: "length (intermediary_code asm) = length (program code)"
    using Assembler_Inr(4) [OF assms] by (auto simp: parsed_def dest: emap_length)
  show "length (machine_code asm) = length (program code)"
    using Assembler_Inr(5) [OF assms] * by (auto dest: emap_length)
qed

section \<open>What the tables hold after the resolver\<close>

lemma variables_of_fresh: "variables_of code = map_of predefined_symbols ++ allocation 16 (fresh_of code)"
  by (simp add: variables_of_def fresh_of_def)

lemma predefined_not_digit:
  "list_all (\<lambda>(k, v). \<not> py_isdigit k) predefined_symbols"
  by (simp add: predefined_symbols_def py_isdigit_def is_digit_char_def is_ascii_digit_def)

lemma predefined_isdigit_None: "py_isdigit k \<Longrightarrow> map_of predefined_symbols k = None"
proof (cases "map_of predefined_symbols k")
  case None
  then show ?thesis .
next
  case (Some v)
  assume "py_isdigit k"
  moreover from Some have "(k, v) \<in> set predefined_symbols"
    by (rule map_of_SomeD)
  ultimately show ?thesis
    using predefined_not_digit by (auto simp: list_all_iff)
qed

lemma variables_of_isdigit_None: "py_isdigit k \<Longrightarrow> variables_of code k = None"
proof -
  assume k: "py_isdigit k"
  then have "k \<notin> set (fresh_of code)"
    unfolding fresh_of_def using fresh_symbols_unbound by blast
  then have "allocation 16 (fresh_of code) k = None"
    using dom_allocation by blast
  with k show ?thesis
    by (simp add: variables_of_fresh map_add_def predefined_isdigit_None)
qed

lemma variables_of_predefined:
  assumes "map_of predefined_symbols k = Some v"
  shows "variables_of code k = Some v"
proof -
  have "k \<notin> set (fresh_of code)"
    unfolding fresh_of_def using assms fresh_symbols_unbound by fastforce
  then have "allocation 16 (fresh_of code) k = None"
    using dom_allocation by blast
  with assms show ?thesis
    by (simp add: variables_of_fresh map_add_def)
qed

lemma variables_of_value:
  assumes "variables_of code k = Some v"
  shows "\<exists>n. py_int_of v = Inr n \<and> 0 \<le> n \<and> n < max 32768 (16 + int (length (fresh_of code)))"
proof (cases "allocation 16 (fresh_of code) k")
  case None
  with assms have "map_of predefined_symbols k = Some v"
    by (simp add: variables_of_fresh map_add_def)
  then show ?thesis
    using predefined_symbols_value by fastforce
next
  case (Some w)
  with assms have "w = v"
    by (simp add: variables_of_fresh map_add_def)
  with Some show ?thesis
    using allocation_range [of 16 "fresh_of code" k v] by auto
qed

lemma labels_of_range:
  "labels_of code x = Some a \<Longrightarrow> 0 \<le> a \<and> a \<le> int (length (program code))"
  using label_scan_range [of "normalize code" 0 Map.empty x a]
  by (simp add: labels_of_def program_def)

lemma program_resolvable:
  assumes "l \<in> set (program code)"
  shows "resolvable (variables_of code) (labels_of code) l"
proof -
  let ?self = "\<lparr>assembly_code = program code, intermediary_code = [], machine_code = [],
    labels = labels_of code, variables = map_of predefined_symbols\<rparr>"
  have "variables (find_variables ?self) = variables_of code"
    by (simp add: variables_find_variables variables_of_def)
  with find_variables_resolvable [of l ?self] assms show ?thesis
    by simp
qed

section \<open>Which programs assemble\<close>

lemma resolve_address_returns_iff:
  assumes "l \<in> set (program code)" and "py_startswith l ''@''"
  shows "returns (resolve_address (variables_of code) (labels_of code) l) \<longleftrightarrow>
     literal_ok (labels_of code) l"
proof (cases "variables_of code (tl l)")
  case (Some v)
  then have "\<not> py_isdigit (tl l)"
    using variables_of_isdigit_None by fastforce
  moreover from Some have "returns (py_int_of v)"
    using variables_of_value returns_iff by blast
  ultimately show ?thesis
    using Some by (simp add: resolve_address_variable literal_ok_def)
next
  case None
  show ?thesis
  proof (cases "labels_of code (tl l)")
    case (Some a)
    with None show ?thesis
      by (simp add: resolve_address_label literal_ok_def)
  next
    case lab: None
    with None assms have "py_isdigit (tl l)"
      using program_resolvable [of l code] by (simp add: resolvable_def)
    with None lab assms(2) show ?thesis
      by (simp add: resolve_address_literal literal_ok_def py_int_isdigit)
  qed
qed

lemma parse_line_returns_iff:
  assumes "l \<in> set (program code)"
  shows "returns (parse_line (variables_of code) (labels_of code) l) \<longleftrightarrow>
     literal_ok (labels_of code) l"
proof (cases "py_startswith l ''@''")
  case True
  with resolve_address_returns_iff [OF assms] show ?thesis
    by (cases "resolve_address (variables_of code) (labels_of code) l")
      (simp_all add: parse_line_def)
next
  case False
  then show ?thesis
    by (simp add: parse_line_def literal_ok_def)
qed

lemma parsed_returns_iff:
  "returns (parsed code) \<longleftrightarrow> list_all (literal_ok (labels_of code)) (program code)"
  by (simp add: parsed_def returns_emap_iff list_all_iff parse_line_returns_iff)

lemma parsed_nth:
  assumes "parsed code = Inr ins" and "i < length (program code)"
  shows "parse_line (variables_of code) (labels_of code) (program code ! i) = Inr (ins ! i)"
  using assms unfolding parsed_def by (rule emap_nth)

lemma parsed_encodable:
  assumes "parsed code = Inr ins"
  shows "list_all encodable ins \<longleftrightarrow>
     (\<forall>l \<in> set (program code). \<not> py_startswith l ''@'' \<longrightarrow> encodable (hd (parse_c l)))"
proof -
  from assms have len: "length ins = length (program code)"
    unfolding parsed_def by (rule emap_length)
  have *: "encodable (ins ! i) \<longleftrightarrow>
      (\<not> py_startswith (program code ! i) ''@'' \<longrightarrow> encodable (hd (parse_c (program code ! i))))"
    if "i < length (program code)" for i
    using parsed_nth [OF assms that]
    by (cases "ins ! i") (auto simp: parse_line_def ebind_eq_Inr_iff split: if_splits)
  show ?thesis
    unfolding list_all_length all_set_conv_all_nth len using * by blast
qed

lemma main_returns:
  "returns (main code) \<longleftrightarrow> returns (parsed code) \<and>
     (\<forall>ins. parsed code = Inr ins \<longrightarrow> list_all encodable ins)"
  by (cases "parsed code")
    (simp_all add: main_def Assembler_eq returns_ebind returns_iff [symmetric]
      returns_emap_iff encode_returns_iff list_all_iff ebind_assoc)

section \<open>Addresses and errors of a run\<close>

lemma py_int_error: "py_int s = Inl e \<Longrightarrow> e = ValueError s"
  by (simp add: py_int_def Let_def split: if_splits)

lemma py_int_of_error: "py_int_of v = Inl e \<Longrightarrow> \<exists>s. e = ValueError s"
  by (cases v) (auto dest: py_int_error)

lemma parse_line_error: "parse_line vars labs l = Inl e \<Longrightarrow> \<exists>s. e = ValueError s"
  by (auto simp: parse_line_def resolve_address_def ebind_eq_Inl_iff Let_def
      split: if_splits option.splits dest: py_int_error py_int_of_error)

lemma encode_error: "encode ins = Inl e \<Longrightarrow> \<exists>k. e = KeyError k"
proof (cases ins)
  case (A_instruction a)
  then show ?thesis if "encode ins = Inl e"
    using that by simp
next
  case (C_instruction d c j)
  then show ?thesis if "encode ins = Inl e"
    using that encode_C_error [of d c j e] by auto
qed

lemma parse_line_in_range:
  assumes "l \<in> set (program code)" and "word_sized code"
    and "parse_line (variables_of code) (labels_of code) l = Inr ins"
  shows "in_range ins"
  using assms(3)
proof (cases rule: parse_line_Inr_cases)
  case (compute d c j)
  then show ?thesis by simp
next
  case (variable v a)
  with variables_of_value [of code "tl l" v] assms(2) show ?thesis
    by (auto simp: word_sized_def)
next
  case (label a)
  with labels_of_range [of code "tl l" a] assms(2) show ?thesis
    by (auto simp: word_sized_def)
next
  case (literal a)
  with assms(1) have dig: "py_isdigit (tl l)"
    using program_resolvable [of l code] by (simp add: resolvable_def)
  with literal have "int (dec_value (tl l)) = a"
    by (auto simp: py_int_isdigit split: if_splits)
  moreover from assms(1,2) literal dig have "dec_value (tl l) < 32768"
    by (auto simp: word_sized_def)
  ultimately show ?thesis
    using literal by auto
qed

lemma strip_line_remove_ws: "strip_line (remove_ws l) = strip_line l"
  by (simp add: strip_line_def)

lemma normalize_remove_ws: "normalize (map remove_ws code) = normalize code"
  by (simp add: normalize_def strip_line_remove_ws o_def)

lemma main_cong_normalize: "normalize code = normalize code' \<Longrightarrow> main code = main code'"
  by (simp add: main_def Assembler_eq parsed_def variables_of_def labels_of_def program_def)

section \<open>The lines of a run that returns\<close>

lemma machine_code_nth:
  assumes "Assembler code = Inr asm" and "i < length (program code)"
  shows "parse_line (variables_of code) (labels_of code) (program code ! i) =
      Inr (intermediary_code asm ! i)"
    and "encode (intermediary_code asm ! i) = Inr (machine_code asm ! i)"
proof -
  note ret = Assembler_Inr [OF assms(1)]
  from ret(4) assms(2) show "parse_line (variables_of code) (labels_of code) (program code ! i) =
      Inr (intermediary_code asm ! i)"
    by (rule parsed_nth)
  from assms(2) have "i < length (intermediary_code asm)"
    using Assembler_lengths(1) [OF assms(1)] by simp
  with ret(5) show "encode (intermediary_code asm ! i) = Inr (machine_code asm ! i)"
    by (rule emap_nth)
qed

lemma intermediary_in_range:
  assumes "Assembler code = Inr asm" and "word_sized code"
  shows "list_all in_range (intermediary_code asm)"
proof -
  have "in_range (intermediary_code asm ! i)" if "i < length (intermediary_code asm)" for i
  proof -
    from that have i: "i < length (program code)"
      using Assembler_lengths(1) [OF assms(1)] by simp
    then have "program code ! i \<in> set (program code)"
      by simp
    then show ?thesis
      using assms(2) machine_code_nth(1) [OF assms(1) i] by (rule parse_line_in_range)
  qed
  then show ?thesis
    by (simp add: list_all_length)
qed

lemma machine_code_no_newline:
  assumes "Assembler code = Inr asm" and "l \<in> set (machine_code asm)"
  shows "CHR ''\<newline>'' \<notin> set l"
proof -
  from assms(2) obtain i where "i < length (machine_code asm)" "machine_code asm ! i = l"
    by (auto simp: in_set_conv_nth)
  then have "encode (intermediary_code asm ! i) = Inr l"
    using machine_code_nth(2) [OF assms(1), of i] Assembler_lengths(2) [OF assms(1)] by simp
  then show ?thesis
    by (rule encode_no_newline)
qed

lemma split_lines_machine_code:
  assumes "Assembler code = Inr asm" and "program code \<noteq> []"
  shows "split_lines (get_machine_code asm) = machine_code asm"
proof -
  from assms(2) have "machine_code asm \<noteq> []"
    using Assembler_lengths(2) [OF assms(1)] by auto
  then show ?thesis
    using machine_code_no_newline [OF assms(1)]
    by (simp add: get_machine_code_def split_lines_join)
qed

lemma main_Inr:
  "main code = Inr out \<longleftrightarrow> (\<exists>asm. Assembler code = Inr asm \<and> out = get_machine_code asm)"
  by (auto simp: main_def ebind_eq_Inr_iff)

text \<open>The three ways in which the constructor ends.\<close>

lemma Assembler_cases [case_names value_error key_error returns]:
  obtains s where "parsed code = Inl (ValueError s)" "Assembler code = Inl (ValueError s)"
  | ins k where "parsed code = Inr ins" "emap encode ins = Inl (KeyError k)"
      "Assembler code = Inl (KeyError k)"
  | ins ms where "parsed code = Inr ins" "emap encode ins = Inr ms"
      "Assembler code = Inr (resolved code\<lparr>intermediary_code := ins, machine_code := ms\<rparr>)"
proof (cases "parsed code")
  case (Inl e)
  then obtain l where "parse_line (variables_of code) (labels_of code) l = Inl e"
    unfolding parsed_def by (auto simp: emap_eq_Inl_iff)
  then obtain s where "e = ValueError s"
    by (auto dest: parse_line_error)
  with Inl that(1) show ?thesis
    by (simp add: Assembler_eq)
next
  case (Inr ins)
  show ?thesis
  proof (cases "emap encode ins")
    case (Inl e)
    then obtain i where "encode i = Inl e"
      by (auto simp: emap_eq_Inl_iff)
    then obtain k where "e = KeyError k"
      by (auto dest: encode_error)
    with Inl Inr that(2) show ?thesis
      by (simp add: Assembler_eq)
  next
    case m: (Inr ms)
    with Inr that(3) show ?thesis
      by (simp add: Assembler_eq resolved_def)
  qed
qed

end
