(* ===== verification/Phases.thy ===== *)
theory Phases
  imports Pipeline
begin

text \<open>
  The constructor as a state machine.  \<^verbatim>\<open>Assembler.__init__\<close> calls the five methods
  one after the other on the same object (lines 51 to 55 of
  \<^verbatim>\<open>src/hack-assemble.py\<close>); a configuration is the object together with the number of
  calls made so far, a step is one call that returns, and a method that raises leaves
  the machine stuck.  The invariant \<open>phase_inv\<close> says what each call may rely on and
  what it establishes, for any object and not only for the one the constructor made.
  The relation \<open>step\<close> adds no code to the model: it is the constructor of theory
  \<open>Pipeline\<close> seen call by call, and \<open>method_at\<close>, \<open>next_phase\<close> and \<open>exec\<close> are its
  executable form, used to build runs (the last phase has no call; \<open>method_at\<close>
  returns the object there and \<open>step\<close> has no rule for it).  What is specific to the
  assembler is the invariant and which phases can be final.
\<close>

section \<open>Configurations and steps\<close>

datatype phase = Created | Normalized | Labelled | Resolved | Parsed | Assembled

type_synonym config = "phase \<times> assembler"

inductive step :: "config \<Rightarrow> config \<Rightarrow> bool" where
  step_normalize: "step (Created, self) (Normalized, remove_unnecessary self)"
| step_labels: "find_labels self = Inr self' \<Longrightarrow> step (Normalized, self) (Labelled, self')"
| step_variables: "step (Labelled, self) (Resolved, find_variables self)"
| step_intermediary:
    "build_intermediary self = Inr self' \<Longrightarrow> step (Resolved, self) (Parsed, self')"
| step_assemble: "assemble self = Inr self' \<Longrightarrow> step (Parsed, self) (Assembled, self')"

definition run :: "string list \<Rightarrow> config \<Rightarrow> bool" where
  "run code = step\<^sup>*\<^sup>* (Created, new_assembler code)"

fun phase_rank :: "phase \<Rightarrow> nat" where
  "phase_rank Created = 0"
| "phase_rank Normalized = 1"
| "phase_rank Labelled = 2"
| "phase_rank Resolved = 3"
| "phase_rank Parsed = 4"
| "phase_rank Assembled = 5"

text \<open>
  The same machine as functions: the method that is called in a phase, the phase that
  follows, and the configuration after \<open>n\<close> calls, if none of them raised.
\<close>

fun method_at :: "phase \<Rightarrow> assembler \<Rightarrow> assembler result" where
  "method_at Created self = Inr (remove_unnecessary self)"
| "method_at Normalized self = find_labels self"
| "method_at Labelled self = Inr (find_variables self)"
| "method_at Resolved self = build_intermediary self"
| "method_at Parsed self = assemble self"
| "method_at Assembled self = Inr self"

fun next_phase :: "phase \<Rightarrow> phase" where
  "next_phase Created = Normalized"
| "next_phase Normalized = Labelled"
| "next_phase Labelled = Resolved"
| "next_phase Resolved = Parsed"
| "next_phase Parsed = Assembled"
| "next_phase Assembled = Assembled"

fun exec :: "nat \<Rightarrow> config \<Rightarrow> config result" where
  "exec 0 c = Inr c"
| "exec (Suc n) (ph, self) = ebind (method_at ph self) (\<lambda>self'. exec n (next_phase ph, self'))"

text \<open>A configuration is final when no call can be made from it.\<close>

definition final :: "config \<Rightarrow> bool" where
  "final c \<longleftrightarrow> (\<nexists>c'. step c c')"

section \<open>The invariant\<close>

definition lines_wf :: "assembler \<Rightarrow> bool" where
  "lines_wf self \<longleftrightarrow> list_all normal_line (assembly_code self)"

definition labels_wf :: "assembler \<Rightarrow> bool" where
  "labels_wf self \<longleftrightarrow>
     list_all (\<lambda>l. \<not> is_label l) (assembly_code self) \<and>
     (\<forall>x a. labels self x = Some a \<longrightarrow> 0 \<le> a \<and> a \<le> int (length (assembly_code self)))"

definition variables_wf :: "assembler \<Rightarrow> bool" where
  "variables_wf self \<longleftrightarrow>
     (\<forall>k v. map_of predefined_symbols k = Some v \<longrightarrow> variables self k = Some v) \<and>
     (\<forall>k v. variables self k = Some v \<longrightarrow> (\<exists>n. py_int_of v = Inr n \<and> 0 \<le> n)) \<and>
     list_all (resolvable (variables self) (labels self)) (assembly_code self)"

fun nonneg_address :: "instruction \<Rightarrow> bool" where
  "nonneg_address (A_instruction a) = (0 \<le> a)"
| "nonneg_address (C_instruction d c j) = True"

definition intermediary_wf :: "assembler \<Rightarrow> bool" where
  "intermediary_wf self \<longleftrightarrow>
     length (intermediary_code self) = length (assembly_code self) \<and>
     list_all nonneg_address (intermediary_code self)"

definition machine_wf :: "assembler \<Rightarrow> bool" where
  "machine_wf self \<longleftrightarrow>
     length (machine_code self) = length (intermediary_code self) \<and>
     list_all (\<lambda>l. 16 \<le> length l \<and> list_all is_bit l) (machine_code self)"

fun phase_inv :: "phase \<Rightarrow> assembler \<Rightarrow> bool" where
  "phase_inv Created self \<longleftrightarrow>
     labels self = Map.empty \<and> variables self = map_of predefined_symbols \<and>
     intermediary_code self = [] \<and> machine_code self = []"
| "phase_inv Normalized self \<longleftrightarrow>
     lines_wf self \<and> labels self = Map.empty \<and> variables self = map_of predefined_symbols \<and>
     intermediary_code self = [] \<and> machine_code self = []"
| "phase_inv Labelled self \<longleftrightarrow>
     lines_wf self \<and> labels_wf self \<and> variables self = map_of predefined_symbols \<and>
     intermediary_code self = [] \<and> machine_code self = []"
| "phase_inv Resolved self \<longleftrightarrow>
     lines_wf self \<and> labels_wf self \<and> variables_wf self \<and>
     intermediary_code self = [] \<and> machine_code self = []"
| "phase_inv Parsed self \<longleftrightarrow>
     lines_wf self \<and> labels_wf self \<and> variables_wf self \<and> intermediary_wf self \<and>
     machine_code self = []"
| "phase_inv Assembled self \<longleftrightarrow>
     lines_wf self \<and> labels_wf self \<and> variables_wf self \<and> intermediary_wf self \<and>
     machine_wf self"

inductive_cases step_CreatedE [elim!]: "step (Created, self) c"
inductive_cases step_NormalizedE [elim!]: "step (Normalized, self) c"
inductive_cases step_LabelledE [elim!]: "step (Labelled, self) c"
inductive_cases step_ResolvedE [elim!]: "step (Resolved, self) c"
inductive_cases step_ParsedE [elim!]: "step (Parsed, self) c"
inductive_cases step_AssembledE [elim!]: "step (Assembled, self) c"

lemmas phase_wf_defs = lines_wf_def labels_wf_def variables_wf_def intermediary_wf_def
  machine_wf_def

section \<open>What each call establishes\<close>

lemma remove_unnecessary_inv:
  "phase_inv Created self \<Longrightarrow> phase_inv Normalized (remove_unnecessary self)"
  by (simp add: lines_wf_def list_all_iff normalize_normal)

lemma find_labels_inv:
  assumes "phase_inv Normalized self" and "find_labels self = Inr self'"
  shows "phase_inv Labelled self'"
proof -
  from assms(2) have eq: "self' = self\<lparr>labels := label_scan (assembly_code self) 0 (labels self),
      assembly_code := instructions (assembly_code self)\<rparr>"
    by (simp add: find_labels_eq)
  from assms(1) have "lines_wf self'"
    by (simp add: eq lines_wf_def list_all_iff instructions_def)
  moreover have "0 \<le> a \<and> a \<le> int (length (assembly_code self'))" if "labels self' x = Some a" for x a
    using that assms(1) label_scan_range [of "assembly_code self" 0 Map.empty x a]
    by (simp add: eq)
  then have "labels_wf self'"
    by (simp add: labels_wf_def eq list_all_iff instructions_def)
  ultimately show ?thesis
    using assms(1) by (simp add: eq)
qed

lemma find_variables_inv:
  assumes "phase_inv Labelled self"
  shows "phase_inv Resolved (find_variables self)"
proof -
  let ?fresh = "fresh_symbols (variables self) (labels self) (assembly_code self)"
  have pre: "variables (find_variables self) k = Some v" if "map_of predefined_symbols k = Some v" for k v
    using that assms by (intro find_variables_preserves) simp
  have val: "\<exists>n. py_int_of v = Inr n \<and> 0 \<le> n" if "variables (find_variables self) k = Some v" for k v
  proof (cases "allocation 16 ?fresh k")
    case None
    with that assms have "map_of predefined_symbols k = Some v"
      by (simp add: variables_find_variables map_add_def)
    then show ?thesis
      using predefined_symbols_value by blast
  next
    case (Some w)
    with that have "allocation 16 ?fresh k = Some v"
      by (simp add: variables_find_variables map_add_def)
    then show ?thesis
      using allocation_range by fastforce
  qed
  have "list_all (resolvable (variables (find_variables self)) (labels (find_variables self)))
      (assembly_code (find_variables self))"
    by (simp add: list_all_iff find_variables_resolvable)
  with pre val have "variables_wf (find_variables self)"
    unfolding variables_wf_def by blast
  with assms show ?thesis
    by (simp add: lines_wf_def labels_wf_def)
qed

lemma parse_line_nonneg:
  assumes "parse_line vars labs l = Inr ins" and "resolvable vars labs l"
    and "\<And>k v. vars k = Some v \<Longrightarrow> \<exists>n. py_int_of v = Inr n \<and> 0 \<le> n"
    and "\<And>x a. labs x = Some a \<Longrightarrow> 0 \<le> a"
  shows "nonneg_address ins"
  using assms(1)
proof (cases rule: parse_line_Inr_cases)
  case (compute d c j)
  then show ?thesis by simp
next
  case (variable v a)
  with assms(3) [of "tl l" v] show ?thesis
    by auto
next
  case (label a)
  with assms(4) [of "tl l" a] show ?thesis
    by simp
next
  case (literal a)
  with assms(2) have "py_isdigit (tl l)"
    by (simp add: resolvable_def)
  with literal show ?thesis
    by (auto dest: py_int_isdigit_nonneg)
qed

lemma build_intermediary_inv:
  assumes "phase_inv Resolved self" and "build_intermediary self = Inr self'"
  shows "phase_inv Parsed self'"
proof -
  from assms(2) have eq: "self' = self\<lparr>intermediary_code := intermediary_code self'\<rparr>"
    and em: "emap (parse_line (variables self) (labels self)) (assembly_code self) =
      Inr (intermediary_code self')"
    by (rule build_intermediary_Inr)+
  from eq have frame: "assembly_code self' = assembly_code self" "labels self' = labels self"
    "variables self' = variables self" "machine_code self' = machine_code self"
    by (metis assembler.select_convs assembler.surjective assembler.update_convs)+
  have "nonneg_address (intermediary_code self' ! i)" if "i < length (intermediary_code self')" for i
  proof -
    from that have i: "i < length (assembly_code self)"
      using emap_length [OF em] by simp
    with em have "parse_line (variables self) (labels self) (assembly_code self ! i) =
        Inr (intermediary_code self' ! i)"
      by (rule emap_nth)
    moreover from assms(1) i have "resolvable (variables self) (labels self) (assembly_code self ! i)"
      by (simp add: variables_wf_def list_all_length)
    ultimately show ?thesis
    proof (rule parse_line_nonneg)
      fix k v assume "variables self k = Some v"
      with assms(1) show "\<exists>n. py_int_of v = Inr n \<and> 0 \<le> n"
        by (auto simp: variables_wf_def)
    next
      fix x a assume "labels self x = Some a"
      with assms(1) show "0 \<le> a"
        by (auto simp: labels_wf_def)
    qed
  qed
  then have "intermediary_wf self'"
    using emap_length [OF em] by (simp add: intermediary_wf_def frame list_all_length)
  with assms(1) show ?thesis
    by (simp add: phase_wf_defs frame)
qed

lemma encode_nonneg_bits:
  assumes "encode ins = Inr line" and "nonneg_address ins"
  shows "16 \<le> length line \<and> list_all is_bit line"
proof (cases ins)
  case (A_instruction a)
  with assms show ?thesis
    by (auto simp: get_binary_string_bits length_get_binary_string is_bit_def)
next
  case (C_instruction d c j)
  with assms(1) have "bits_of_width 16 line"
    by (intro encode_width [of ins]) simp_all
  then show ?thesis
    by (simp add: bits_of_width_def)
qed

lemma assemble_inv:
  assumes "phase_inv Parsed self" and "assemble self = Inr self'"
  shows "phase_inv Assembled self'"
proof -
  from assms(2) have eq: "self' = self\<lparr>machine_code := machine_code self'\<rparr>"
    and em: "emap encode (intermediary_code self) = Inr (machine_code self')"
    by (rule assemble_Inr)+
  from eq have frame: "assembly_code self' = assembly_code self" "labels self' = labels self"
    "variables self' = variables self" "intermediary_code self' = intermediary_code self"
    by (metis assembler.select_convs assembler.surjective assembler.update_convs)+
  have "16 \<le> length (machine_code self' ! i) \<and> list_all is_bit (machine_code self' ! i)"
    if "i < length (machine_code self')" for i
  proof -
    from that have i: "i < length (intermediary_code self)"
      using emap_length [OF em] by simp
    with em have "encode (intermediary_code self ! i) = Inr (machine_code self' ! i)"
      by (rule emap_nth)
    moreover from assms(1) i have "nonneg_address (intermediary_code self ! i)"
      by (simp add: intermediary_wf_def list_all_length)
    ultimately show ?thesis
      by (rule encode_nonneg_bits)
  qed
  then have "machine_wf self'"
    using emap_length [OF em] by (simp add: machine_wf_def frame list_all_length)
  with assms(1) show ?thesis
    by (simp add: phase_wf_defs frame)
qed

section \<open>Steps as function calls\<close>

lemma step_iff:
  "step (ph, self) (ph', self') \<longleftrightarrow>
     ph \<noteq> Assembled \<and> ph' = next_phase ph \<and> method_at ph self = Inr self'"
  by (cases ph) (auto intro: step.intros)

lemma step_rank: "step (ph, self) (ph', self') \<Longrightarrow> phase_rank ph' = Suc (phase_rank ph)"
  by (cases ph) auto

lemma step_inv:
  assumes "step (ph, self) (ph', self')" and "phase_inv ph self"
  shows "phase_inv ph' self'"
  using assms
  by (cases ph)
    (auto intro: remove_unnecessary_inv find_labels_inv find_variables_inv
      build_intermediary_inv assemble_inv simp del: phase_inv.simps)

lemma exec_rank:
  "exec n (ph, self) = Inr (ph', self') \<Longrightarrow> phase_rank ph + n \<le> 5 \<Longrightarrow>
     phase_rank ph' = phase_rank ph + n"
proof (induction n arbitrary: ph self)
  case 0
  then show ?case by simp
next
  case (Suc n)
  from Suc.prems(1) obtain s where "method_at ph self = Inr s" "exec n (next_phase ph, s) = Inr (ph', self')"
    by (auto simp: ebind_eq_Inr_iff)
  with Suc.prems(2) Suc.IH [of "next_phase ph" s] show ?case
    by (cases ph) simp_all
qed

lemma steps_exec:
  assumes "step\<^sup>*\<^sup>* c c'"
  shows "\<exists>n. phase_rank (fst c) + n \<le> 5 \<and> exec n c = Inr c'"
  using assms
proof (induction rule: converse_rtranclp_induct)
  case base
  have "phase_rank (fst c') + 0 \<le> 5 \<and> exec 0 c' = Inr c'"
    by (cases "fst c'") simp_all
  then show ?case ..
next
  case (step c c1)
  then obtain n where n: "phase_rank (fst c1) + n \<le> 5" "exec n c1 = Inr c'"
    by blast
  obtain ph self ph1 self1 where c: "c = (ph, self)" "c1 = (ph1, self1)"
    by (cases c; cases c1) auto
  with step.hyps(1) have st: "step (ph, self) (ph1, self1)"
    by simp
  then have "method_at ph self = Inr self1" "ph1 = next_phase ph"
    by (simp_all add: step_iff)
  moreover from st have "phase_rank ph1 = Suc (phase_rank ph)"
    by (rule step_rank)
  ultimately have "method_at ph self = Inr self1" "ph1 = next_phase ph"
    and "phase_rank ph1 = Suc (phase_rank ph)"
    by simp_all
  with n c have "phase_rank (fst c) + Suc n \<le> 5 \<and> exec (Suc n) c = Inr c'"
    by simp
  then show ?case ..
qed

lemma exec_steps:
  "exec n (ph, self) = Inr c' \<Longrightarrow> phase_rank ph + n \<le> 5 \<Longrightarrow> step\<^sup>*\<^sup>* (ph, self) c'"
proof (induction n arbitrary: ph self)
  case 0
  then show ?case by simp
next
  case (Suc n)
  from Suc.prems(1) obtain s where s: "method_at ph self = Inr s"
    "exec n (next_phase ph, s) = Inr c'"
    by (auto simp: ebind_eq_Inr_iff)
  from Suc.prems(2) have ph: "ph \<noteq> Assembled" "phase_rank (next_phase ph) + n \<le> 5"
    by (cases ph; simp)+
  with s have "step (ph, self) (next_phase ph, s)"
    by (simp add: step_iff)
  moreover from s(2) ph(2) have "step\<^sup>*\<^sup>* (next_phase ph, s) c'"
    by (rule Suc.IH)
  ultimately show ?case
    by (rule converse_rtranclp_into_rtranclp)
qed

lemma run_iff_exec:
  "run code (ph, self) \<longleftrightarrow>
     exec (phase_rank ph) (Created, new_assembler code) = Inr (ph, self)"
proof
  assume "run code (ph, self)"
  then obtain n where n: "n \<le> 5" "exec n (Created, new_assembler code) = Inr (ph, self)"
    unfolding run_def by (auto dest: steps_exec)
  then have "phase_rank ph = n"
    using exec_rank [of n Created "new_assembler code" ph self] by simp
  with n show "exec (phase_rank ph) (Created, new_assembler code) = Inr (ph, self)"
    by simp
next
  assume "exec (phase_rank ph) (Created, new_assembler code) = Inr (ph, self)"
  then show "run code (ph, self)"
    unfolding run_def by (rule exec_steps) (cases ph; simp)
qed

lemma exec_Assembler:
  "exec 5 (Created, new_assembler code) =
     ebind (Assembler code) (\<lambda>asm. Inr (Assembled, asm))"
  by (simp add: Assembler_def eval_nat_numeral ebind_assoc)

lemma find_labels_returns: "returns (find_labels self)"
  by (simp add: find_labels_eq)

lemma steps_inv:
  assumes "step\<^sup>*\<^sup>* c c'" and "phase_inv (fst c) (snd c)"
  shows "phase_inv (fst c') (snd c')"
  using assms
proof (induction rule: rtranclp_induct)
  case base
  then show ?case .
next
  case (step c' c'')
  then show ?case
    using step_inv [of "fst c'" "snd c'" "fst c''" "snd c''"] by simp
qed

lemma run_Assembled: "Assembler code = Inr asm \<Longrightarrow> run code (Assembled, asm)"
  by (simp add: run_iff_exec exec_Assembler)

lemma right_unique_step: "right_unique step"
proof (rule right_uniqueI)
  fix c c' c'' assume "step c c'" and "step c c''"
  moreover obtain ph self ph' self' ph'' self'' where
    "c = (ph, self)" "c' = (ph', self')" "c'' = (ph'', self'')"
    by (metis surj_pair)
  ultimately show "c' = c''"
    by (simp add: step_iff)
qed

lemma final_iff:
  "final (ph, self) \<longleftrightarrow> ph = Assembled \<or> \<not> returns (method_at ph self)"
  by (simp add: final_def step_iff returns_iff)

lemma run_Assembled_iff: "run code (Assembled, asm) \<longleftrightarrow> Assembler code = Inr asm"
  by (cases "Assembler code") (auto simp: run_iff_exec exec_Assembler)

lemma run_Resolved: "run code (Resolved, resolved code)"
proof -
  obtain s2 where "find_labels (remove_unnecessary (new_assembler code)) = Inr s2"
    by (simp add: find_labels_eq)
  with resolved_state [of code] show ?thesis
    by (simp add: run_iff_exec eval_nat_numeral resolved_def)
qed

lemma run_Parsed:
  assumes "parsed code = Inr ins"
  shows "run code (Parsed, resolved code\<lparr>intermediary_code := ins\<rparr>)"
proof -
  from assms have "build_intermediary (resolved code) = Inr (resolved code\<lparr>intermediary_code := ins\<rparr>)"
    by (simp add: build_intermediary_emap parsed_def)
  then have "step (Resolved, resolved code) (Parsed, resolved code\<lparr>intermediary_code := ins\<rparr>)"
    by (rule step_intermediary)
  with run_Resolved [of code] show ?thesis
    unfolding run_def by (rule rtranclp.rtrancl_into_rtrancl)
qed

section \<open>Properties\<close>

text \<open>
  Claim C14.  Every configuration that the constructor reaches satisfies the invariant
  of its phase.
\<close>

theorem run_invariant:
  assumes "run code (ph, self)"
  shows "phase_inv ph self"
  using assms steps_inv [of "(Created, new_assembler code)" "(ph, self)"]
  by (simp add: run_def)

theorem run_invariant_witness:
  "\<exists>self. run [''(A)'', ''@i''] (Resolved, self) \<and> phase_inv Resolved self"
proof -
  let ?code = "[''(A)'', ''@i'']"
  have "\<exists>self. exec 3 (Created, new_assembler ?code) = Inr (Resolved, self)"
    by (simp add: eval_nat_numeral find_labels_eq)
  then obtain self where "run ?code (Resolved, self)"
    by (auto simp: run_iff_exec)
  with run_invariant [of ?code Resolved self] show ?thesis
    by blast
qed

text \<open>
  Claim C32.  The machine is stuck before the last phase only where a method raises,
  and only \<^verbatim>\<open>build_intermediary\<close> and \<^verbatim>\<open>assemble\<close> can raise.
\<close>

theorem stuck_iff_raises:
  "(\<nexists>c'. step (ph, self) c') \<longleftrightarrow>
     ph = Assembled \<or> (ph = Resolved \<and> \<not> returns (build_intermediary self)) \<or>
     (ph = Parsed \<and> \<not> returns (assemble self))"
proof -
  have "(\<exists>c'. step (ph, self) c') \<longleftrightarrow> ph \<noteq> Assembled \<and> returns (method_at ph self)"
    by (simp add: step_iff returns_iff)
  then show ?thesis
    using find_labels_returns [of self] by (cases ph) simp_all
qed

theorem stuck_iff_raises_witness:
  "\<nexists>c'. step (Parsed, new_assembler []\<lparr>intermediary_code := [C_instruction None ''Q'' None]\<rparr>) c'"
proof -
  have "\<not> returns (assemble (new_assembler []\<lparr>intermediary_code := [C_instruction None ''Q'' None]\<rparr>))"
    by code_simp
  then show ?thesis
    using stuck_iff_raises [of Parsed "new_assembler []\<lparr>intermediary_code := [C_instruction None ''Q'' None]\<rparr>"]
    by simp
qed

text \<open>
  Claim C12.  No emitted line holds anything but binary digits, and none is shorter
  than 16 characters: the addresses that reach the encoder are never negative, so
  the sign and the letter of the binary prefix never show.
\<close>

theorem emitted_lines_are_bits:
  assumes "Assembler code = Inr asm"
  shows "list_all (\<lambda>l. 16 \<le> length l \<and> list_all is_bit l) (machine_code asm)"
proof -
  from assms have "step\<^sup>*\<^sup>* (Created, new_assembler code) (Assembled, asm)"
    unfolding run_def [symmetric] by (rule run_Assembled)
  then have "phase_inv (fst (Assembled, asm)) (snd (Assembled, asm))"
    by (rule steps_inv) simp
  then show ?thesis
    by (simp add: machine_wf_def)
qed

theorem emitted_lines_are_bits_witness:
  "\<exists>asm. Assembler [''@i'', ''M=1''] = Inr asm \<and>
     list_all (\<lambda>l. 16 \<le> length l \<and> list_all is_bit l) (machine_code asm)"
proof -
  have "returns (Assembler [''@i'', ''M=1''])"
    by code_simp
  then obtain asm where ret: "Assembler [''@i'', ''M=1''] = Inr asm"
    by (auto simp: returns_iff)
  with emitted_lines_are_bits [OF ret] show ?thesis
    by blast
qed

text \<open>
  Claim C13.  The constructor always comes to an end, and only in one of three ways.
  The first three calls are always made, and they leave the object with the
  instructions, the label table and the variable table of the program.  From there the
  machine reaches a final configuration: the last phase with the object that the
  constructor returns, or the phase before \<^verbatim>\<open>build_intermediary\<close> where that method
  raises a \<open>ValueError\<close>, or the phase before \<^verbatim>\<open>assemble\<close> where that method raises
  a \<open>KeyError\<close>; the constructor raises the same exception.
\<close>

theorem run_ends:
  "\<exists>ph self. run code (ph, self) \<and> final (ph, self) \<and>
     assembly_code self = program code \<and> labels self = labels_of code \<and>
     variables self = variables_of code \<and>
     (ph = Assembled \<and> Assembler code = Inr self \<or>
      ph = Resolved \<and>
        (\<exists>s. build_intermediary self = Inl (ValueError s) \<and> Assembler code = Inl (ValueError s)) \<or>
      ph = Parsed \<and>
        (\<exists>k. assemble self = Inl (KeyError k) \<and> Assembler code = Inl (KeyError k)))"
proof (cases code rule: Assembler_cases)
  case (value_error s)
  then have "build_intermediary (resolved code) = Inl (ValueError s)"
    by (simp add: build_intermediary_emap parsed_def)
  with value_error run_Resolved [of code] show ?thesis
    by (intro exI [of _ Resolved] exI [of _ "resolved code"]) (simp add: final_iff)
next
  case (key_error ins k)
  let ?self = "resolved code\<lparr>intermediary_code := ins\<rparr>"
  from key_error have "assemble ?self = Inl (KeyError k)"
    by (simp add: assemble_emap)
  with key_error run_Parsed [of code ins] show ?thesis
    by (intro exI [of _ Parsed] exI [of _ ?self]) (simp add: final_iff)
next
  case (returns ins ms)
  let ?self = "resolved code\<lparr>intermediary_code := ins, machine_code := ms\<rparr>"
  from returns have "run code (Assembled, ?self)"
    by (intro run_Assembled)
  with returns show ?thesis
    by (intro exI [of _ Assembled] exI [of _ ?self]) (simp add: final_iff)
qed

theorem run_ends_witness:
  "\<exists>self k. run [''D=Q''] (Parsed, self) \<and> final (Parsed, self) \<and>
     assemble self = Inl (KeyError k) \<and> assembly_code self = [''D=Q'']"
proof -
  have "main [''D=Q''] = Inl (KeyError (Some ''Q''))"
    by code_simp
  then have a: "Assembler [''D=Q''] = Inl (KeyError (Some ''Q''))"
    by (cases "Assembler [''D=Q'']") (simp_all add: main_def)
  have p: "program [''D=Q''] = [''D=Q'']"
    by code_simp
  from run_ends [of "[''D=Q'']"] show ?thesis
    unfolding a p by auto
qed

end
