(* ===== verification/Script.thy ===== *)
theory Script
  imports Pipeline
begin

text \<open>
  The two statements at the end of \<^verbatim>\<open>src/hack-assemble.py\<close> (lines 223 and 224) as a
  function from the text on standard input to the text on standard output, or to the
  exception that ends the run: the text is read into lines by \<open>py_readlines\<close>, the
  constructor is run on them, and the joined machine code is written by \<open>py_print\<close>,
  which adds the closing line break.  The stream objects themselves, their encoding
  and their buffering are not part of the model.
\<close>

section \<open>The script\<close>

definition script :: "string \<Rightarrow> string result" where
  "script stdin =
     ebind (Assembler (py_readlines stdin)) (\<lambda>asm. Inr (py_print (get_machine_code asm)))"

lemmas [asm_defs] = script_def

section \<open>Facts about the script\<close>

lemma script_main:
  "script stdin = ebind (main (py_readlines stdin)) (\<lambda>out. Inr (py_print out))"
  by (simp add: script_def main_def ebind_assoc)

lemma main_no_program:
  "program code = [] \<Longrightarrow> main code = Inr []"
  by (simp add: main_def Assembler_eq parsed_def get_machine_code_def)

section \<open>Properties\<close>

text \<open>
  Claim C15.  The output is one line per instruction, each ended by a line break:
  when the script returns for a program with at least one instruction, reading the
  printed text line by line gives the lines of \<^verbatim>\<open>machine_code\<close>, each followed by a
  line break.
\<close>

theorem script_output_lines:
  assumes "script stdin = Inr out" and "program (py_readlines stdin) \<noteq> []"
  shows "\<exists>asm. Assembler (py_readlines stdin) = Inr asm \<and>
    py_readlines out = map (\<lambda>l. l @ ''\<newline>'') (machine_code asm) \<and>
    length (py_readlines out) = length (program (py_readlines stdin))"
proof -
  from assms(1) obtain asm where asm: "Assembler (py_readlines stdin) = Inr asm"
    and out: "out = py_print (get_machine_code asm)"
    by (auto simp: script_def ebind_eq_Inr_iff)
  from assms(2) have "machine_code asm \<noteq> []"
    using Assembler_lengths(2) [OF asm] by auto
  then have "py_readlines out = map (\<lambda>l. l @ ''\<newline>'') (machine_code asm)"
    unfolding out get_machine_code_def
    using machine_code_no_newline [OF asm] by (intro py_readlines_join) simp_all
  with asm Assembler_lengths(2) [OF asm] show ?thesis
    by simp
qed

theorem script_output_lines_witness:
  "script ''@1\<newline>D=A'' = Inr ''0000000000000001\<newline>1110110000010000\<newline>'' \<and>
   length (py_readlines ''0000000000000001\<newline>1110110000010000\<newline>'') = 2"
proof -
  have s: "script ''@1\<newline>D=A'' = Inr ''0000000000000001\<newline>1110110000010000\<newline>''"
    by code_simp
  moreover have "program (py_readlines ''@1\<newline>D=A'') = [''@1'', ''D=A'']"
    by code_simp
  ultimately show ?thesis
    using script_output_lines [OF s] by simp
qed

text \<open>
  Claim C33.  Whitespace other than the line break is insignificant in the input
  text: removing any characters from it changes nothing, as long as line breaks and
  everything that is no whitespace are kept.  In particular a text with carriage
  returns before its line breaks is assembled like the text without them.
\<close>

theorem script_ignores_spaces:
  assumes "P (CHR ''\<newline>'')" and "\<And>c. \<not> is_space c \<Longrightarrow> P c"
  shows "script (filter P stdin) = script stdin"
proof -
  have "normalize (py_readlines (filter P stdin)) = normalize (py_readlines stdin)"
    using assms by (simp add: py_readlines_filter normalize_filter_nonempty normalize_map_filter)
  then have "main (py_readlines (filter P stdin)) = main (py_readlines stdin)"
    by (rule main_cong_normalize)
  then show ?thesis
    by (simp add: script_main)
qed

theorem script_ignores_spaces_witness:
  "script (filter (\<lambda>c. c \<noteq> CHR 0x0D) [CHR ''@'', CHR ''1'', CHR 0x0D, CHR 0x0A, CHR ''D'', CHR ''='', CHR ''A'', CHR 0x0D, CHR 0x0A]) =
   script [CHR ''@'', CHR ''1'', CHR 0x0D, CHR 0x0A, CHR ''D'', CHR ''='', CHR ''A'', CHR 0x0D, CHR 0x0A]"
  by (rule script_ignores_spaces) (auto simp: is_space_def)

text \<open>
  Claim C34.  A text without instructions is answered with one empty line: when
  nothing but blank lines, comments and label declarations is read, the script prints
  a single line break.
\<close>

theorem script_empty_program:
  assumes "program (py_readlines stdin) = []"
  shows "script stdin = Inr ''\<newline>''"
  using assms by (simp add: script_main main_no_program py_print_def)

theorem script_empty_program_witness:
  "script ''// nothing\<newline>(END)\<newline>'' = Inr ''\<newline>'' \<and> script [] = Inr ''\<newline>''"
proof -
  have "program (py_readlines ''// nothing\<newline>(END)\<newline>'') = []" and "program (py_readlines []) = []"
    by code_simp+
  then show ?thesis
    by (simp add: script_empty_program)
qed

end
