(* ===== verification/Spec2Isabelle.thy ===== *)
theory Spec2Isabelle
  imports Decoder Phases Script
begin

text \<open>
  A verification development for the Hack assembler of
  \<^verbatim>\<open>src/hack-assemble.py\<close>: one class, \<^verbatim>\<open>Assembler\<close>, whose constructor runs five
  methods over the lines of an assembly program and leaves the machine code in the
  object, and a two-line script that feeds it standard input and prints the result.

  \<^bold>\<open>The program and its model.\<close>  The object is the record \<open>assembler\<close> (theory
  \<open>Asm_State\<close>) with the five attributes of the source: \<open>assembly_code\<close>,
  \<open>intermediary_code\<close>, \<open>machine_code\<close>, \<open>labels\<close> and \<open>variables\<close>.  A method is a
  function from the record to the record it leaves, or, where the method can raise,
  to a value of \<open>py_error + assembler\<close> (\<open>Inl\<close> the exception).  A \<^verbatim>\<open>for\<close> loop is
  \<open>fold\<close> over the list it runs through, with the loop body as a named function on
  the local variables of the loop; a loop whose body can raise is \<open>efold\<close> of
  \<open>Hack_Prelude\<close>, which stops at the first exception.  Strings are \<open>string\<close>, one
  \<open>char\<close> for one code point below 256; Python integers are \<open>int\<close>; the two
  dictionaries of the object are maps, the four class-level dictionaries are the
  association lists of their literals.  Every definition evaluates by \<open>simp\<close> or
  \<open>code_simp\<close>.

  \<^item> \<open>Hack_Prelude\<close>: the exceptions (\<open>ValueError\<close>, \<open>KeyError\<close>, \<open>IndexError\<close>), the
    result type with \<open>ebind\<close>, the loops \<open>efold\<close> and \<open>emap\<close>, and their laws.
  \<^item> \<open>Py_Builtins\<close>: the builtins the source calls, with Python 3 semantics:
    \<open>remove_ws\<close> (\<^verbatim>\<open>"".join(s.split())\<close>), \<open>py_find\<close>, \<open>py_startswith\<close>, \<open>py_isdigit\<close>,
    \<open>py_slice\<close>, \<open>py_int\<close>, \<open>py_format_b\<close>, \<open>py_del\<close>, \<open>py_sorted_reverse\<close>,
    \<open>py_getitem\<close>, \<open>py_join\<close>; the values \<open>pyval\<close> of the variable table
    (strings for the predefined symbols, integers for allocated variables).
  \<^item> \<open>Hack_Tables\<close>: \<open>comp_table\<close>, \<open>jump_table\<close>, \<open>dest_table\<close>, \<open>predefined_symbols\<close>
    (lines 8 to 37), with the widths of their codes.
  \<^item> \<open>Asm_State\<close>: the record, the datatype \<open>instruction\<close> of the dictionaries that
    the parser builds, and \<open>new_assembler\<close> (lines 44 to 49).
  \<^item> \<open>Normalizer\<close>: \<^verbatim>\<open>remove_unnecessary\<close> (lines 61 to 73) as \<open>strip_line\<close>,
    \<open>remove_step\<close>, \<open>remove_unnecessary\<close>; its contract \<open>normalize\<close>.
  \<^item> \<open>Symbol_Resolver\<close>: \<^verbatim>\<open>find_labels\<close> (lines 83 to 99) as \<open>label_step\<close>,
    \<open>delete_step\<close>, \<open>find_labels\<close>, and \<^verbatim>\<open>find_variables\<close> (lines 105 to 119) as
    \<open>variable_step\<close>, \<open>find_variables\<close>; the reference functions \<open>label_scan\<close>,
    \<open>instructions\<close>, \<open>fresh_symbols\<close> and \<open>allocation\<close>.
  \<^item> \<open>Instruction_Parser\<close>: \<^verbatim>\<open>build_intermediary\<close> (lines 125 to 182) as
    \<open>resolve_address\<close>, \<open>parse_c\<close>, \<open>intermediary_step\<close>, \<open>build_intermediary\<close>; the
    printer \<open>show_c\<close> that \<open>parse_c\<close> inverts.
  \<^item> \<open>Encoder\<close>: \<^verbatim>\<open>assemble\<close> (lines 188 to 205), \<^verbatim>\<open>get_binary_string\<close> (lines 211
    to 214) and \<^verbatim>\<open>get_machine_code\<close> (lines 220 and 221); the per-instruction
    function \<open>encode\<close>.
  \<^item> \<open>Decoder\<close>: the reference function \<open>decode\<close>, which reads a line of machine
    code against the three tables.  The source has no decoder; it is here to state
    that the machine code determines the instruction.
  \<^item> \<open>Pipeline\<close>: the constructor \<open>Assembler\<close> (lines 43 to 55) and the script \<open>main\<close>
    (lines 223 and 224); what the stages compute from the raw lines (\<open>program\<close>,
    \<open>labels_of\<close>, \<open>variables_of\<close>, \<open>parsed\<close>) and which statements are acceptable
    (\<open>statement_ok\<close>, \<open>word_sized\<close>).
  \<^item> \<open>Phases\<close>: the constructor once more, as a state machine: a configuration is
    the object with the number of calls made (\<open>phase\<close>), \<open>step\<close> is one call that
    returns, \<open>method_at\<close> and \<open>next_phase\<close> name the call and its successor, \<open>exec\<close>
    runs a number of calls; \<open>phase_inv\<close> is what each call may rely on and
    establishes.
  \<^item> \<open>Script\<close>: the script with its input and output, \<open>script\<close>, from the text on
    standard input (read by \<open>py_readlines\<close>) to the text that \<open>py_print\<close> writes.
  \<^item> This theory: the properties that span the stages.

  \<^bold>\<open>What is shown.\<close>  Per stage: the loop of the source equals its contract (a map and
  a filter for the normalizer, a filter and a scan for the labels, an allocation in
  order of first occurrence for the variables, one instruction per line for the
  parser, one line per instruction for the encoder); the invariant that the stage
  establishes; its behaviour on every branch, the exceptions included.  Across stages:
  the constructor equals the composition of the contracts; the script returns exactly
  for the programs whose statements are all acceptable, and an error of the parser
  comes before any error of the encoder; every emitted line of a word-sized program is
  16 binary digits, and the digits of an address instruction read back as its
  address, also through the whole run from the decimal numeral of the statement;
  splitting the printed text at the line breaks and decoding each line gives back the
  instructions of the parser, so no two instructions share their code; predefined
  symbols keep their bindings throughout a run; whitespace, blank lines and comments
  never change the result.  For the state machine: every reachable configuration
  satisfies the invariant of its phase, from which every emitted line of every
  program consists of binary digits; the three symbol passes are always made, and the
  run then ends in the last phase with the returned object, or before
  \<^verbatim>\<open>build_intermediary\<close> with its \<open>ValueError\<close>, or before \<^verbatim>\<open>assemble\<close> with its
  \<open>KeyError\<close>, and nowhere else.  For the script: the printed text is the machine code
  with a line break after every line, a text without instructions is answered with
  one empty line, and carriage returns in the input are insignificant.  Three theorems
  record what the source does where a reader might expect otherwise: a predefined
  symbol wins over a label of the same name, a label named with digits shadows the
  number, and an address from 32768 up is emitted as a longer line instead of being
  rejected.  The two example programs of the specification are evaluated at the end
  of this theory, as lemmas.

  That the run terminates is not a theorem of its own: every loop of the source is a
  \<^verbatim>\<open>for\<close> loop over a list that its body does not change, the constructor makes five
  calls, and the model is total by construction, so such a statement would hold of
  any five methods.

  \<^bold>\<open>Bounds and assumptions.\<close>  No fuel is used: every loop of the source runs over a
  finite list and is structurally recursive in the model; \<open>exec\<close> takes the number of
  calls to make, and five are all that the constructor has.  Integers are unbounded, as
  in Python; the 15-bit bound of an address is a hypothesis of the theorems that need
  it (\<open>word_sized\<close>, \<open>in_range\<close>), because the source does not check it.  Characters
  are code points below 256 with the classes of Python 3; a source run under Python 2,
  or fed code points from 256 up, is outside the model.  The builtins are those of
  CPython 3.11 with its defaults: \<^verbatim>\<open>int\<close> refuses a numeral of more than 4300 digits
  (\<open>int_max_str_digits\<close>), which older versions accept and which a changed
  \<^verbatim>\<open>sys.set_int_max_str_digits\<close> or environment would move; \<^verbatim>\<open>readlines\<close> ends a line at
  the line feed only, as a POSIX text stream does, and not at a lone carriage return as
  a stream with universal newlines would.  \<open>main\<close> is the script without \<^verbatim>\<open>readlines\<close>
  and \<^verbatim>\<open>print\<close>, so its text lacks the closing line break that \<open>script\<close> has.

  \<^bold>\<open>Not modelled.\<close>  The stream objects behind \<^verbatim>\<open>sys.stdin\<close> and \<^verbatim>\<open>print\<close>, their
  encoding, buffering and errors: \<open>script\<close> starts from the decoded text and ends with
  the text to be written.  The Hack machine itself: it is neither in the repository
  nor described by the specification, so the tables are verified for the width and
  the distinctness of their codes and not for what the codes make a machine do.  The
  remaining lines of the source are comments, blank lines, the interpreter line and
  the import.
\<close>

section \<open>Properties of the whole run\<close>

text \<open>
  Claim C1.  The script returns its text exactly for the programs in which every
  statement is acceptable: an address instruction whose operand is a number (and not a
  label) must be written in the ASCII digits, at most 4300 of them, and every other
  statement must have a
  destination, a computation and a jump that the three tables know.  In every other
  case the run ends with an exception.
\<close>

theorem main_returns_iff:
  "returns (main code) \<longleftrightarrow> list_all (statement_ok (labels_of code)) (program code)"
proof (cases "parsed code")
  case (Inl e)
  then have "\<not> list_all (literal_ok (labels_of code)) (program code)"
    using parsed_returns_iff [of code] by simp
  with Inl show ?thesis
    by (auto simp: main_returns list_all_iff statement_ok_def)
next
  case (Inr ins)
  then have "list_all (literal_ok (labels_of code)) (program code)"
    using parsed_returns_iff [of code] by simp
  with Inr parsed_encodable [OF Inr] show ?thesis
    by (auto simp: main_returns list_all_iff statement_ok_def)
qed

theorem main_returns_iff_witness:
  "returns (main [''@1'', ''M=D'']) \<and> \<not> returns (main [''@1'', ''M=Q''])"
proof -
  have "list_all (statement_ok (labels_of [''@1'', ''M=D''])) (program [''@1'', ''M=D''])"
    by code_simp
  moreover have "\<not> list_all (statement_ok (labels_of [''@1'', ''M=Q''])) (program [''@1'', ''M=Q''])"
    by code_simp
  ultimately show ?thesis
    using main_returns_iff [of "[''@1'', ''M=D'']"] main_returns_iff [of "[''@1'', ''M=Q'']"]
    by simp
qed

text \<open>
  Claim C2.  Every line that the assembler emits for a word-sized program is exactly
  16 binary digits, and there is one line for every statement of the input that is
  not blank, not a comment and not a label declaration.
\<close>

theorem main_output_format:
  assumes "Assembler code = Inr asm" and "word_sized code"
  shows "list_all (bits_of_width 16) (machine_code asm) \<and>
    length (machine_code asm) = length (filter (\<lambda>l. \<not> is_label l) (normalize code))"
proof -
  have len: "length (intermediary_code asm) = length (program code)"
    and len': "length (machine_code asm) = length (program code)"
    using Assembler_lengths [OF assms(1)] by simp_all
  have "bits_of_width 16 (machine_code asm ! i)" if "i < length (machine_code asm)" for i
  proof -
    from that len' have "encode (intermediary_code asm ! i) = Inr (machine_code asm ! i)"
      by (intro machine_code_nth(2) [OF assms(1)]) simp
    moreover from that len len' have "in_range (intermediary_code asm ! i)"
      using intermediary_in_range [OF assms] by (simp add: list_all_length)
    ultimately show ?thesis
      by (rule encode_width)
  qed
  with len' show ?thesis
    by (simp add: list_all_length program_def instructions_def)
qed

theorem main_output_format_witness:
  "\<exists>asm. Assembler [''@i'', ''M=1 // one'', ''(END)'', ''@END'', ''0;JMP''] = Inr asm \<and>
     list_all (bits_of_width 16) (machine_code asm) \<and> length (machine_code asm) = 4"
proof -
  let ?code = "[''@i'', ''M=1 // one'', ''(END)'', ''@END'', ''0;JMP'']"
  have "returns (Assembler ?code)"
    by code_simp
  then obtain asm where ret: "Assembler ?code = Inr asm"
    by (auto simp: returns_iff)
  have "length (program ?code) = 4" and "length (fresh_of ?code) = 1"
    and "\<forall>l \<in> set (program ?code). \<not> py_isdigit (tl l)"
    by code_simp+
  then have sized: "word_sized ?code"
    by (simp add: word_sized_def)
  have "length (filter (\<lambda>l. \<not> is_label l) (normalize ?code)) = 4"
    by code_simp
  with main_output_format [OF ret sized] ret show ?thesis
    by simp
qed

text \<open>
  Claim C3.  The printed text determines the program: for a word-sized program with
  at least one instruction, reading back every line of the text gives the
  instructions that the parser built, in their order.
\<close>

theorem machine_code_decodes:
  assumes "main code = Inr out" and "word_sized code" and "program code \<noteq> []"
  shows "\<exists>ins. parsed code = Inr ins \<and> map decode (split_lines out) = map Some ins"
proof -
  from assms(1) obtain asm where asm: "Assembler code = Inr asm" and "out = get_machine_code asm"
    by (auto simp: main_Inr)
  with assms(3) have lines: "split_lines out = machine_code asm"
    by (simp add: split_lines_machine_code)
  have "map decode (machine_code asm) = map Some (intermediary_code asm)"
  proof (rule nth_equalityI)
    show "length (map decode (machine_code asm)) = length (map Some (intermediary_code asm))"
      using Assembler_lengths [OF asm] by simp
    fix i assume "i < length (map decode (machine_code asm))"
    then have i: "i < length (program code)"
      using Assembler_lengths(2) [OF asm] by simp
    moreover from i have "in_range (intermediary_code asm ! i)"
      using intermediary_in_range [OF asm assms(2)] Assembler_lengths(1) [OF asm]
      by (simp add: list_all_length)
    ultimately show "map decode (machine_code asm) ! i = map Some (intermediary_code asm) ! i"
      using machine_code_nth(2) [OF asm i] Assembler_lengths [OF asm]
      by (simp add: decode_encode)
  qed
  with lines Assembler_Inr(4) [OF asm] show ?thesis
    by simp
qed

theorem machine_code_decodes_witness:
  "\<exists>out. main [''(LOOP)'', ''@LOOP'', ''0;JMP''] = Inr out \<and>
     map decode (split_lines out) =
       [Some (A_instruction 0), Some (C_instruction None ''0'' (Some ''JMP''))]"
proof -
  let ?code = "[''(LOOP)'', ''@LOOP'', ''0;JMP'']"
  have "returns (main ?code)"
    by code_simp
  then obtain out where ret: "main ?code = Inr out"
    by (auto simp: returns_iff)
  have "length (program ?code) = 2" and "length (fresh_of ?code) = 0"
    and "\<forall>l \<in> set (program ?code). \<not> py_isdigit (tl l)"
    by code_simp+
  then have "word_sized ?code" and "program ?code \<noteq> []"
    by (auto simp: word_sized_def)
  from machine_code_decodes [OF ret this]
  have "\<exists>ins. parsed ?code = Inr ins \<and> map decode (split_lines out) = map Some ins" .
  moreover have "parsed ?code = Inr [A_instruction 0, C_instruction None ''0'' (Some ''JMP'')]"
    by code_simp
  ultimately show ?thesis
    using ret by auto
qed

text \<open>
  Claim C4.  A number survives the whole run: where statement \<open>i\<close> of the program is
  \<^verbatim>\<open>@\<close> followed by the decimal numeral of \<open>n\<close>, with \<open>n\<close> below 32768 and no label
  named by that numeral, line \<open>i\<close> of the machine code is \<^verbatim>\<open>0\<close> followed by 15 binary
  digits that denote \<open>n\<close>.
\<close>

theorem literal_roundtrip:
  assumes "Assembler code = Inr asm" and "i < length (program code)"
    and "program code ! i = CHR ''@'' # dec_digits n"
    and "labels_of code (dec_digits n) = None" and "n < 32768"
  shows "bits_of_width 16 (machine_code asm ! i) \<and> hd (machine_code asm ! i) = CHR ''0'' \<and>
    bin_value (tl (machine_code asm ! i)) = n"
proof -
  note ret = Assembler_Inr [OF assms(1)]
  have "resolve_address (variables_of code) (labels_of code) (CHR ''@'' # dec_digits n) =
      Inr (int n)"
    using assms(4,5)
    by (simp add: resolve_address_literal variables_of_isdigit_None py_int_dec_digits)
  with parsed_nth [OF ret(4) assms(2)] assms(3)
  have ins: "intermediary_code asm ! i = A_instruction (int n)"
    by (simp add: parse_line_def py_startswith_def)
  from assms(2) have "i < length (intermediary_code asm)"
    using Assembler_lengths(1) [OF assms(1)] by simp
  with ret(5) have "encode (intermediary_code asm ! i) = Inr (machine_code asm ! i)"
    by (rule emap_nth)
  with ins have line: "machine_code asm ! i = ''0'' @ get_binary_string (int n) 15"
    by simp
  moreover from assms(5) have "bits_of_width 16 (''0'' @ get_binary_string (int n) 15)"
    by (intro encode_A_width) simp_all
  moreover have "int (bin_value (get_binary_string (int n) 15)) = int n"
    by (rule bin_value_get_binary_string) simp
  ultimately show ?thesis
    by simp
qed

theorem literal_roundtrip_witness:
  "\<exists>asm. Assembler [''D=A'', ''@21''] = Inr asm \<and> bits_of_width 16 (machine_code asm ! 1) \<and>
     bin_value (tl (machine_code asm ! 1)) = 21"
proof -
  let ?code = "[''D=A'', ''@21'']"
  have "returns (Assembler ?code)"
    by code_simp
  then obtain asm where ret: "Assembler ?code = Inr asm"
    by (auto simp: returns_iff)
  have "1 < length (program ?code)" and "program ?code ! 1 = CHR ''@'' # dec_digits 21"
    and "labels_of ?code (dec_digits 21) = None"
    by code_simp+
  from literal_roundtrip [OF ret this] ret show ?thesis
    by simp
qed

text \<open>
  Claim C10.  The predefined symbols keep their bindings for the whole run: in the
  object that the constructor returns, every predefined symbol is bound to the string
  of the table, whatever the program declares or uses.
\<close>

theorem predefined_symbols_immutable:
  assumes "Assembler code = Inr asm" and "map_of predefined_symbols k = Some v"
  shows "variables asm k = Some v"
  using Assembler_Inr(3) [OF assms(1)] variables_of_predefined [OF assms(2)] by simp

theorem predefined_symbols_immutable_witness:
  "\<exists>asm. Assembler [''@5'', ''(R3)'', ''@R3''] = Inr asm \<and>
     variables asm ''R3'' = Some (PStr ''3'')"
proof -
  have "returns (Assembler [''@5'', ''(R3)'', ''@R3''])"
    by code_simp
  then obtain asm where ret: "Assembler [''@5'', ''(R3)'', ''@R3''] = Inr asm"
    by (auto simp: returns_iff)
  have "map_of predefined_symbols ''R3'' = Some (PStr ''3'')"
    by (simp add: predefined_symbols_def)
  from predefined_symbols_immutable [OF ret this] ret show ?thesis
    by simp
qed

text \<open>
  Claim C17.  An error of the parser comes before any error of the encoder: if the
  operand of some address instruction cannot be read as a number, the run ends with
  that \<open>ValueError\<close>, whatever unknown mnemonics other lines contain.
\<close>

theorem value_error_before_key_error:
  assumes "parsed code = Inl e"
  shows "main code = Inl e \<and> (\<exists>s. e = ValueError s)"
proof -
  from assms obtain l where "parse_line (variables_of code) (labels_of code) l = Inl e"
    unfolding parsed_def by (auto simp: emap_eq_Inl_iff)
  then have "\<exists>s. e = ValueError s"
    by (rule parse_line_error)
  with assms show ?thesis
    by (simp add: main_def Assembler_eq)
qed

theorem value_error_before_key_error_witness:
  "main [''D=Q'', [CHR ''@'', CHR 0xB2]] = Inl (ValueError [CHR 0xB2])"
proof -
  have "parsed [''D=Q'', [CHR ''@'', CHR 0xB2]] = Inl (ValueError [CHR 0xB2])"
    by code_simp
  from value_error_before_key_error [OF this] show ?thesis
    by simp
qed

text \<open>
  Claim C23.  The text that \<^verbatim>\<open>get_machine_code\<close> returns, which is the argument of
  \<^verbatim>\<open>print\<close>, is the machine code line by line: when the program has at least one
  instruction, splitting it at the line breaks gives back the list \<^verbatim>\<open>machine_code\<close>,
  one line per instruction and no line break at its end.  The printed text has the
  closing line break of \<^verbatim>\<open>print\<close>: splitting it gives the same lines followed by one
  empty line.
\<close>

theorem output_lines_roundtrip:
  assumes "main code = Inr out" and "program code \<noteq> []"
  shows "\<exists>asm. Assembler code = Inr asm \<and> split_lines out = machine_code asm \<and>
    length (split_lines out) = length (program code) \<and>
    split_lines (py_print out) = machine_code asm @ [[]]"
  using assms Assembler_lengths(2)
  by (auto simp: main_Inr split_lines_machine_code py_print_def split_lines_line_break
      simp del: append_assoc)

theorem output_lines_roundtrip_witness:
  "\<exists>out. main [''@1'', ''// done'', ''M=D''] = Inr out \<and> length (split_lines out) = 2 \<and>
     length (split_lines (py_print out)) = 3 \<and> last (split_lines (py_print out)) = []"
proof -
  let ?code = "[''@1'', ''// done'', ''M=D'']"
  have "returns (main ?code)"
    by code_simp
  then obtain out where ret: "main ?code = Inr out"
    by (auto simp: returns_iff)
  have p: "program ?code = [''@1'', ''M=D'']"
    by code_simp
  then have "program ?code \<noteq> []"
    by simp
  from output_lines_roundtrip [OF ret this] p ret show ?thesis
    by auto
qed

text \<open>
  Claim C21.  Whitespace is insignificant wherever it stands: two inputs whose lines
  agree after all whitespace is removed are assembled to the same result.
\<close>

theorem whitespace_insignificant:
  assumes "map remove_ws code = map remove_ws code'"
  shows "main code = main code'"
proof -
  from assms have "normalize (map remove_ws code) = normalize (map remove_ws code')"
    by simp
  then show ?thesis
    by (intro main_cong_normalize) (simp add: normalize_remove_ws)
qed

theorem whitespace_insignificant_witness:
  "main [''  D = M ; J G T  '', ''@ 1 2''] = main [''D=M;JGT'', ''@12'']"
proof -
  have "map remove_ws [''  D = M ; J G T  '', ''@ 1 2''] = map remove_ws [''D=M;JGT'', ''@12'']"
    by code_simp
  then show ?thesis
    by (rule whitespace_insignificant)
qed

text \<open>
  Claim C22.  Blank lines and comment lines do not change the result: a line that is
  stripped to nothing can be removed from the input at any position.
\<close>

theorem comment_lines_ignored:
  assumes "strip_line l = []"
  shows "main (xs @ l # ys) = main (xs @ ys)"
  using assms by (intro main_cong_normalize) (simp add: normalize_Cons)

theorem comment_lines_ignored_witness:
  "main ([''@1''] @ '' // set D'' # [''D=A'']) = main ([''@1''] @ [''D=A''])"
proof -
  have "strip_line '' // set D'' = []"
    by code_simp
  then show ?thesis
    by (rule comment_lines_ignored)
qed

text \<open>
  Claim C24.  The object-oriented run refines the functional one: the text that the
  script prints, or the exception that ends it, is what parsing every statement of the
  program against the two symbol tables, encoding every instruction and joining the
  lines gives, with the parsing of all statements before the encoding of any.
\<close>

theorem main_refines_stages:
  "main code =
     ebind (parsed code) (\<lambda>ins. ebind (emap encode ins) (\<lambda>m. Inr (py_join ''\<newline>'' m)))"
  by (simp add: main_def Assembler_eq ebind_assoc get_machine_code_def)

text \<open>
  Claim C31.  No run ends with an \<open>IndexError\<close>, and a run that ends with a
  \<open>KeyError\<close> has parsed every line.
\<close>

theorem main_error_kinds:
  assumes "main code = Inl e"
  shows "(\<exists>s. e = ValueError s \<and> parsed code = Inl e) \<or>
    (\<exists>k ins. e = KeyError k \<and> parsed code = Inr ins)"
proof (cases "parsed code")
  case (Inl e')
  with assms have "e' = e"
    by (simp add: main_def Assembler_eq)
  with Inl have p: "parsed code = Inl e"
    by simp
  then obtain l where "parse_line (variables_of code) (labels_of code) l = Inl e"
    unfolding parsed_def by (auto simp: emap_eq_Inl_iff)
  then have "\<exists>s. e = ValueError s"
    by (rule parse_line_error)
  with p show ?thesis
    by simp
next
  case (Inr ins)
  with assms have "emap encode ins = Inl e"
    by (cases "emap encode ins") (simp_all add: main_def Assembler_eq)
  then obtain x where "encode x = Inl e"
    by (auto simp: emap_eq_Inl_iff)
  then have "\<exists>k. e = KeyError k"
    by (rule encode_error)
  with Inr show ?thesis
    by simp
qed

theorem main_error_kinds_witness:
  "main [''D=Q''] = Inl (KeyError (Some ''Q'')) \<and> parsed [''D=Q''] = Inr [C_instruction (Some ''D'') ''Q'' None]"
proof -
  have m: "main [''D=Q''] = Inl (KeyError (Some ''Q''))"
    by code_simp
  from main_error_kinds [OF m] have "\<exists>ins. parsed [''D=Q''] = Inr ins"
    by auto
  moreover have "parsed [''D=Q''] = Inr [C_instruction (Some ''D'') ''Q'' None] \<or> \<not> returns (parsed [''D=Q''])"
    by code_simp
  ultimately show ?thesis
    using m by (auto simp: returns_iff)
qed

text \<open>
  Claim C35.  A label whose name is a number shadows the number: an address
  instruction with that operand is given the address of the label, not the value of
  the literal.
\<close>

theorem label_shadows_literal:
  assumes "labels_of code x = Some a" and "py_isdigit x"
  shows "parse_line (variables_of code) (labels_of code) (CHR ''@'' # x) = Inr (A_instruction a)"
  using assms variables_of_isdigit_None [of x code]
  by (simp add: parse_line_def py_startswith_def resolve_address_label)

theorem label_shadows_literal_witness:
  "main [''(123)'', ''@123''] = Inr ''0000000000000000'' \<and>
   parse_line (variables_of [''(123)'', ''@123'']) (labels_of [''(123)'', ''@123'']) ''@123'' =
     Inr (A_instruction 0)"
proof -
  have "labels_of [''(123)'', ''@123''] ''123'' = Some 0" and "py_isdigit ''123''"
    by code_simp+
  from label_shadows_literal [OF this]
  have "parse_line (variables_of [''(123)'', ''@123'']) (labels_of [''(123)'', ''@123'']) ''@123'' =
     Inr (A_instruction 0)" .
  moreover have "main [''(123)'', ''@123''] = Inr ''0000000000000000''"
    by code_simp
  ultimately show ?thesis
    by (rule conjI [rotated])
qed

text \<open>
  Claim C36.  A predefined symbol wins over a label of the same name: the operand is
  looked up in the variable table first, so a declaration such as \<^verbatim>\<open>(R3)\<close> is never
  used.
\<close>

theorem predefined_beats_label:
  assumes "map_of predefined_symbols k = Some v"
  shows "parse_line (variables_of code) (labels_of code) (CHR ''@'' # k) =
    ebind (py_int_of v) (\<lambda>a. Inr (A_instruction a))"
  using variables_of_predefined [OF assms, of code]
  by (simp add: parse_line_def py_startswith_def resolve_address_variable)

theorem predefined_beats_label_witness:
  "labels_of [''@5'', ''(R3)'', ''@R3''] ''R3'' = Some 1 \<and>
   parse_line (variables_of [''@5'', ''(R3)'', ''@R3'']) (labels_of [''@5'', ''(R3)'', ''@R3''])
     ''@R3'' = Inr (A_instruction 3)"
proof -
  have "map_of predefined_symbols ''R3'' = Some (PStr ''3'')"
    by (simp add: predefined_symbols_def)
  moreover have "py_int_of (PStr ''3'') = Inr 3"
    by code_simp
  ultimately have "parse_line (variables_of [''@5'', ''(R3)'', ''@R3'']) (labels_of [''@5'', ''(R3)'', ''@R3''])
     ''@R3'' = Inr (A_instruction 3)"
    using predefined_beats_label [of "''R3''" "PStr ''3''" "[''@5'', ''(R3)'', ''@R3'']"]
    by (simp del: py_int_of.simps)
  moreover have "labels_of [''@5'', ''(R3)'', ''@R3''] ''R3'' = Some 1"
    by code_simp
  ultimately show ?thesis
    by simp
qed

section \<open>The examples of the specification\<close>

text \<open>
  The first example of the specification: the program \<^verbatim>\<open>(START)\<close>,
  \<^verbatim>\<open>@START\<close>, \<^verbatim>\<open>0;JMP\<close> binds \<^verbatim>\<open>START\<close> to 0 and is assembled to two lines.
\<close>

lemma example_start:
  "main [''(START)\<newline>'', ''@START\<newline>'', ''0;JMP\<newline>''] =
     Inr ''0000000000000000\<newline>1110101010000111''"
  by code_simp

text \<open>
  The second example of the specification: six statements that add two
  constants are assembled to six lines, the second of which is the code of \<^verbatim>\<open>D=A\<close>.
\<close>

lemma example_add:
  "main [''@2'', ''D=A'', ''@3'', ''D=D+A'', ''@0'', ''M=D''] =
     Inr (''0000000000000010\<newline>1110110000010000\<newline>0000000000000011\<newline>'' @
          ''1110000010010000\<newline>0000000000000000\<newline>1110001100001000'')"
  by code_simp

end
